theory Spec2Isabelle
  imports Main "HOL-Library.AList"
begin

section \<open>Data model\<close>

text \<open>
  The safe synchronisation engine of claude\_sync: the state store
  (\<^verbatim>\<open>JsonSyncStateDatabase\<close>, sync-state.ts), the backup manager
  (\<^verbatim>\<open>BackupManager\<close>, backup-manager.ts), the validator (\<^verbatim>\<open>SyncValidator\<close>)
  and the orchestrator (\<^verbatim>\<open>SafeSync\<close>).

  A \<^verbatim>\<open>Date\<close> is its \<^verbatim>\<open>getTime()\<close> value (milliseconds, an integer); file
  contents, hashes and paths are strings.  Optional fields of the interfaces
  are \<open>option\<close>s.
\<close>

type_synonym path = string
type_synonym hash = string
type_synonym content = string
type_synonym time = int

datatype direction = DirUpload | DirDownload | DirBoth

datatype conflict_state = StateNone | StateLocalNewer | StateRemoteNewer | StateBothModified

record SyncStateEntry =
  fileId :: string
  projectId :: string
  localPath :: path
  remoteId :: "string option"
  localHash :: hash
  remoteHash :: "hash option"
  localMtime :: time
  remoteMtime :: "time option"
  lastSyncTime :: time
  syncDirection :: direction
  conflictState :: conflict_state
  stateBackupPath :: "path option"
  sizeBytes :: nat
  isDeleted :: bool

record BackupEntry =
  backupId :: string
  originalPath :: path
  backupPath :: path
  createdAt :: time
  fileHash :: hash
  backupProjectId :: string
  backupReason :: string

text \<open>A file of the remote knowledge base, with the fields the engine reads.\<close>

record ClaudeKnowledgeFile =
  remoteFileId :: string
  remotePath :: path
  remoteContent :: "content option"
  updatedAt :: time

text \<open>A node of the local file system: a regular file (bytes and mtime) or a directory (mtime).\<close>

datatype node = File content time | Dir time

datatype git_status = NotARepository | Clean | Uncommitted | GitFailed

text \<open>
  The world the engine runs in.
  \<^item> \<open>tree\<close>: the synchronised directory, keyed by the path relative to the local
    root, in directory order (\<^verbatim>\<open>path.join(localPath, p)\<close> and
    \<^verbatim>\<open>path.relative(localPath, q)\<close> are inverse to each other on these paths and are
    not written out).
  \<^item> \<open>bdir\<close>: the files of the backup directory
    \<^verbatim>\<open>~/.claude-sync/backups/<project>\<close>, keyed by their full path.
  \<^item> \<open>syncStates\<close>, \<open>backups\<close>, \<open>initialized\<close>: the fields of
    \<^verbatim>\<open>JsonSyncStateDatabase\<close>; a JavaScript \<^verbatim>\<open>Map\<close> is an association list in
    insertion order.
  \<^item> \<open>dbFile\<close>: the persisted state file; \<open>None\<close> when it is missing or does
    not parse.
  \<^item> \<open>remoteFiles\<close>, \<open>online\<close>: the remote knowledge base behind the client
    (as \<^verbatim>\<open>MockClaudeClient\<close> keeps it: a \<^verbatim>\<open>Map\<close> from file id to file); every
    client call throws when \<open>online\<close> is false.
  \<^item> \<open>tick\<close>: the number of readings taken so far from the clocks and the random
    source of the environment.
  \<^item> \<open>diskAvailable\<close> (\<^verbatim>\<open>bavail * bsize\<close>, \<open>None\<close> when \<^verbatim>\<open>statfs\<close> throws),
    \<open>canRead\<close>, \<open>canWrite\<close>, \<open>git\<close>: what the environment checks of the validator see.
\<close>

record world =
  tree :: "(path \<times> node) list"
  bdir :: "path \<Rightarrow> content option"
  syncStates :: "(string \<times> SyncStateEntry) list"
  backups :: "(string \<times> BackupEntry) list"
  initialized :: bool
  dbFile :: "(SyncStateEntry list \<times> BackupEntry list) option"
  remoteFiles :: "(string \<times> ClaudeKnowledgeFile) list"
  online :: bool
  tick :: nat
  diskAvailable :: "nat option"
  canRead :: bool
  canWrite :: bool
  git :: git_status

text \<open>
  What the engine takes from outside and the model leaves open:
  \<^item> \<open>sha256\<close>: the digest of \<^verbatim>\<open>crypto.createHash('sha256')\<close>, in hex;
  \<^item> \<open>copyBytes\<close>: the bytes \<^verbatim>\<open>fs.copyFile\<close> leaves at the destination for given
    source bytes, \<open>None\<close> when it throws (a faithful copy is \<open>Some\<close>);
  \<^item> \<open>clock\<close>: the \<open>n\<close>-th reading of the local clock (\<^verbatim>\<open>new Date()\<close>, file mtimes);
  \<^item> \<open>serverClock\<close>: the time the remote side stamps on a file uploaded at reading \<open>n\<close>;
  \<^item> \<open>randomId\<close>: the \<open>n\<close>-th draw of \<^verbatim>\<open>crypto.randomBytes(..).toString('hex')\<close>;
  \<^item> \<open>relCwd\<close>: \<^verbatim>\<open>path.relative(process.cwd(), p)\<close> for a file \<open>p\<close> of the tree;
  \<^item> \<open>basename\<close>, \<open>isoStamp\<close>, \<open>backupBaseDir\<close>: \<^verbatim>\<open>path.basename\<close>, the ISO time
    stamp with \<^verbatim>\<open>:\<close> and \<^verbatim>\<open>.\<close> replaced by \<^verbatim>\<open>-\<close>, and the backup directory;
  \<^item> \<open>excluded\<close>: the files the orchestrator's scan drops (exclude patterns);
  \<^item> \<open>ignored\<close>: the files the validator's scan drops (its fixed ignore set).
\<close>

record env =
  sha256 :: "content \<Rightarrow> hash"
  copyBytes :: "content \<Rightarrow> content option"
  clock :: "nat \<Rightarrow> time"
  serverClock :: "nat \<Rightarrow> time"
  randomId :: "nat \<Rightarrow> string"
  relCwd :: "path \<Rightarrow> path"
  basename :: "path \<Rightarrow> string"
  isoStamp :: "time \<Rightarrow> string"
  backupBaseDir :: path
  excluded :: "path \<Rightarrow> bool"
  ignored :: "path \<Rightarrow> bool"

definition newDate :: "env \<Rightarrow> world \<Rightarrow> time \<times> world" where
  "newDate e w = (clock e (tick w), w\<lparr>tick := Suc (tick w)\<rparr>)"

definition randomHex :: "env \<Rightarrow> world \<Rightarrow> string \<times> world" where
  "randomHex e w = (randomId e (tick w), w\<lparr>tick := Suc (tick w)\<rparr>)"

section \<open>State store (JsonSyncStateDatabase)\<close>

definition getStateKey :: "string \<Rightarrow> path \<Rightarrow> string" where
  "getStateKey pid p = pid @ '':'' @ p"

definition loadStates :: "SyncStateEntry list \<Rightarrow> (string \<times> SyncStateEntry) list
    \<Rightarrow> (string \<times> SyncStateEntry) list" where
  "loadStates es m = fold (\<lambda>en. AList.update (getStateKey (projectId en) (localPath en)) en) es m"

definition loadBackups :: "BackupEntry list \<Rightarrow> (string \<times> BackupEntry) list
    \<Rightarrow> (string \<times> BackupEntry) list" where
  "loadBackups bs m = fold (\<lambda>b. AList.update (backupId b) b) bs m"

definition initialize :: "world \<Rightarrow> world" where
  "initialize w =
     (if initialized w then w
      else case dbFile w of
             None \<Rightarrow> w\<lparr>syncStates := [], backups := [], initialized := True\<rparr>
           | Some (ss, bs) \<Rightarrow>
               w\<lparr>syncStates := loadStates ss (syncStates w),
                 backups := loadBackups bs (backups w),
                 initialized := True\<rparr>)"

text \<open>\<^verbatim>\<open>save\<close>: the whole state, written to a temporary file and renamed over the state file.\<close>

definition save :: "world \<Rightarrow> world" where
  "save w = w\<lparr>dbFile := Some (map snd (syncStates w), map snd (backups w))\<rparr>"

definition getFileState :: "string \<Rightarrow> path \<Rightarrow> world \<Rightarrow> SyncStateEntry option \<times> world" where
  "getFileState pid p w =
     (let w1 = initialize w in (map_of (syncStates w1) (getStateKey pid p), w1))"

definition saveFileState :: "SyncStateEntry \<Rightarrow> world \<Rightarrow> world" where
  "saveFileState en w =
     (let w1 = initialize w
      in save (w1\<lparr>syncStates :=
                 AList.update (getStateKey (projectId en) (localPath en)) en (syncStates w1)\<rparr>))"

definition listFileStates :: "string \<Rightarrow> world \<Rightarrow> SyncStateEntry list \<times> world" where
  "listFileStates pid w =
     (let w1 = initialize w
      in (filter (\<lambda>en. projectId en = pid) (map snd (syncStates w1)), w1))"

definition dbCreateBackup :: "BackupEntry \<Rightarrow> world \<Rightarrow> world" where
  "dbCreateBackup b w =
     (let w1 = initialize w
      in save (w1\<lparr>backups := AList.update (backupId b) b (backups w1)\<rparr>))"

text \<open>
  \<^verbatim>\<open>sort((a, b) => b.createdAt.getTime() - a.createdAt.getTime())\<close>: newest first;
  the sort of JavaScript is stable, as \<open>sort_key\<close> is.
\<close>

definition newestFirst :: "BackupEntry list \<Rightarrow> BackupEntry list" where
  "newestFirst bs = sort_key (\<lambda>b. - createdAt b) bs"

text \<open>
  \<^verbatim>\<open>listBackups(projectId, originalPath?)\<close>: the path filter applies only when
  \<^verbatim>\<open>originalPath\<close> is truthy, so neither \<^verbatim>\<open>undefined\<close> nor the empty string filters.
\<close>

definition dbListBackups :: "string \<Rightarrow> path option \<Rightarrow> world \<Rightarrow> BackupEntry list \<times> world" where
  "dbListBackups pid po w =
     (let w1 = initialize w
      in (newestFirst
            (filter (\<lambda>b. backupProjectId b = pid \<and>
                          (case po of None \<Rightarrow> True
                           | Some p \<Rightarrow> p = [] \<or> originalPath b = p))
               (map snd (backups w1))),
          w1))"

text \<open>\<^verbatim>\<open>deleteBackup\<close>: unlink the backup file (a missing file is ignored), drop the record, save.\<close>

definition dbDeleteBackup :: "string \<Rightarrow> world \<Rightarrow> world" where
  "dbDeleteBackup bid w =
     (let w1 = initialize w
      in case map_of (backups w1) bid of
           None \<Rightarrow> w1
         | Some b \<Rightarrow>
             save (w1\<lparr>bdir := (bdir w1)(backupPath b := None),
                      backups := AList.delete bid (backups w1)\<rparr>))"

text \<open>\<^verbatim>\<open>Array.prototype.slice(start)\<close> for an integer \<open>start\<close>: a negative start counts from the end.\<close>

definition sliceFrom :: "int \<Rightarrow> 'a list \<Rightarrow> 'a list" where
  "sliceFrom n xs = (if 0 \<le> n then drop (nat n) xs else drop (nat (int (length xs) + n)) xs)"

text \<open>The keys of \<^verbatim>\<open>backupsByPath\<close>, in the order in which the loop first meets them.\<close>

definition firstOccurrences :: "'a list \<Rightarrow> 'a list" where
  "firstOccurrences xs = rev (remdups (rev xs))"

definition toDelete :: "string \<Rightarrow> int \<Rightarrow> BackupEntry list \<Rightarrow> BackupEntry list" where
  "toDelete pid retentionCount bs =
     (let mine = filter (\<lambda>b. backupProjectId b = pid) bs
      in concat (map (\<lambda>p. sliceFrom retentionCount
                              (newestFirst (filter (\<lambda>b. originalPath b = p) mine)))
                     (firstOccurrences (map originalPath mine))))"

definition cleanupOldBackups :: "string \<Rightarrow> int \<Rightarrow> world \<Rightarrow> world" where
  "cleanupOldBackups pid retentionCount w =
     (let w1 = initialize w
      in fold (\<lambda>b. dbDeleteBackup (backupId b))
              (toDelete pid retentionCount (map snd (backups w1))) w1)"

text \<open>\<^verbatim>\<open>close\<close>: save when the store has been initialised.\<close>

definition close :: "world \<Rightarrow> world" where
  "close w = (if initialized w then save w else w)"

section \<open>Backup manager\<close>

record BackupOptions =
  enabled :: bool
  retentionCount :: int
  autoCleanup :: bool

record BackupResult =
  success :: bool
  resultBackupId :: "string option"
  resultBackupPath :: "path option"
  error :: "string option"

definition failed :: "string \<Rightarrow> BackupResult" where
  "failed msg = \<lparr>success = False, resultBackupId = None, resultBackupPath = None,
                 error = Some msg\<rparr>"

definition succeeded :: "string option \<Rightarrow> path option \<Rightarrow> BackupResult" where
  "succeeded bid bp = \<lparr>success = True, resultBackupId = bid, resultBackupPath = bp,
                       error = None\<rparr>"

definition backupFileName :: "env \<Rightarrow> path \<Rightarrow> time \<Rightarrow> string \<Rightarrow> path" where
  "backupFileName e p t bid =
     backupBaseDir e @ ''/'' @ basename e p @ ''.'' @ isoStamp e t @ ''.'' @ take 8 bid @ ''.bak''"

text \<open>
  \<^verbatim>\<open>createBackup(originalPath, reason)\<close>.  Every exception inside the \<^verbatim>\<open>try\<close> ends in
  the failure result of the \<^verbatim>\<open>catch\<close>: a missing file (\<^verbatim>\<open>fs.stat\<close> throws) and a
  copy that throws.
\<close>

definition createBackup ::
  "env \<Rightarrow> BackupOptions \<Rightarrow> string \<Rightarrow> path \<Rightarrow> string \<Rightarrow> world \<Rightarrow> BackupResult \<times> world" where
  "createBackup e opts pid orig rsn w =
     (if \<not> enabled opts then (succeeded None None, w)
      else case map_of (tree w) orig of
        None \<Rightarrow> (failed ''ENOENT: no such file or directory'', w)
      | Some (Dir t) \<Rightarrow> (failed ''Path is not a file'', w)
      | Some (File c m) \<Rightarrow>
          (let (bid, w1) = randomHex e w;
               (stamp, w2) = newDate e w1;
               bpath = backupFileName e orig stamp bid;
               fHash = sha256 e c
           in case copyBytes e c of
                None \<Rightarrow> (failed ''copyFile failed'', w2)
              | Some c' \<Rightarrow>
                  (let w3 = w2\<lparr>bdir := (bdir w2)(bpath \<mapsto> c')\<rparr>
                   in if fHash \<noteq> sha256 e c'
                      then (failed ''Backup integrity verification failed'',
                            w3\<lparr>bdir := (bdir w3)(bpath := None)\<rparr>)
                      else
                        (let (created, w4) = newDate e w3;
                             entry = \<lparr>backupId = bid, originalPath = relCwd e orig,
                                      backupPath = bpath, createdAt = created,
                                      fileHash = fHash, backupProjectId = pid,
                                      backupReason = rsn\<rparr>;
                             w5 = dbCreateBackup entry w4;
                             w6 = (if autoCleanup opts
                                   then cleanupOldBackups pid (retentionCount opts) w5
                                   else w5)
                         in (succeeded (Some bid) (Some bpath), w6)))))"

text \<open>
  \<^verbatim>\<open>restoreFromBackup(backupId, targetPath?)\<close>.  \<^verbatim>\<open>targetPath || backup.originalPath\<close>
  takes the original path also for an empty target.  Copying onto a directory throws.
\<close>

definition isDirectory :: "node option \<Rightarrow> bool" where
  "isDirectory n = (case n of Some (Dir t) \<Rightarrow> True | _ \<Rightarrow> False)"

definition restoreFromBackup ::
  "env \<Rightarrow> string \<Rightarrow> string \<Rightarrow> path option \<Rightarrow> world \<Rightarrow> BackupResult \<times> world" where
  "restoreFromBackup e pid bid target w =
     (let (bs, w1) = dbListBackups pid None w
      in case find (\<lambda>b. backupId b = bid) bs of
           None \<Rightarrow> (failed ''Backup not found'', w1)
         | Some b \<Rightarrow>
             (case bdir w1 (backupPath b) of
                None \<Rightarrow> (failed ''Backup file no longer exists on disk'', w1)
              | Some c \<Rightarrow>
                  (let restorePath = (case target of None \<Rightarrow> originalPath b
                                      | Some t \<Rightarrow> if t = [] then originalPath b else t)
                   in case copyBytes e c of
                        None \<Rightarrow> (failed ''copyFile failed'', w1)
                      | Some c' \<Rightarrow>
                          (if isDirectory (map_of (tree w1) restorePath)
                           then (failed ''EISDIR: illegal operation on a directory'', w1)
                           else
                             (let (mt, w2) = newDate e w1;
                                  w3 = w2\<lparr>tree := AList.update restorePath (File c' mt) (tree w2)\<rparr>
                              in if sha256 e c' \<noteq> fileHash b
                                 then (failed ''Restored file integrity verification failed'', w3)
                                 else (succeeded (Some (backupId b)) (Some restorePath), w3))))))"

text \<open>\<^verbatim>\<open>calculateFileHash\<close>: reading a missing path or a directory throws.\<close>

definition calculateFileHash :: "env \<Rightarrow> world \<Rightarrow> path \<Rightarrow> hash option" where
  "calculateFileHash e w p =
     (case map_of (tree w) p of Some (File c m) \<Rightarrow> Some (sha256 e c) | _ \<Rightarrow> None)"

definition hasFileChangedSinceBackup :: "env \<Rightarrow> string \<Rightarrow> path \<Rightarrow> world \<Rightarrow> bool \<times> world" where
  "hasFileChangedSinceBackup e pid p w =
     (case calculateFileHash e w p of
        None \<Rightarrow> (True, w)
      | Some currentHash \<Rightarrow>
          (let (bs, w1) = dbListBackups pid (Some (relCwd e p)) w
           in case bs of
                [] \<Rightarrow> (True, w1)
              | latestBackup # _ \<Rightarrow> (currentHash \<noteq> fileHash latestBackup, w1)))"

section \<open>Validator (SyncValidator)\<close>

datatype issue_type = IssueError | IssueWarning | IssueInfo

record ValidationIssue =
  issueType :: issue_type
  code :: string
  message :: string
  issuePath :: "path option"
  suggestion :: "string option"

datatype conflict_type = local_newer | remote_newer | both_modified | local_deleted | remote_deleted

record ConflictInfo =
  conflictPath :: path
  conflictType :: conflict_type
  conflictLocalMtime :: "time option"
  conflictRemoteMtime :: "time option"
  conflictLastSyncTime :: "time option"
  conflictLocalHash :: "hash option"
  conflictRemoteHash :: "hash option"

record ValidationStats =
  localFiles :: nat
  remoteFilesSeen :: nat
  conflictFiles :: nat
  newLocalFiles :: nat
  newRemoteFiles :: nat
  unchangedFiles :: nat

record ValidationResult =
  isValid :: bool
  canProceed :: bool
  issues :: "ValidationIssue list"
  conflicts :: "ConflictInfo list"
  stats :: ValidationStats
  recommendations :: "string list"

record SyncValidatorOptions =
  checkDiskSpace :: bool
  checkPermissions :: bool
  checkGitStatus :: bool
  checkNetworkConnectivity :: bool
  maxConflictCount :: int
  allowForce :: bool

text \<open>
  What the validator carries through its checks: the three accumulators of
  \<^verbatim>\<open>validate\<close> and the world (the state store loads itself on first use).
\<close>

record vstate =
  vIssues :: "ValidationIssue list"
  vStats :: ValidationStats
  vConflicts :: "ConflictInfo list"
  vWorld :: world

definition issue :: "issue_type \<Rightarrow> string \<Rightarrow> string \<Rightarrow> path option \<Rightarrow> string \<Rightarrow> ValidationIssue" where
  "issue t c m p s = \<lparr>issueType = t, code = c, message = m, issuePath = p, suggestion = Some s\<rparr>"

definition pushIssue :: "ValidationIssue \<Rightarrow> vstate \<Rightarrow> vstate" where
  "pushIssue i v = v\<lparr>vIssues := vIssues v @ [i]\<rparr>"

definition pushConflict :: "ConflictInfo \<Rightarrow> vstate \<Rightarrow> vstate" where
  "pushConflict c v = v\<lparr>vConflicts := vConflicts v @ [c]\<rparr>"

text \<open>The numbers that the source prints into the two disk-space messages are left out.\<close>

definition checkDiskSpaceIssues :: "world \<Rightarrow> ValidationIssue list" where
  "checkDiskSpaceIssues w =
     (case diskAvailable w of
        None \<Rightarrow> [issue IssueWarning ''DISK_SPACE_CHECK_FAILED'' ''Could not check disk space'' None
                   ''Ensure sufficient disk space is available'']
      | Some availableBytes \<Rightarrow>
          (let requiredBytes = 100 * 1024 * 1024
           in if availableBytes < requiredBytes
              then [issue IssueError ''LOW_DISK_SPACE'' ''Insufficient disk space.'' None
                      ''Free up disk space before syncing'']
              else if availableBytes < requiredBytes * 2
              then [issue IssueWarning ''LOW_DISK_SPACE_WARNING'' ''Low disk space.'' None
                      ''Consider freeing up disk space'']
              else []))"

definition checkPermissionsIssues :: "world \<Rightarrow> ValidationIssue list" where
  "checkPermissionsIssues w =
     (if canRead w \<and> canWrite w then []
      else [issue IssueError ''PERMISSION_ERROR'' ''Insufficient permissions for the local path''
              None ''Check file permissions and ensure you have read/write access''])"

definition checkGitStatusIssues :: "world \<Rightarrow> ValidationIssue list" where
  "checkGitStatusIssues w =
     (case git w of
        NotARepository \<Rightarrow> []
      | Clean \<Rightarrow> []
      | Uncommitted \<Rightarrow>
          [issue IssueWarning ''GIT_UNCOMMITTED_CHANGES''
             ''Git working directory has uncommitted changes'' None
             ''Consider committing changes before syncing for better recovery options'']
      | GitFailed \<Rightarrow>
          [issue IssueInfo ''GIT_CHECK_FAILED'' ''Could not check Git status'' None
             ''Git checks are optional''])"

definition checkNetworkConnectivityIssues :: "world \<Rightarrow> ValidationIssue list" where
  "checkNetworkConnectivityIssues w =
     (if online w then []
      else [issue IssueError ''NETWORK_ERROR'' ''Cannot connect to Claude API'' None
              ''Check your internet connection and API credentials''])"

text \<open>
  The regular files of the tree, in directory order.  The validator's scan drops the
  files of its ignore set; reading the directory throws when the root is not readable.
\<close>

definition regularFiles :: "world \<Rightarrow> path list" where
  "regularFiles w = map fst (filter (\<lambda>pn. case snd pn of File c m \<Rightarrow> True | Dir t \<Rightarrow> False) (tree w))"

definition validatorLocalFiles :: "env \<Rightarrow> world \<Rightarrow> path list option" where
  "validatorLocalFiles e w =
     (if canRead w then Some (filter (\<lambda>p. \<not> ignored e p) (regularFiles w)) else None)"

text \<open>\<^verbatim>\<open>fs.stat(p).mtime\<close>; \<open>None\<close> when the path does not exist.\<close>

definition statMtime :: "world \<Rightarrow> path \<Rightarrow> time option" where
  "statMtime w p =
     (case map_of (tree w) p of None \<Rightarrow> None | Some (File c m) \<Rightarrow> Some m | Some (Dir t) \<Rightarrow> Some t)"

definition fileExists :: "world \<Rightarrow> path \<Rightarrow> bool" where
  "fileExists w p = (map_of (tree w) p \<noteq> None)"

text \<open>One round of the loop of \<^verbatim>\<open>validateLocalFiles\<close>, with its inner \<^verbatim>\<open>try\<close>.\<close>

definition validateLocalFile :: "env \<Rightarrow> string \<Rightarrow> path \<Rightarrow> vstate \<Rightarrow> vstate" where
  "validateLocalFile e pid p v =
     (let (fileState, w1) = getFileState pid p (vWorld v);
          v1 = v\<lparr>vWorld := w1\<rparr>
      in case fileState of
           None \<Rightarrow> v1\<lparr>vStats := (vStats v1)\<lparr>newLocalFiles := Suc (newLocalFiles (vStats v1))\<rparr>\<rparr>
         | Some st \<Rightarrow>
             (case calculateFileHash e w1 p of
                None \<Rightarrow> pushIssue \<lparr>issueType = IssueWarning, code = ''FILE_READ_ERROR'',
                                   message = ''Cannot read file: '' @ p, issuePath = Some p,
                                   suggestion = Some ''Check file permissions''\<rparr> v1
              | Some currentHash \<Rightarrow>
                  if currentHash \<noteq> localHash st
                  then (case statMtime w1 p of
                          None \<Rightarrow> pushIssue \<lparr>issueType = IssueWarning, code = ''FILE_READ_ERROR'',
                                   message = ''Cannot read file: '' @ p, issuePath = Some p,
                                   suggestion = Some ''Check file permissions''\<rparr> v1
                        | Some mtime \<Rightarrow>
                            if remoteMtime st \<noteq> None \<and> mtime > lastSyncTime st
                            then pushConflict
                                   \<lparr>conflictPath = p, conflictType = local_newer,
                                    conflictLocalMtime = Some mtime,
                                    conflictRemoteMtime = remoteMtime st,
                                    conflictLastSyncTime = Some (lastSyncTime st),
                                    conflictLocalHash = Some currentHash,
                                    conflictRemoteHash = remoteHash st\<rparr> v1
                            else v1)
                  else v1\<lparr>vStats := (vStats v1)\<lparr>unchangedFiles := Suc (unchangedFiles (vStats v1))\<rparr>\<rparr>))"

definition validateLocalFiles :: "env \<Rightarrow> string \<Rightarrow> vstate \<Rightarrow> vstate" where
  "validateLocalFiles e pid v =
     (case validatorLocalFiles e (vWorld v) of
        None \<Rightarrow> pushIssue (issue IssueError ''LOCAL_SCAN_ERROR'' ''Cannot scan local files''
                             None ''Check local directory permissions'') v
      | Some fs \<Rightarrow>
          fold (validateLocalFile e pid) fs
            (v\<lparr>vStats := (vStats v)\<lparr>localFiles := length fs\<rparr>\<rparr>))"

text \<open>\<^verbatim>\<open>listKnowledgeFiles\<close>: the values of the remote map; throws when the remote side is unreachable.\<close>

definition listKnowledgeFiles :: "world \<Rightarrow> ClaudeKnowledgeFile list option" where
  "listKnowledgeFiles w = (if online w then Some (map snd (remoteFiles w)) else None)"

definition validateRemoteFile :: "string \<Rightarrow> ClaudeKnowledgeFile \<Rightarrow> vstate \<Rightarrow> vstate" where
  "validateRemoteFile pid rf v =
     (let (fileState, w1) = getFileState pid (remotePath rf) (vWorld v);
          v1 = v\<lparr>vWorld := w1\<rparr>
      in case fileState of
           None \<Rightarrow> v1\<lparr>vStats := (vStats v1)\<lparr>newRemoteFiles := Suc (newRemoteFiles (vStats v1))\<rparr>\<rparr>
         | Some st \<Rightarrow>
             if updatedAt rf > lastSyncTime st
             then (case statMtime w1 (remotePath rf) of
                     Some mtime \<Rightarrow>
                       if mtime > lastSyncTime st
                       then pushConflict
                              \<lparr>conflictPath = remotePath rf, conflictType = both_modified,
                               conflictLocalMtime = Some mtime,
                               conflictRemoteMtime = Some (updatedAt rf),
                               conflictLastSyncTime = Some (lastSyncTime st),
                               conflictLocalHash = None, conflictRemoteHash = None\<rparr> v1
                       else pushConflict
                              \<lparr>conflictPath = remotePath rf, conflictType = remote_newer,
                               conflictLocalMtime = None,
                               conflictRemoteMtime = Some (updatedAt rf),
                               conflictLastSyncTime = Some (lastSyncTime st),
                               conflictLocalHash = None, conflictRemoteHash = None\<rparr> v1
                   | None \<Rightarrow>
                       pushConflict
                         \<lparr>conflictPath = remotePath rf, conflictType = local_deleted,
                          conflictLocalMtime = None,
                          conflictRemoteMtime = Some (updatedAt rf),
                          conflictLastSyncTime = Some (lastSyncTime st),
                          conflictLocalHash = None, conflictRemoteHash = None\<rparr> v1)
             else v1)"

definition validateRemoteFiles :: "string \<Rightarrow> vstate \<Rightarrow> vstate" where
  "validateRemoteFiles pid v =
     (case listKnowledgeFiles (vWorld v) of
        None \<Rightarrow> pushIssue (issue IssueError ''REMOTE_SCAN_ERROR'' ''Cannot scan remote files''
                             None ''Check API credentials and network connection'') v
      | Some rfs \<Rightarrow>
          fold (validateRemoteFile pid) rfs
            (v\<lparr>vStats := (vStats v)\<lparr>remoteFilesSeen := length rfs\<rparr>\<rparr>))"

text \<open>
  \<^verbatim>\<open>detectConflicts\<close>: \<open>None\<close> when listing the remote files throws (the exception
  leaves \<^verbatim>\<open>detectConflicts\<close> and is caught in \<^verbatim>\<open>validate\<close>).
\<close>

definition detectConflicts :: "string \<Rightarrow> vstate \<Rightarrow> vstate option" where
  "detectConflicts pid v =
     (let (fileStates, w1) = listFileStates pid (vWorld v);
          v1 = v\<lparr>vWorld := w1\<rparr>
      in case listKnowledgeFiles w1 of
           None \<Rightarrow> None
         | Some rfs \<Rightarrow>
             Some (fold (\<lambda>st v'.
                      if fileExists w1 (localPath st) then v'
                      else if localPath st \<in> set (map remotePath rfs)
                      then pushConflict
                             \<lparr>conflictPath = localPath st, conflictType = local_deleted,
                              conflictLocalMtime = None, conflictRemoteMtime = None,
                              conflictLastSyncTime = Some (lastSyncTime st),
                              conflictLocalHash = None, conflictRemoteHash = None\<rparr> v'
                      else v')
                   fileStates v1))"

definition generateRecommendations ::
  "ValidationIssue list \<Rightarrow> ConflictInfo list \<Rightarrow> ValidationStats \<Rightarrow> string list" where
  "generateRecommendations is cs st =
     (if length cs > 0
      then [''Review conflicts before proceeding'',
            ''Consider using --dry-run to preview changes''] @
           (if length cs > 5 then [''Consider syncing in smaller batches''] else [])
      else []) @
     (if newLocalFiles st > 0 \<or> newRemoteFiles st > 0 then [''Enable backups for safety''] else []) @
     (if \<exists>i \<in> set is. issueType i = IssueError then [''Fix errors before attempting sync''] else []) @
     (if \<exists>i \<in> set is. issueType i = IssueWarning
      then [''Address warnings for optimal sync experience''] else []) @
     (if localFiles st > 100 \<or> remoteFilesSeen st > 100
      then [''Large number of files detected - sync may take some time''] else [])"

text \<open>The checks of \<^verbatim>\<open>validate\<close> up to the end of its \<^verbatim>\<open>try\<close> block.\<close>

definition runChecks :: "env \<Rightarrow> SyncValidatorOptions \<Rightarrow> string \<Rightarrow> direction \<Rightarrow> world \<Rightarrow> vstate" where
  "runChecks e opts pid dir w =
     (let v0 = \<lparr>vIssues =
                   (if checkDiskSpace opts then checkDiskSpaceIssues w else []) @
                   (if checkPermissions opts then checkPermissionsIssues w else []) @
                   (if checkGitStatus opts then checkGitStatusIssues w else []) @
                   (if checkNetworkConnectivity opts then checkNetworkConnectivityIssues w else []),
                vStats = \<lparr>localFiles = 0, remoteFilesSeen = 0, conflictFiles = 0,
                           newLocalFiles = 0, newRemoteFiles = 0, unchangedFiles = 0\<rparr>,
                vConflicts = [], vWorld = w\<rparr>;
          v1 = (if dir = DirUpload \<or> dir = DirBoth then validateLocalFiles e pid v0 else v0);
          v2 = (if dir = DirDownload \<or> dir = DirBoth then validateRemoteFiles pid v1 else v1)
      in if dir = DirBoth
         then (case detectConflicts pid v2 of
                 Some v3 \<Rightarrow> v3
               | None \<Rightarrow>
                   pushIssue (issue IssueError ''VALIDATION_ERROR'' ''Validation failed''
                                None ''Check your configuration and try again'')
                     (v2\<lparr>vWorld := initialize (vWorld v2)\<rparr>))
         else v2)"

definition validate ::
  "env \<Rightarrow> SyncValidatorOptions \<Rightarrow> string \<Rightarrow> direction \<Rightarrow> world \<Rightarrow> ValidationResult \<times> world" where
  "validate e opts pid dir w =
     (let v = runChecks e opts pid dir w;
          st = (vStats v)\<lparr>conflictFiles := length (vConflicts v)\<rparr>;
          hasErrors = (\<exists>i \<in> set (vIssues v). issueType i = IssueError);
          tooManyConflicts = (int (length (vConflicts v)) > maxConflictCount opts)
      in (\<lparr>isValid = \<not> hasErrors,
           canProceed = (\<not> hasErrors \<and> (\<not> tooManyConflicts \<or> allowForce opts)),
           issues = vIssues v,
           conflicts = vConflicts v,
           stats = st,
           recommendations = generateRecommendations (vIssues v) (vConflicts v) st\<rparr>,
          vWorld v))"


section \<open>Orchestrator (SafeSync)\<close>

datatype resolution = ask | skip | local_wins | remote_wins | backup_and_merge

datatype op_type = upload | download | delete_local | delete_remote

record SyncOperation =
  opType :: op_type
  filePath :: path
  reason :: string
  opConflictType :: "string option"
  backupRequired :: bool

record SyncStats =
  filesUploaded :: nat
  filesDownloaded :: nat
  filesSkipped :: nat
  conflictsResolved :: nat
  backupsCreated :: nat
  totalOperations :: nat
  duration :: int

record SyncResult =
  syncSuccess :: bool
  resultDryRun :: bool
  operations :: "SyncOperation list"
  executedOperations :: "SyncOperation list"
  skippedOperations :: "SyncOperation list"
  errors :: "string list"
  warnings :: "string list"
  syncStats :: SyncStats
  validationResult :: "ValidationResult option"

text \<open>
  The options of \<^verbatim>\<open>SafeSync\<close>; \<^verbatim>\<open>verbose\<close> only prints, and the exclude patterns are
  the \<open>excluded\<close> files of the environment.  The validator is built with the
  \<^verbatim>\<open>validation\<close> options and \<^verbatim>\<open>allowForce: this.options.force\<close>.
\<close>

record SafeSyncOptions =
  direction :: direction
  dryRun :: bool
  backup :: BackupOptions
  validationEnabled :: bool
  validation :: SyncValidatorOptions
  conflictResolution :: resolution
  force :: bool

definition validatorOptions :: "SafeSyncOptions \<Rightarrow> SyncValidatorOptions" where
  "validatorOptions opts = (validation opts)\<lparr>allowForce := force opts\<rparr>"

definition generateFileId :: "env \<Rightarrow> string \<Rightarrow> path \<Rightarrow> string" where
  "generateFileId e pid p = take 16 (sha256 e (pid @ '':'' @ p))"

subsection \<open>The remote client, as \<^verbatim>\<open>MockClaudeClient\<close> behaves\<close>

definition getKnowledgeFile :: "world \<Rightarrow> string \<Rightarrow> ClaudeKnowledgeFile option" where
  "getKnowledgeFile w fid = (if online w then map_of (remoteFiles w) fid else None)"

definition uploadKnowledgeFile ::
  "env \<Rightarrow> path \<Rightarrow> content \<Rightarrow> world \<Rightarrow> (ClaudeKnowledgeFile \<times> world) option" where
  "uploadKnowledgeFile e p c w =
     (if \<not> online w then None
      else (let stamp = serverClock e (tick w);
                (rid, w1) = randomHex e (w\<lparr>tick := Suc (tick w)\<rparr>);
                f = \<lparr>remoteFileId = ''file_'' @ rid, remotePath = p, remoteContent = Some c,
                     updatedAt = stamp\<rparr>
            in Some (f, w1\<lparr>remoteFiles := AList.update (remoteFileId f) f (remoteFiles w1)\<rparr>)))"

definition deleteKnowledgeFile :: "string \<Rightarrow> world \<Rightarrow> world option" where
  "deleteKnowledgeFile fid w =
     (if online w \<and> map_of (remoteFiles w) fid \<noteq> None
      then Some (w\<lparr>remoteFiles := AList.delete fid (remoteFiles w)\<rparr>)
      else None)"

subsection \<open>Planning\<close>

text \<open>\<^verbatim>\<open>SafeSync.getLocalFiles\<close>: the regular files that pass the exclude patterns.\<close>

definition getLocalFiles :: "env \<Rightarrow> world \<Rightarrow> path list option" where
  "getLocalFiles e w =
     (if canRead w then Some (filter (\<lambda>p. \<not> excluded e p) (regularFiles w)) else None)"

definition planUploadFile ::
  "env \<Rightarrow> string \<Rightarrow> path \<Rightarrow> SyncOperation list \<times> world \<Rightarrow> SyncOperation list \<times> world" where
  "planUploadFile e pid p ow =
     (let (fileState, w1) = getFileState pid p (snd ow)
      in case calculateFileHash e w1 p of
           None \<Rightarrow> (fst ow, w1)
         | Some currentHash \<Rightarrow>
             (case fileState of
                None \<Rightarrow>
                  (fst ow @ [\<lparr>opType = upload, filePath = p, reason = ''New local file'',
                              opConflictType = None, backupRequired = False\<rparr>], w1)
              | Some st \<Rightarrow>
                  if currentHash \<noteq> localHash st
                  then (fst ow @ [\<lparr>opType = upload, filePath = p, reason = ''Local file modified'',
                                   opConflictType = None, backupRequired = True\<rparr>], w1)
                  else (fst ow, w1)))"

text \<open>The planners return \<open>None\<close> for the operations when they throw.\<close>

definition planUploadOperations ::
  "env \<Rightarrow> string \<Rightarrow> world \<Rightarrow> SyncOperation list option \<times> world" where
  "planUploadOperations e pid w =
     (case getLocalFiles e w of
        None \<Rightarrow> (None, w)
      | Some fs \<Rightarrow> (let (ops, w1) = fold (planUploadFile e pid) fs ([], w) in (Some ops, w1)))"

definition planDownloadFile ::
  "string \<Rightarrow> ClaudeKnowledgeFile \<Rightarrow> SyncOperation list \<times> world \<Rightarrow> SyncOperation list \<times> world" where
  "planDownloadFile pid rf ow =
     (let (fileState, w1) = getFileState pid (remotePath rf) (snd ow)
      in case fileState of
           None \<Rightarrow>
             (fst ow @ [\<lparr>opType = download, filePath = remotePath rf, reason = ''New remote file'',
                         opConflictType = None, backupRequired = False\<rparr>], w1)
         | Some st \<Rightarrow>
             if updatedAt rf > lastSyncTime st
             then (fst ow @ [\<lparr>opType = download, filePath = remotePath rf,
                              reason = ''Remote file modified'', opConflictType = None,
                              backupRequired = fileExists w1 (remotePath rf)\<rparr>], w1)
             else (fst ow, w1))"

definition planDownloadOperations ::
  "string \<Rightarrow> world \<Rightarrow> SyncOperation list option \<times> world" where
  "planDownloadOperations pid w =
     (case listKnowledgeFiles w of
        None \<Rightarrow> (None, w)
      | Some rfs \<Rightarrow> (let (ops, w1) = fold (planDownloadFile pid) rfs ([], w) in (Some ops, w1)))"

definition planOperations ::
  "env \<Rightarrow> SafeSyncOptions \<Rightarrow> string \<Rightarrow> world \<Rightarrow> SyncOperation list option \<times> world" where
  "planOperations e opts pid w =
     (let (up, w1) = (if direction opts = DirUpload \<or> direction opts = DirBoth
                      then planUploadOperations e pid w else (Some [], w))
      in case up of
           None \<Rightarrow> (None, w1)
         | Some uploadOps \<Rightarrow>
             (let (down, w2) = (if direction opts = DirDownload \<or> direction opts = DirBoth
                                then planDownloadOperations pid w1 else (Some [], w1))
              in case down of
                   None \<Rightarrow> (None, w2)
                 | Some downloadOps \<Rightarrow> (Some (uploadOps @ downloadOps), w2)))"

subsection \<open>Conflict resolution\<close>

text \<open>\<^verbatim>\<open>backup_and_merge\<close> changes the first upload operation of the path in place.\<close>

fun markUpload :: "path \<Rightarrow> SyncOperation list \<Rightarrow> SyncOperation list" where
  "markUpload p [] = []"
| "markUpload p (op # ops) =
     (if opType op = upload \<and> filePath op = p
      then op\<lparr>backupRequired := True, reason := reason op @ '' (conflict - backup created)''\<rparr> # ops
      else op # markUpload p ops)"

definition handleConflict :: "resolution \<Rightarrow> ConflictInfo \<Rightarrow> SyncResult \<Rightarrow> SyncResult" where
  "handleConflict res c r =
     (let r1 = (case res of
                  skip \<Rightarrow>
                    r\<lparr>operations := filter (\<lambda>op. filePath op \<noteq> conflictPath c) (operations r),
                      warnings := warnings r @ [''Skipped conflicted file: '' @ conflictPath c]\<rparr>
                | local_wins \<Rightarrow>
                    r\<lparr>operations := filter (\<lambda>op. \<not> (opType op = download \<and>
                                            filePath op = conflictPath c)) (operations r)\<rparr>
                | remote_wins \<Rightarrow>
                    r\<lparr>operations := filter (\<lambda>op. \<not> (opType op = upload \<and>
                                            filePath op = conflictPath c)) (operations r)\<rparr>
                | backup_and_merge \<Rightarrow>
                    r\<lparr>operations := markUpload (conflictPath c) (operations r)\<rparr>
                | ask \<Rightarrow>
                    r\<lparr>operations := filter (\<lambda>op. filePath op \<noteq> conflictPath c) (operations r),
                      warnings := warnings r @
                        [''Skipped conflicted file (interactive resolution not implemented): '' @
                         conflictPath c]\<rparr>)
      in r1\<lparr>syncStats := (syncStats r1)\<lparr>conflictsResolved := Suc (conflictsResolved (syncStats r1))\<rparr>\<rparr>)"

definition handleConflicts :: "resolution \<Rightarrow> ConflictInfo list \<Rightarrow> SyncResult \<Rightarrow> SyncResult" where
  "handleConflicts res cs r = fold (handleConflict res) cs r"

subsection \<open>Execution\<close>

text \<open>
  Each \<^verbatim>\<open>execute...\<close> returns the message of the exception it threw, if any, with the
  result and the world as they were when it ended.
\<close>

definition executeUpload ::
  "env \<Rightarrow> string \<Rightarrow> SyncOperation \<Rightarrow> SyncResult \<times> world \<Rightarrow> string option \<times> SyncResult \<times> world" where
  "executeUpload e pid op rw =
     (let r = fst rw; w = snd rw; p = filePath op
      in case map_of (tree w) p of
           Some (File c m) \<Rightarrow>
             (case uploadKnowledgeFile e p c w of
                None \<Rightarrow> (Some ''upload failed'', r, w)
              | Some (uploadedFile, w1) \<Rightarrow>
                  (let h = sha256 e c;
                       (now, w2) = newDate e w1;
                       syncState = \<lparr>fileId = generateFileId e pid p, projectId = pid,
                                    localPath = p, remoteId = Some (remoteFileId uploadedFile),
                                    localHash = h, remoteHash = Some h, localMtime = m,
                                    remoteMtime = Some (updatedAt uploadedFile),
                                    lastSyncTime = now, syncDirection = DirUpload,
                                    conflictState = StateNone, stateBackupPath = None,
                                    sizeBytes = length c, isDeleted = False\<rparr>
                   in (None,
                       r\<lparr>syncStats := (syncStats r)\<lparr>filesUploaded := Suc (filesUploaded (syncStats r))\<rparr>\<rparr>,
                       saveFileState syncState w2)))
         | _ \<Rightarrow> (Some ''cannot read the local file'', r, w))"

definition executeDownload ::
  "env \<Rightarrow> string \<Rightarrow> SyncOperation \<Rightarrow> SyncResult \<times> world \<Rightarrow> string option \<times> SyncResult \<times> world" where
  "executeDownload e pid op rw =
     (let r = fst rw; w = snd rw; p = filePath op
      in case listKnowledgeFiles w of
           None \<Rightarrow> (Some ''listing the remote files failed'', r, w)
         | Some rfs \<Rightarrow>
             (case find (\<lambda>f. remotePath f = p) rfs of
                None \<Rightarrow> (Some (''Remote file not found: '' @ p), r, w)
              | Some remoteFile \<Rightarrow>
                  (case getKnowledgeFile w (remoteFileId remoteFile) of
                     None \<Rightarrow> (Some ''getting the remote file failed'', r, w)
                   | Some fileContent \<Rightarrow>
                       if isDirectory (map_of (tree w) p)
                       then (Some ''EISDIR: illegal operation on a directory'', r, w)
                       else
                         (let c = (case remoteContent fileContent of None \<Rightarrow> [] | Some x \<Rightarrow> x);
                              (mt, w1) = newDate e w;
                              w2 = w1\<lparr>tree := AList.update p (File c mt) (tree w1)\<rparr>;
                              h = sha256 e c;
                              (now, w3) = newDate e w2;
                              syncState = \<lparr>fileId = generateFileId e pid p, projectId = pid,
                                    localPath = p, remoteId = Some (remoteFileId remoteFile),
                                    localHash = h, remoteHash = Some h, localMtime = mt,
                                    remoteMtime = Some (updatedAt remoteFile),
                                    lastSyncTime = now, syncDirection = DirDownload,
                                    conflictState = StateNone, stateBackupPath = None,
                                    sizeBytes = length c, isDeleted = False\<rparr>
                          in (None,
                              r\<lparr>syncStats := (syncStats r)\<lparr>filesDownloaded :=
                                    Suc (filesDownloaded (syncStats r))\<rparr>\<rparr>,
                              saveFileState syncState w3)))))"

text \<open>The tail of both deletions: mark the entry deleted and save it.\<close>

definition markDeleted :: "env \<Rightarrow> SyncStateEntry \<Rightarrow> world \<Rightarrow> world" where
  "markDeleted e st w =
     (let (now, w1) = newDate e w
      in saveFileState (st\<lparr>isDeleted := True, lastSyncTime := now\<rparr>) w1)"

definition executeLocalDelete ::
  "env \<Rightarrow> SafeSyncOptions \<Rightarrow> string \<Rightarrow> SyncOperation \<Rightarrow> SyncResult \<times> world
     \<Rightarrow> string option \<times> SyncResult \<times> world" where
  "executeLocalDelete e opts pid op rw =
     (let r = fst rw; w = snd rw; p = filePath op;
          (thrown, w2) =
            (if fileExists w p
             then (let (br, w1) = createBackup e (backup opts) pid p ''delete'' w
                   in if isDirectory (map_of (tree w1) p)
                      then (Some ''EPERM: operation not permitted'', w1)
                      else (None, w1\<lparr>tree := AList.delete p (tree w1)\<rparr>))
             else (None, w))
      in case thrown of
           Some msg \<Rightarrow> (Some msg, r, w2)
         | None \<Rightarrow>
             (let (fileState, w3) = getFileState pid p w2
              in case fileState of
                   None \<Rightarrow> (None, r, w3)
                 | Some st \<Rightarrow> (None, r, markDeleted e st w3)))"

definition executeRemoteDelete ::
  "env \<Rightarrow> string \<Rightarrow> SyncOperation \<Rightarrow> SyncResult \<times> world \<Rightarrow> string option \<times> SyncResult \<times> world" where
  "executeRemoteDelete e pid op rw =
     (let r = fst rw; w = snd rw;
          (fileState, w1) = getFileState pid (filePath op) w
      in case fileState of
           None \<Rightarrow> (None, r, w1)
         | Some st \<Rightarrow>
             (case remoteId st of
                None \<Rightarrow> (None, r, w1)
              | Some rid \<Rightarrow>
                  if rid = [] then (None, r, w1)
                  else (case deleteKnowledgeFile rid w1 of
                          None \<Rightarrow> (Some ''deleting the remote file failed'', r, w1)
                        | Some w2 \<Rightarrow> (None, r, markDeleted e st w2))))"

definition executeOperation ::
  "env \<Rightarrow> SafeSyncOptions \<Rightarrow> string \<Rightarrow> SyncOperation \<Rightarrow> SyncResult \<times> world
     \<Rightarrow> string option \<times> SyncResult \<times> world" where
  "executeOperation e opts pid op rw =
     (case opType op of
        upload \<Rightarrow> executeUpload e pid op rw
      | download \<Rightarrow> executeDownload e pid op rw
      | delete_local \<Rightarrow> executeLocalDelete e opts pid op rw
      | delete_remote \<Rightarrow> executeRemoteDelete e pid op rw)"

definition opTypeName :: "op_type \<Rightarrow> string" where
  "opTypeName t = (case t of upload \<Rightarrow> ''upload'' | download \<Rightarrow> ''download''
                   | delete_local \<Rightarrow> ''delete_local'' | delete_remote \<Rightarrow> ''delete_remote'')"

text \<open>
  One round of the loop of \<^verbatim>\<open>executeOperations\<close>: the backup when the operation
  requires one, then the operation itself.
\<close>

definition backupIfRequired ::
  "env \<Rightarrow> SafeSyncOptions \<Rightarrow> string \<Rightarrow> SyncOperation \<Rightarrow> SyncResult \<times> world \<Rightarrow> SyncResult \<times> world" where
  "backupIfRequired e opts pid op rw =
     (let r = fst rw; w = snd rw
      in if backupRequired op
         then (let (backupResult, w') = createBackup e (backup opts) pid (filePath op) ''sync'' w
               in if success backupResult
                  then (r\<lparr>syncStats := (syncStats r)\<lparr>backupsCreated :=
                             Suc (backupsCreated (syncStats r))\<rparr>\<rparr>, w')
                  else (r\<lparr>warnings := warnings r @
                            [''Failed to create backup for '' @ filePath op @ '': '' @
                             (case error backupResult of None \<Rightarrow> ''undefined'' | Some m \<Rightarrow> m)]\<rparr>,
                        w'))
         else (r, w))"

definition executeOne ::
  "env \<Rightarrow> SafeSyncOptions \<Rightarrow> string \<Rightarrow> SyncOperation \<Rightarrow> SyncResult \<times> world \<Rightarrow> SyncResult \<times> world" where
  "executeOne e opts pid op rw =
     (case executeOperation e opts pid op (backupIfRequired e opts pid op rw) of
        (None, r2, w2) \<Rightarrow> (r2\<lparr>executedOperations := executedOperations r2 @ [op]\<rparr>, w2)
      | (Some msg, r2, w2) \<Rightarrow>
          (r2\<lparr>errors := errors r2 @
                 [''Failed to execute '' @ opTypeName (opType op) @ '' for '' @ filePath op @
                  '': '' @ msg],
              skippedOperations := skippedOperations r2 @ [op]\<rparr>, w2))"

definition executeOperations ::
  "env \<Rightarrow> SafeSyncOptions \<Rightarrow> string \<Rightarrow> SyncResult \<times> world \<Rightarrow> SyncResult \<times> world" where
  "executeOperations e opts pid rw = fold (executeOne e opts pid) (operations (fst rw)) rw"

subsection \<open>\<^verbatim>\<open>sync\<close>\<close>

definition initialResult :: "SafeSyncOptions \<Rightarrow> SyncResult" where
  "initialResult opts =
     \<lparr>syncSuccess = False, resultDryRun = dryRun opts, operations = [], executedOperations = [],
      skippedOperations = [], errors = [], warnings = [],
      syncStats = \<lparr>filesUploaded = 0, filesDownloaded = 0, filesSkipped = 0,
                    conflictsResolved = 0, backupsCreated = 0, totalOperations = 0,
                    duration = 0\<rparr>,
      validationResult = None\<rparr>"

text \<open>
  Every return of \<^verbatim>\<open>sync\<close> sets the duration (\<^verbatim>\<open>Date.now() - startTime\<close>) and runs
  the \<^verbatim>\<open>finally\<close> block, which closes the state store.
\<close>

definition finish :: "env \<Rightarrow> time \<Rightarrow> SyncResult \<times> world \<Rightarrow> SyncResult \<times> world" where
  "finish e startTime rw =
     (let (now, w1) = newDate e (snd rw)
      in ((fst rw)\<lparr>syncStats := (syncStats (fst rw))\<lparr>duration := now - startTime\<rparr>\<rparr>, close w1))"

definition issueMessages :: "issue_type \<Rightarrow> ValidationIssue list \<Rightarrow> string list" where
  "issueMessages t is = map message (filter (\<lambda>i. issueType i = t) is)"

text \<open>Steps 2 to 4 of \<^verbatim>\<open>sync\<close>: plan, resolve the conflicts, execute unless dry-run.\<close>

definition planAndExecute ::
  "env \<Rightarrow> SafeSyncOptions \<Rightarrow> string \<Rightarrow> SyncResult \<times> world \<Rightarrow> SyncResult \<times> world" where
  "planAndExecute e opts pid rw =
     (case planOperations e opts pid (snd rw) of
        (None, w1) \<Rightarrow> ((fst rw)\<lparr>errors := errors (fst rw) @ [''Sync failed'']\<rparr>, w1)
      | (Some ops, w1) \<Rightarrow>
          (let r1 = (fst rw)\<lparr>operations := ops,
                       syncStats := (syncStats (fst rw))\<lparr>totalOperations := length ops\<rparr>\<rparr>;
               r2 = (case validationResult r1 of
                       None \<Rightarrow> r1
                     | Some vr \<Rightarrow> if conflicts vr \<noteq> []
                                  then handleConflicts (conflictResolution opts) (conflicts vr) r1
                                  else r1);
               (r3, w3) = (if \<not> dryRun opts then executeOperations e opts pid (r2, w1)
                           else (r2, w1))
           in (r3\<lparr>syncSuccess := (errors r3 = [])\<rparr>, w3)))"

definition sync :: "env \<Rightarrow> SafeSyncOptions \<Rightarrow> string \<Rightarrow> world \<Rightarrow> SyncResult \<times> world" where
  "sync e opts pid w =
     (let (startTime, w0) = newDate e w;
          r0 = initialResult opts;
          w1 = initialize w0
      in if validationEnabled opts
         then (let (vr, w2) = validate e (validatorOptions opts) pid (direction opts) w1;
                   r1 = r0\<lparr>validationResult := Some vr\<rparr>
               in if \<not> canProceed vr \<and> \<not> force opts
                  then finish e startTime
                         (r1\<lparr>errors := errors r1 @ [''Validation failed. Use --force to override.'']\<rparr>,
                          w2)
                  else finish e startTime
                         (planAndExecute e opts pid
                            (r1\<lparr>errors := errors r1 @ issueMessages IssueError (issues vr),
                                warnings := warnings r1 @ issueMessages IssueWarning (issues vr)\<rparr>,
                             w2)))
         else finish e startTime (planAndExecute e opts pid (r0, w1)))"



section \<open>Well-formed stores and example worlds\<close>

definition keysOk :: "world \<Rightarrow> bool" where
  "keysOk w \<longleftrightarrow>
     distinct (map fst (backups w)) \<and> (\<forall>kb \<in> set (backups w). fst kb = backupId (snd kb)) \<and>
     distinct (map fst (syncStates w)) \<and>
     (\<forall>ks \<in> set (syncStates w). fst ks = getStateKey (projectId (snd ks)) (localPath (snd ks)))"

definition wellFormed :: "world \<Rightarrow> bool" where
  "wellFormed w \<longleftrightarrow> (if initialized w then keysOk w else syncStates w = [] \<and> backups w = [])"

definition backupsOf :: "string \<Rightarrow> path \<Rightarrow> world \<Rightarrow> BackupEntry list" where
  "backupsOf pid p w =
     filter (\<lambda>b. backupProjectId b = pid \<and> originalPath b = p) (map snd (backups w))"

definition exEnv :: env where
  "exEnv = \<lparr>sha256 = (\<lambda>c. c), copyBytes = Some, clock = (\<lambda>n. 1000 + int n),
            serverClock = (\<lambda>n. 1000 + int n), randomId = (\<lambda>n. replicate (Suc n) CHR ''a''),
            relCwd = (\<lambda>p. p), basename = (\<lambda>p. p), isoStamp = (\<lambda>t. ''T''),
            backupBaseDir = ''/b'', excluded = (\<lambda>p. False), ignored = (\<lambda>p. False)\<rparr>"

definition exWorld :: world where
  "exWorld = \<lparr>tree = [], bdir = (\<lambda>p. None), syncStates = [], backups = [],
              initialized = True, dbFile = None, remoteFiles = [], online = True, tick = 0,
              diskAvailable = Some 1000000000, canRead = True, canWrite = True,
              git = NotARepository\<rparr>"

definition exBackup :: "string \<Rightarrow> path \<Rightarrow> time \<Rightarrow> BackupEntry" where
  "exBackup bid p t = \<lparr>backupId = bid, originalPath = p, backupPath = ''/b/'' @ bid,
       createdAt = t, fileHash = ''h'', backupProjectId = ''P'', backupReason = ''sync''\<rparr>"

definition exBackupWorld :: world where
  "exBackupWorld = exWorld\<lparr>backups :=
      [(''1'', exBackup ''1'' ''a.txt'' 10), (''2'', exBackup ''2'' ''a.txt'' 30),
       (''3'', exBackup ''3'' ''b.txt'' 5), (''4'', exBackup ''4'' ''a.txt'' 20)]\<rparr>"

definition exFileWorld :: world where
  "exFileWorld = exBackupWorld\<lparr>tree := [(''a.txt'', File ''new'' 40)]\<rparr>"

definition exBackedUpWorld :: world where
  "exBackedUpWorld = exBackupWorld\<lparr>bdir := (\<lambda>p. if p = ''/b/2'' then Some ''h'' else None)\<rparr>"

definition exOptions :: "int \<Rightarrow> BackupOptions" where
  "exOptions n = \<lparr>enabled = True, retentionCount = n, autoCleanup = True\<rparr>"

definition exTreeWorld :: world where
  "exTreeWorld = exWorld\<lparr>tree := [(''a.txt'', File ''new'' 40)]\<rparr>"

definition exCorruptEnv :: env where
  "exCorruptEnv = exEnv\<lparr>copyBytes := (\<lambda>c. Some (c @ ''!''))\<rparr>"

text \<open>
  The records that the cleanup at the end of \<^verbatim>\<open>createBackup\<close> deletes, once the new
  record \<open>be\<close> is in the store: none without \<open>autoCleanup\<close>.
\<close>

definition pruned :: "BackupOptions \<Rightarrow> string \<Rightarrow> BackupEntry \<Rightarrow> world \<Rightarrow> BackupEntry list" where
  "pruned opts pid be w =
     (if autoCleanup opts
      then toDelete pid (retentionCount opts)
             (map snd (AList.update (backupId be) be (backups (initialize w))))
      else [])"



text \<open>The conflicts that one round of \<^verbatim>\<open>validateLocalFiles\<close> adds for the file \<open>p\<close>.\<close>

definition localFileConflicts :: "env \<Rightarrow> string \<Rightarrow> world \<Rightarrow> path \<Rightarrow> ConflictInfo list" where
  "localFileConflicts e pid w p =
     (case map_of (syncStates w) (getStateKey pid p) of
        None \<Rightarrow> []
      | Some st \<Rightarrow>
          (case map_of (tree w) p of
             Some (File c m) \<Rightarrow>
               if sha256 e c \<noteq> localHash st \<and> remoteMtime st \<noteq> None \<and> m > lastSyncTime st
               then [\<lparr>conflictPath = p, conflictType = local_newer,
                      conflictLocalMtime = Some m, conflictRemoteMtime = remoteMtime st,
                      conflictLastSyncTime = Some (lastSyncTime st),
                      conflictLocalHash = Some (sha256 e c),
                      conflictRemoteHash = remoteHash st\<rparr>]
               else []
           | _ \<Rightarrow> []))"

definition exEntry :: "path \<Rightarrow> hash \<Rightarrow> time option \<Rightarrow> time \<Rightarrow> SyncStateEntry" where
  "exEntry p h rm ls =
     \<lparr>fileId = ''f'', projectId = ''P'', localPath = p, remoteId = Some ''r'', localHash = h,
      remoteHash = Some h, localMtime = 0, remoteMtime = rm, lastSyncTime = ls,
      syncDirection = DirUpload, conflictState = StateNone, stateBackupPath = None,
      sizeBytes = 3, isDeleted = False\<rparr>"

definition exConflictWorld :: world where
  "exConflictWorld = exWorld\<lparr>tree := [(''a.txt'', File ''new'' 20)],
      syncStates := [(''P:a.txt'', exEntry ''a.txt'' ''old'' (Some 5) 10)]\<rparr>"

definition exValidatorOptions :: SyncValidatorOptions where
  "exValidatorOptions = \<lparr>checkDiskSpace = True, checkPermissions = True, checkGitStatus = True,
      checkNetworkConnectivity = True, maxConflictCount = 10, allowForce = False\<rparr>"

definition exVstate :: "world \<Rightarrow> vstate" where
  "exVstate w = \<lparr>vIssues = [],
      vStats = \<lparr>localFiles = 0, remoteFilesSeen = 0, conflictFiles = 0,
                 newLocalFiles = 0, newRemoteFiles = 0, unchangedFiles = 0\<rparr>,
      vConflicts = [], vWorld = w\<rparr>"

definition exLimit :: "int \<Rightarrow> bool \<Rightarrow> SyncValidatorOptions" where
  "exLimit n f = exValidatorOptions\<lparr>maxConflictCount := n, allowForce := f\<rparr>"


text \<open>The operations that one round of \<^verbatim>\<open>planUploadOperations\<close> adds for the file \<open>p\<close>.\<close>

definition uploadOpsFor :: "env \<Rightarrow> string \<Rightarrow> world \<Rightarrow> path \<Rightarrow> SyncOperation list" where
  "uploadOpsFor e pid w p =
     (case map_of (tree w) p of
        Some (File c m) \<Rightarrow>
          (case map_of (syncStates w) (getStateKey pid p) of
             None \<Rightarrow> [\<lparr>opType = upload, filePath = p, reason = ''New local file'',
                       opConflictType = None, backupRequired = False\<rparr>]
           | Some st \<Rightarrow>
               if sha256 e c \<noteq> localHash st
               then [\<lparr>opType = upload, filePath = p, reason = ''Local file modified'',
                      opConflictType = None, backupRequired = True\<rparr>]
               else [])
      | _ \<Rightarrow> [])"

text \<open>Setting the modification time of every node anew (\<^verbatim>\<open>touch\<close>), the bytes staying.\<close>

definition retime :: "(path \<Rightarrow> time \<Rightarrow> time) \<Rightarrow> world \<Rightarrow> world" where
  "retime f w =
     w\<lparr>tree := map (\<lambda>pn. (fst pn, case snd pn of File c m \<Rightarrow> File c (f (fst pn) m)
                                       | Dir t \<Rightarrow> Dir (f (fst pn) t))) (tree w)\<rparr>"

text \<open>The operations that one round of \<^verbatim>\<open>planDownloadOperations\<close> adds for a remote file.\<close>

definition downloadOpsFor :: "string \<Rightarrow> world \<Rightarrow> ClaudeKnowledgeFile \<Rightarrow> SyncOperation list" where
  "downloadOpsFor pid w rf =
     (case map_of (syncStates w) (getStateKey pid (remotePath rf)) of
        None \<Rightarrow> [\<lparr>opType = download, filePath = remotePath rf, reason = ''New remote file'',
                  opConflictType = None, backupRequired = False\<rparr>]
      | Some st \<Rightarrow>
          if updatedAt rf > lastSyncTime st
          then [\<lparr>opType = download, filePath = remotePath rf, reason = ''Remote file modified'',
                 opConflictType = None, backupRequired = fileExists w (remotePath rf)\<rparr>]
          else [])"

text \<open>What \<^verbatim>\<open>planOperations\<close> plans: the uploads of the local files, then the downloads of the remote files.\<close>

definition plannedUploads :: "env \<Rightarrow> SafeSyncOptions \<Rightarrow> string \<Rightarrow> world \<Rightarrow> SyncOperation list" where
  "plannedUploads e opts pid w =
     (if direction opts = DirUpload \<or> direction opts = DirBoth
      then concat (map (uploadOpsFor e pid w) (filter (\<lambda>p. \<not> excluded e p) (regularFiles w)))
      else [])"

definition plannedDownloads :: "SafeSyncOptions \<Rightarrow> string \<Rightarrow> world \<Rightarrow> SyncOperation list" where
  "plannedDownloads opts pid w =
     (if direction opts = DirDownload \<or> direction opts = DirBoth
      then concat (map (downloadOpsFor pid w) (map snd (remoteFiles w)))
      else [])"

definition planThrows :: "SafeSyncOptions \<Rightarrow> world \<Rightarrow> bool" where
  "planThrows opts w \<longleftrightarrow>
     ((direction opts = DirUpload \<or> direction opts = DirBoth) \<and> \<not> canRead w) \<or>
     ((direction opts = DirDownload \<or> direction opts = DirBoth) \<and> \<not> online w)"

definition exSyncedWorld :: world where
  "exSyncedWorld = exWorld\<lparr>tree := [(''a.txt'', File ''same'' 99), (''b.txt'', File ''new'' 20)],
      syncStates := [(''P:a.txt'', exEntry ''a.txt'' ''same'' (Some 5) 10),
                     (''P:b.txt'', exEntry ''b.txt'' ''old'' (Some 5) 10)]\<rparr>"

definition exSyncOptions :: SafeSyncOptions where
  "exSyncOptions = \<lparr>direction = DirBoth, dryRun = False, backup = exOptions 5,
      validationEnabled = False, validation = exValidatorOptions, conflictResolution = ask,
      force = False\<rparr>"

definition exModifiedWorld :: world where
  "exModifiedWorld = exWorld\<lparr>tree := [(''b.txt'', File ''new'' 20)],
      syncStates := [(''P:b.txt'', exEntry ''b.txt'' ''old'' (Some 5) 10)]\<rparr>"

definition exUploadOptions :: SafeSyncOptions where
  "exUploadOptions = exSyncOptions\<lparr>direction := DirUpload\<rparr>"

definition exUploadOp :: SyncOperation where
  "exUploadOp = \<lparr>opType = upload, filePath = ''b.txt'', reason = ''Local file modified'',
                  opConflictType = None, backupRequired = True\<rparr>"

text \<open>The result that \<^verbatim>\<open>sync\<close> holds when planning and conflict resolution are done.\<close>

definition resolved :: "SafeSyncOptions \<Rightarrow> SyncOperation list \<Rightarrow> SyncResult \<Rightarrow> SyncResult" where
  "resolved opts ops r =
     (let r1 = r\<lparr>operations := ops,
                 syncStats := (syncStats r)\<lparr>totalOperations := length ops\<rparr>\<rparr>
      in case validationResult r1 of
           None \<Rightarrow> r1
         | Some vr \<Rightarrow> if conflicts vr \<noteq> []
                      then handleConflicts (conflictResolution opts) (conflicts vr) r1
                      else r1)"

text \<open>Step 1 of \<^verbatim>\<open>sync\<close>: whether validation stops the run, and the result it leaves when not.\<close>

definition blocked :: "env \<Rightarrow> SafeSyncOptions \<Rightarrow> string \<Rightarrow> world \<Rightarrow> bool" where
  "blocked e opts pid w \<longleftrightarrow>
     validationEnabled opts \<and>
     \<not> canProceed (fst (validate e (validatorOptions opts) pid (direction opts) w)) \<and> \<not> force opts"

definition validated :: "env \<Rightarrow> SafeSyncOptions \<Rightarrow> string \<Rightarrow> world \<Rightarrow> SyncResult" where
  "validated e opts pid w =
     (if validationEnabled opts
      then (let vr = fst (validate e (validatorOptions opts) pid (direction opts) w)
            in (initialResult opts)
                 \<lparr>validationResult := Some vr,
                  errors := issueMessages IssueError (issues vr),
                  warnings := issueMessages IssueWarning (issues vr)\<rparr>)
      else initialResult opts)"

text \<open>What one round of \<^verbatim>\<open>handleConflicts\<close> does to the list of operations.\<close>

definition resolveOps :: "resolution \<Rightarrow> ConflictInfo \<Rightarrow> SyncOperation list \<Rightarrow> SyncOperation list" where
  "resolveOps res c ops =
     (case res of
        skip \<Rightarrow> filter (\<lambda>op. filePath op \<noteq> conflictPath c) ops
      | local_wins \<Rightarrow> filter (\<lambda>op. \<not> (opType op = download \<and> filePath op = conflictPath c)) ops
      | remote_wins \<Rightarrow> filter (\<lambda>op. \<not> (opType op = upload \<and> filePath op = conflictPath c)) ops
      | backup_and_merge \<Rightarrow> markUpload (conflictPath c) ops
      | ask \<Rightarrow> filter (\<lambda>op. filePath op \<noteq> conflictPath c) ops)"

text \<open>The conflicts that \<^verbatim>\<open>sync\<close> resolves: those of the validation result, if validation ran.\<close>

definition conflictsFound :: "env \<Rightarrow> SafeSyncOptions \<Rightarrow> string \<Rightarrow> world \<Rightarrow> ConflictInfo list" where
  "conflictsFound e opts pid w =
     (if validationEnabled opts
      then conflicts (fst (validate e (validatorOptions opts) pid (direction opts) w))
      else [])"

text \<open>The world in which \<^verbatim>\<open>sync\<close> validates and plans: the start time read, the store loaded.\<close>

definition started :: "world \<Rightarrow> world" where
  "started w = (initialize w)\<lparr>tick := Suc (tick w)\<rparr>"

definition exFreshWorld :: world where
  "exFreshWorld = exWorld\<lparr>initialized := False, tree := [(''b.txt'', File ''new'' 20)]\<rparr>"

definition exDryOptions :: SafeSyncOptions where
  "exDryOptions = exSyncOptions\<lparr>dryRun := True\<rparr>"

text \<open>A remote file that the remote side stamped with the time \<open>t\<close>, and nothing else.\<close>

definition exRemoteFile :: "time \<Rightarrow> ClaudeKnowledgeFile" where
  "exRemoteFile t = \<lparr>remoteFileId = ''r1'', remotePath = ''r.txt'', remoteContent = Some ''data'',
                      updatedAt = t\<rparr>"

definition exRemoteWorld :: "time \<Rightarrow> world" where
  "exRemoteWorld t = exWorld\<lparr>remoteFiles := [(''r1'', exRemoteFile t)]\<rparr>"

definition exDownloadOptions :: SafeSyncOptions where
  "exDownloadOptions = exSyncOptions\<lparr>direction := DirDownload\<rparr>"

definition exDownloadOp :: SyncOperation where
  "exDownloadOp = \<lparr>opType = download, filePath = ''r.txt'', reason = ''New remote file'',
                    opConflictType = None, backupRequired = False\<rparr>"

definition exDownloadedEntry :: "time \<Rightarrow> SyncStateEntry" where
  "exDownloadedEntry t = \<lparr>fileId = ''P:r.txt'', projectId = ''P'', localPath = ''r.txt'',
         remoteId = Some ''r1'', localHash = ''data'', remoteHash = Some ''data'',
         localMtime = 1001, remoteMtime = Some t, lastSyncTime = 1002,
         syncDirection = DirDownload, conflictState = StateNone, stateBackupPath = None,
         sizeBytes = length ''data'', isDeleted = False\<rparr>"

definition exDownloadedWorld :: "time \<Rightarrow> world" where
  "exDownloadedWorld t = (exRemoteWorld t)\<lparr>tree := [(''r.txt'', File ''data'' 1001)],
         syncStates := [(''P:r.txt'', exDownloadedEntry t)],
         dbFile := Some ([exDownloadedEntry t], []),
         tick := Suc (Suc (Suc (Suc 0)))\<rparr>"


text \<open>
  The remote side's time stamps are never ahead of the local clock: from now on, no
  reading of the local clock is earlier than the modification time of a remote file, or
  than the stamp the remote side gave to a file uploaded at an earlier reading.
\<close>

definition clocksAgree :: "env \<Rightarrow> world \<Rightarrow> bool" where
  "clocksAgree e w \<longleftrightarrow>
     (\<forall>rf \<in> set (map snd (remoteFiles w)). \<forall>n \<ge> tick w. updatedAt rf \<le> clock e n) \<and>
     (\<forall>n m. tick w \<le> n \<longrightarrow> n \<le> m \<longrightarrow> serverClock e n \<le> clock e m)"

text \<open>The ids that the remote side gives to uploaded files are new and differ from each other.\<close>

definition freshIds :: "env \<Rightarrow> world \<Rightarrow> bool" where
  "freshIds e w \<longleftrightarrow>
     (\<forall>n \<ge> tick w. ''file_'' @ randomId e n \<notin> fst ` set (remoteFiles w)) \<and>
     (\<forall>n m. tick w \<le> n \<longrightarrow> n < m \<longrightarrow> randomId e n \<noteq> randomId e m)"

text \<open>
  The file \<open>p\<close> is in step with the store: its bytes have the recorded hash, and no
  remote file of that path is newer than the recorded last sync time.
\<close>

definition inSync :: "env \<Rightarrow> string \<Rightarrow> world \<Rightarrow> path \<Rightarrow> bool" where
  "inSync e pid w p \<longleftrightarrow>
     (\<forall>c m. map_of (tree w) p = Some (File c m) \<longrightarrow>
        (\<exists>st. map_of (syncStates w) (getStateKey pid p) = Some st \<and> localHash st = sha256 e c)) \<and>
     (\<forall>rf \<in> set (map snd (remoteFiles w)). remotePath rf = p \<longrightarrow>
        (\<exists>st. map_of (syncStates w) (getStateKey pid p) = Some st \<and>
              updatedAt rf \<le> lastSyncTime st))"

text \<open>Two worlds hold the same for the path \<open>q\<close>: local node, stored entry, remote files.\<close>

definition samePath :: "string \<Rightarrow> path \<Rightarrow> world \<Rightarrow> world \<Rightarrow> bool" where
  "samePath pid q w w' \<longleftrightarrow>
     map_of (tree w') q = map_of (tree w) q \<and>
     (q \<in> set (regularFiles w') \<longleftrightarrow> q \<in> set (regularFiles w)) \<and>
     map_of (syncStates w') (getStateKey pid q) = map_of (syncStates w) (getStateKey pid q) \<and>
     filter (\<lambda>rf. remotePath rf = q) (map snd (remoteFiles w')) =
       filter (\<lambda>rf. remotePath rf = q) (map snd (remoteFiles w))"

text \<open>A step that leaves the tree, the records of the store and the remote side alone.\<close>

definition frame :: "world \<Rightarrow> world \<Rightarrow> bool" where
  "frame w w' \<longleftrightarrow>
     tree w' = tree w \<and> syncStates w' = syncStates w \<and> remoteFiles w' = remoteFiles w \<and>
     online w' = online w \<and> canRead w' = canRead w \<and> initialized w' = initialized w \<and>
     tick w \<le> tick w'"

text \<open>Whether conflict resolution, with the policy \<open>res\<close> and the conflicts \<open>cs\<close>, drops the operation.\<close>

definition dropped :: "resolution \<Rightarrow> ConflictInfo list \<Rightarrow> SyncOperation \<Rightarrow> bool" where
  "dropped res cs op =
     (case res of
        backup_and_merge \<Rightarrow> False
      | local_wins \<Rightarrow> opType op = download \<and> filePath op \<in> conflictPath ` set cs
      | remote_wins \<Rightarrow> opType op = upload \<and> filePath op \<in> conflictPath ` set cs
      | _ \<Rightarrow> filePath op \<in> conflictPath ` set cs)"

text \<open>The conflicts that one round of \<^verbatim>\<open>validateRemoteFiles\<close> adds for a remote file.\<close>

definition remoteFileConflicts :: "string \<Rightarrow> world \<Rightarrow> ClaudeKnowledgeFile \<Rightarrow> ConflictInfo list" where
  "remoteFileConflicts pid w rf =
     (case map_of (syncStates w) (getStateKey pid (remotePath rf)) of
        None \<Rightarrow> []
      | Some st \<Rightarrow>
          if updatedAt rf > lastSyncTime st
          then (case statMtime w (remotePath rf) of
                  Some mtime \<Rightarrow>
                    if mtime > lastSyncTime st
                    then [\<lparr>conflictPath = remotePath rf, conflictType = both_modified,
                           conflictLocalMtime = Some mtime,
                           conflictRemoteMtime = Some (updatedAt rf),
                           conflictLastSyncTime = Some (lastSyncTime st),
                           conflictLocalHash = None, conflictRemoteHash = None\<rparr>]
                    else [\<lparr>conflictPath = remotePath rf, conflictType = remote_newer,
                           conflictLocalMtime = None,
                           conflictRemoteMtime = Some (updatedAt rf),
                           conflictLastSyncTime = Some (lastSyncTime st),
                           conflictLocalHash = None, conflictRemoteHash = None\<rparr>]
                | None \<Rightarrow>
                    [\<lparr>conflictPath = remotePath rf, conflictType = local_deleted,
                      conflictLocalMtime = None,
                      conflictRemoteMtime = Some (updatedAt rf),
                      conflictLastSyncTime = Some (lastSyncTime st),
                      conflictLocalHash = None, conflictRemoteHash = None\<rparr>])
          else [])"

text \<open>The conflict that one round of the loop of \<^verbatim>\<open>detectConflicts\<close> adds for a stored entry.\<close>

definition deletedConflict :: "world \<Rightarrow> SyncStateEntry \<Rightarrow> ConflictInfo list" where
  "deletedConflict w st =
     (if fileExists w (localPath st) then []
      else if localPath st \<in> set (map remotePath (map snd (remoteFiles w)))
      then [\<lparr>conflictPath = localPath st, conflictType = local_deleted,
             conflictLocalMtime = None, conflictRemoteMtime = None,
             conflictLastSyncTime = Some (lastSyncTime st),
             conflictLocalHash = None, conflictRemoteHash = None\<rparr>]
      else [])"

text \<open>The conflicts of a validation: of the local pass, of the remote pass, of \<^verbatim>\<open>detectConflicts\<close>.\<close>

definition conflictsOf :: "env \<Rightarrow> string \<Rightarrow> direction \<Rightarrow> world \<Rightarrow> ConflictInfo list" where
  "conflictsOf e pid dir w =
     (if (dir = DirUpload \<or> dir = DirBoth) \<and> canRead w
      then concat (map (localFileConflicts e pid w) (filter (\<lambda>p. \<not> ignored e p) (regularFiles w)))
      else []) @
     (if (dir = DirDownload \<or> dir = DirBoth) \<and> online w
      then concat (map (remoteFileConflicts pid w) (map snd (remoteFiles w)))
      else []) @
     (if dir = DirBoth \<and> online w
      then concat (map (deletedConflict w) (filter (\<lambda>en. projectId en = pid) (map snd (syncStates w))))
      else [])"


section \<open>Properties of the state store\<close>

lemma set_update_subset: "kv \<in> set (AList.update k v al) \<Longrightarrow> kv = (k, v) \<or> kv \<in> set al"
  by (induction al) (auto split: if_splits)

lemma update_keyed:
  assumes "\<forall>kv \<in> set al. fst kv = f (snd kv)"
  shows "\<forall>kv \<in> set (AList.update (f v) v al). fst kv = f (snd kv)"
proof
  fix kv assume "kv \<in> set (AList.update (f v) v al)"
  then have "kv = (f v, v) \<or> kv \<in> set al" by (rule set_update_subset)
  then show "fst kv = f (snd kv)" using assms by auto
qed

lemma fold_update_keyed:
  assumes "distinct (map fst al)" "\<forall>kv \<in> set al. fst kv = f (snd kv)"
  shows "distinct (map fst (fold (\<lambda>v. AList.update (f v) v) vs al)) \<and>
         (\<forall>kv \<in> set (fold (\<lambda>v. AList.update (f v) v) vs al). fst kv = f (snd kv))"
  using assms
proof (induction vs arbitrary: al)
  case Nil then show ?case by simp
next
  case (Cons v vs)
  have d: "distinct (map fst (AList.update (f v) v al))"
    using Cons.prems(1) by (rule distinct_update)
  have k: "\<forall>kv \<in> set (AList.update (f v) v al). fst kv = f (snd kv)"
    using Cons.prems(2) by (rule update_keyed)
  show ?case using Cons.IH[OF d k] by simp
qed

lemma initialize_initialized [simp]: "initialized (initialize w)"
  by (simp add: initialize_def split: option.splits prod.splits)

lemma initialize_idem [simp]: "initialized w \<Longrightarrow> initialize w = w"
  by (simp add: initialize_def)

lemma backups_initialize:
  "backups (initialize w) =
     (if initialized w then backups w
      else case dbFile w of None \<Rightarrow> [] | Some sb \<Rightarrow> loadBackups (snd sb) (backups w))"
  by (simp add: initialize_def split: option.splits prod.splits)

lemma syncStates_initialize:
  "syncStates (initialize w) =
     (if initialized w then syncStates w
      else case dbFile w of None \<Rightarrow> [] | Some sb \<Rightarrow> loadStates (fst sb) (syncStates w))"
  by (simp add: initialize_def split: option.splits prod.splits)

lemma loadBackups_keyed:
  "distinct (map fst (loadBackups bs [])) \<and>
   (\<forall>kv \<in> set (loadBackups bs []). fst kv = backupId (snd kv))"
  unfolding loadBackups_def by (rule fold_update_keyed) simp_all

lemma loadStates_keyed:
  "distinct (map fst (loadStates ss [])) \<and>
   (\<forall>kv \<in> set (loadStates ss []). fst kv = getStateKey (projectId (snd kv)) (localPath (snd kv)))"
  unfolding loadStates_def
  using fold_update_keyed[where f = "\<lambda>en. getStateKey (projectId en) (localPath en)"
      and al = "[]" and vs = ss]
  by simp

lemma keysOk_initialize: "wellFormed w \<Longrightarrow> keysOk (initialize w)"
proof (cases "initialized w")
  case True
  assume "wellFormed w"
  with True show ?thesis by (simp add: wellFormed_def)
next
  case False
  assume wf: "wellFormed w"
  with False have em: "syncStates w = []" "backups w = []" by (simp_all add: wellFormed_def)
  show ?thesis
  proof (cases "dbFile w")
    case None
    then show ?thesis using False
      by (simp add: keysOk_def backups_initialize syncStates_initialize)
  next
    case (Some sb)
    then show ?thesis using False em loadBackups_keyed[of "snd sb"] loadStates_keyed[of "fst sb"]
      by (simp add: keysOk_def backups_initialize syncStates_initialize)
  qed
qed

lemma initialized_dbDeleteBackup [simp]: "initialized (dbDeleteBackup bid w)"
  by (simp add: dbDeleteBackup_def save_def Let_def split: option.splits)

lemma filter_fst_id: "k \<notin> fst ` set al \<Longrightarrow> filter (\<lambda>kb. fst kb \<noteq> k) al = al"
  by (induction al) auto

lemma backups_dbDeleteBackup:
  "initialized w \<Longrightarrow> backups (dbDeleteBackup bid w) = filter (\<lambda>kb. fst kb \<noteq> bid) (backups w)"
proof (cases "map_of (backups w) bid")
  case None
  assume "initialized w"
  moreover from None have "bid \<notin> fst ` set (backups w)" by (simp add: map_of_eq_None_iff)
  ultimately show ?thesis using None
    by (simp add: dbDeleteBackup_def filter_fst_id)
next
  case (Some b)
  assume "initialized w"
  moreover have "AList.delete bid (backups w) = filter (\<lambda>kb. fst kb \<noteq> bid) (backups w)"
    by (simp add: AList.delete_eq case_prod_unfold eq_commute)
  ultimately show ?thesis using Some
    by (simp add: dbDeleteBackup_def save_def)
qed

lemma fold_delete:
  "initialized w \<Longrightarrow>
     initialized (fold (\<lambda>b. dbDeleteBackup (backupId b)) ds w) \<and>
     backups (fold (\<lambda>b. dbDeleteBackup (backupId b)) ds w) =
       filter (\<lambda>kb. fst kb \<notin> backupId ` set ds) (backups w)"
proof (induction ds arbitrary: w)
  case Nil then show ?case by simp
next
  case (Cons d ds)
  have i: "initialized (dbDeleteBackup (backupId d) w)" by simp
  show ?case
    using Cons.IH[OF i] backups_dbDeleteBackup[OF Cons.prems, of "backupId d"]
    by (simp add: conj_commute)
qed

lemma set_firstOccurrences [simp]: "set (firstOccurrences xs) = set xs"
  by (simp add: firstOccurrences_def)

lemma toDelete_iff:
  "b \<in> set (toDelete pid n bs) \<longleftrightarrow>
     backupProjectId b = pid \<and>
     b \<in> set (sliceFrom n (newestFirst
            (filter (\<lambda>x. backupProjectId x = pid \<and> originalPath x = originalPath b) bs)))"
proof -
  have sub: "set (sliceFrom n xs) \<subseteq> set xs" for xs :: "BackupEntry list"
    by (auto simp: sliceFrom_def dest: in_set_dropD)
  have grp: "filter (\<lambda>x. originalPath x = p) (filter (\<lambda>x. backupProjectId x = pid) bs) =
             filter (\<lambda>x. backupProjectId x = pid \<and> originalPath x = p) bs" for p
    by (simp add: conj_commute)
  show ?thesis
  proof
    assume "b \<in> set (toDelete pid n bs)"
    then obtain p where
      p: "b \<in> set (sliceFrom n (newestFirst
              (filter (\<lambda>x. backupProjectId x = pid \<and> originalPath x = p) bs)))"
      by (auto simp: toDelete_def Let_def grp)
    with sub have "b \<in> set (newestFirst
              (filter (\<lambda>x. backupProjectId x = pid \<and> originalPath x = p) bs))" by blast
    then have "backupProjectId b = pid" "originalPath b = p" by (simp_all add: newestFirst_def)
    with p show "backupProjectId b = pid \<and>
     b \<in> set (sliceFrom n (newestFirst
            (filter (\<lambda>x. backupProjectId x = pid \<and> originalPath x = originalPath b) bs)))"
      by simp
  next
    assume a: "backupProjectId b = pid \<and>
     b \<in> set (sliceFrom n (newestFirst
            (filter (\<lambda>x. backupProjectId x = pid \<and> originalPath x = originalPath b) bs)))"
    with sub have "b \<in> set (newestFirst
            (filter (\<lambda>x. backupProjectId x = pid \<and> originalPath x = originalPath b) bs))"
      by blast
    then have "b \<in> set bs" by (simp add: newestFirst_def)
    with a show "b \<in> set (toDelete pid n bs)"
      by (auto simp: toDelete_def Let_def grp intro!: bexI[of _ b])
  qed
qed

lemma filter_notin_drop:
  "distinct xs \<Longrightarrow> filter (\<lambda>x. x \<notin> set (drop n xs)) xs = take n xs"
proof -
  assume d: "distinct xs"
  have "filter (\<lambda>x. x \<notin> set (drop n xs)) (take n xs @ drop n xs) = take n xs"
  proof -
    have "set (take n xs) \<inter> set (drop n xs) = {}"
      using d by (metis append_take_drop_id distinct_append)
    then have a: "filter (\<lambda>x. x \<notin> set (drop n xs)) (take n xs) = take n xs"
      by (auto intro!: filter_True)
    have b: "filter (\<lambda>x. x \<notin> set (drop n xs)) (drop n xs) = []"
      by (auto simp: filter_empty_conv)
    show ?thesis unfolding filter_append a b by simp
  qed
  then show ?thesis by simp
qed

lemma keysOk_ids:
  assumes "keysOk w"
  shows "distinct (map backupId (map snd (backups w)))"
proof -
  have eq: "map backupId (map snd (backups w)) = map fst (backups w)"
    using assms by (simp add: keysOk_def)
  show ?thesis unfolding eq using assms by (simp add: keysOk_def)
qed

lemma backups_cleanup:
  assumes wf: "wellFormed w"
  shows "map snd (backups (cleanupOldBackups pid n w)) =
         filter (\<lambda>b. b \<notin> set (toDelete pid n (map snd (backups (initialize w)))))
                (map snd (backups (initialize w)))"
proof -
  let ?w1 = "initialize w"
  let ?B = "map snd (backups ?w1)"
  let ?D = "toDelete pid n ?B"
  have ok: "keysOk ?w1" using wf by (rule keysOk_initialize)
  have dist: "distinct (map backupId ?B)"
    using ok by (rule keysOk_ids)
  have sub: "set ?D \<subseteq> set ?B"
  proof
    fix b assume "b \<in> set ?D"
    then have "b \<in> set (sliceFrom n (newestFirst
            (filter (\<lambda>x. backupProjectId x = pid \<and> originalPath x = originalPath b) ?B)))"
      by (simp add: toDelete_iff)
    then have "b \<in> set (newestFirst
            (filter (\<lambda>x. backupProjectId x = pid \<and> originalPath x = originalPath b) ?B))"
      by (auto simp: sliceFrom_def dest: in_set_dropD split: if_splits)
    then show "b \<in> set ?B" by (simp add: newestFirst_def)
  qed
  have inj: "inj_on backupId (set ?B)" using dist unfolding distinct_map by blast
  have iff: "backupId b \<in> backupId ` set ?D \<longleftrightarrow> b \<in> set ?D" if "b \<in> set ?B" for b
    using that sub inj by (auto dest: inj_onD)
  have "backups (cleanupOldBackups pid n w) =
          filter (\<lambda>kb. fst kb \<notin> backupId ` set ?D) (backups ?w1)"
    using fold_delete[of ?w1 ?D] by (simp add: cleanupOldBackups_def Let_def)
  moreover have "filter (\<lambda>kb. fst kb \<notin> backupId ` set ?D) (backups ?w1) =
      filter (\<lambda>kb. backupId (snd kb) \<notin> backupId ` set ?D) (backups ?w1)"
    by (rule filter_cong[OF refl]) (use ok in \<open>simp add: keysOk_def\<close>)
  ultimately have "map snd (backups (cleanupOldBackups pid n w)) =
          map snd (filter (\<lambda>kb. backupId (snd kb) \<notin> backupId ` set ?D) (backups ?w1))"
    by simp
  also have "\<dots> = filter (\<lambda>b. backupId b \<notin> backupId ` set ?D) ?B"
    by (simp add: filter_map comp_def)
  also have "\<dots> = filter (\<lambda>b. b \<notin> set ?D) ?B"
    by (rule filter_cong[OF refl]) (simp add: iff)
  finally show ?thesis .
qed

lemma cleanup_group:
  assumes wf: "wellFormed w" and n: "0 \<le> n"
  shows "newestFirst (backupsOf pid p (cleanupOldBackups pid n w)) =
         take (nat n) (newestFirst (backupsOf pid p (initialize w)))"
proof -
  let ?B = "map snd (backups (initialize w))"
  let ?G = "filter (\<lambda>b. backupProjectId b = pid \<and> originalPath b = p) ?B"
  let ?S = "newestFirst ?G"
  have ok: "keysOk (initialize w)" using wf by (rule keysOk_initialize)
  have "distinct (map backupId ?B)" using ok by (rule keysOk_ids)
  then have dB: "distinct ?B" unfolding distinct_map by blast
  then have dS: "distinct ?S" by (simp add: newestFirst_def)
  have "backupsOf pid p (cleanupOldBackups pid n w) =
          filter (\<lambda>b. backupProjectId b = pid \<and> originalPath b = p)
            (filter (\<lambda>b. b \<notin> set (toDelete pid n ?B)) ?B)"
    by (simp add: backupsOf_def backups_cleanup[OF wf])
  also have "\<dots> = filter (\<lambda>b. b \<notin> set (drop (nat n) ?S)) ?G"
    using n by (auto simp: toDelete_iff sliceFrom_def intro!: filter_cong)
  finally have "newestFirst (backupsOf pid p (cleanupOldBackups pid n w)) =
                  filter (\<lambda>b. b \<notin> set (drop (nat n) ?S)) ?S"
    by (simp add: newestFirst_def filter_sort)
  also have "\<dots> = take (nat n) ?S" using dS by (rule filter_notin_drop)
  finally show ?thesis by (simp add: backupsOf_def)
qed

lemma newestFirst_sorted: "sorted (map (\<lambda>b. - createdAt b) (newestFirst bs))"
  by (simp add: newestFirst_def)

lemma take_drop_order:
  assumes "sorted (map f xs)" "x \<in> set (take n xs)" "y \<in> set (drop n xs)"
  shows "f x \<le> f y"
proof -
  have "sorted (map f (take n xs) @ map f (drop n xs))"
    using assms(1) by (simp flip: map_append)
  then show ?thesis using assms(2,3) by (auto simp: sorted_append)
qed

text \<open>
  Claim C5 (retention).  \<^verbatim>\<open>cleanupOldBackups(projectId, n)\<close> with \<open>0 \<le> n\<close>, for every
  original path \<open>p\<close> of the project: the backups that remain for \<open>p\<close>, newest first, are
  the first \<open>n\<close> of the backups of \<open>p\<close> before the cleanup, newest first; so when \<open>p\<close> had
  \<open>n + k\<close> backups exactly \<open>n\<close> remain, every remaining backup of \<open>p\<close> was there before
  and is at least as new as every removed one.  What remains for \<open>p\<close> is decided by the
  backups of \<open>p\<close> alone, and the backups of every other project are all kept.
\<close>

theorem cleanupOldBackups_retention:
  assumes wf: "wellFormed w" and n: "0 \<le> n"
  shows "newestFirst (backupsOf pid p (cleanupOldBackups pid n w)) =
           take (nat n) (newestFirst (backupsOf pid p (initialize w))) \<and>
         (length (backupsOf pid p (initialize w)) = nat n + k \<longrightarrow>
            length (backupsOf pid p (cleanupOldBackups pid n w)) = nat n) \<and>
         (\<forall>kept \<in> set (backupsOf pid p (cleanupOldBackups pid n w)).
            kept \<in> set (backupsOf pid p (initialize w)) \<and>
            (\<forall>gone \<in> set (backupsOf pid p (initialize w)).
               gone \<notin> set (backupsOf pid p (cleanupOldBackups pid n w)) \<longrightarrow>
               createdAt gone \<le> createdAt kept)) \<and>
         filter (\<lambda>b. backupProjectId b \<noteq> pid) (map snd (backups (cleanupOldBackups pid n w))) =
           filter (\<lambda>b. backupProjectId b \<noteq> pid) (map snd (backups (initialize w)))"
proof -
  let ?A = "backupsOf pid p (cleanupOldBackups pid n w)"
  let ?G = "backupsOf pid p (initialize w)"
  let ?S = "newestFirst ?G"
  have eq: "newestFirst ?A = take (nat n) ?S" using wf n by (rule cleanup_group)
  have setA: "set ?A = set (take (nat n) ?S)"
    using arg_cong[OF eq, of set] by (simp add: newestFirst_def)
  have len: "length ?A = min (nat n) (length ?G)"
    using arg_cong[OF eq, of length] by (simp add: newestFirst_def min.commute)
  have setG: "set ?G = set (take (nat n) ?S) \<union> set (drop (nat n) ?S)"
    by (metis append_take_drop_id set_append set_sort newestFirst_def)
  have ord: "createdAt gone \<le> createdAt kept"
    if "kept \<in> set ?A" "gone \<in> set ?G" "gone \<notin> set ?A" for kept gone
  proof -
    from that setA setG have "kept \<in> set (take (nat n) ?S)" "gone \<in> set (drop (nat n) ?S)"
      by auto
    with take_drop_order[OF newestFirst_sorted, of kept "nat n" ?G gone] show ?thesis by simp
  qed
  have sub: "set ?A \<subseteq> set ?G" using setA setG by blast
  have other: "filter (\<lambda>b. backupProjectId b \<noteq> pid) (map snd (backups (cleanupOldBackups pid n w))) =
           filter (\<lambda>b. backupProjectId b \<noteq> pid) (map snd (backups (initialize w)))"
    unfolding backups_cleanup[OF wf]
    by (auto simp: toDelete_iff intro!: filter_cong)
  show ?thesis using eq len ord sub other by auto
qed

theorem cleanupOldBackups_retention_witness:
  "wellFormed exBackupWorld \<and>
   newestFirst (backupsOf ''P'' ''a.txt'' (cleanupOldBackups ''P'' 2 exBackupWorld)) =
     [exBackup ''2'' ''a.txt'' 30, exBackup ''4'' ''a.txt'' 20] \<and>
   length (backupsOf ''P'' ''a.txt'' (cleanupOldBackups ''P'' 2 exBackupWorld)) = 2 \<and>
   backupsOf ''P'' ''b.txt'' (cleanupOldBackups ''P'' 2 exBackupWorld) = [exBackup ''3'' ''b.txt'' 5]"
proof -
  have wf: "wellFormed exBackupWorld"
    by (simp add: wellFormed_def keysOk_def exBackupWorld_def exWorld_def exBackup_def)
  have i: "initialize exBackupWorld = exBackupWorld"
    by (simp add: exBackupWorld_def exWorld_def)
  have a: "backupsOf ''P'' ''a.txt'' exBackupWorld =
        [exBackup ''1'' ''a.txt'' 10, exBackup ''2'' ''a.txt'' 30, exBackup ''4'' ''a.txt'' 20]"
    by (simp add: backupsOf_def exBackupWorld_def exWorld_def exBackup_def)
  have b: "backupsOf ''P'' ''b.txt'' exBackupWorld = [exBackup ''3'' ''b.txt'' 5]"
    by (simp add: backupsOf_def exBackupWorld_def exWorld_def exBackup_def)
  have s: "newestFirst [exBackup ''1'' ''a.txt'' 10, exBackup ''2'' ''a.txt'' 30, exBackup ''4'' ''a.txt'' 20]
      = [exBackup ''2'' ''a.txt'' 30, exBackup ''4'' ''a.txt'' 20, exBackup ''1'' ''a.txt'' 10]"
    by (simp add: newestFirst_def exBackup_def)
  have sb: "newestFirst [exBackup ''3'' ''b.txt'' 5] = [exBackup ''3'' ''b.txt'' 5]"
    by (simp add: newestFirst_def)
  have ta: "take (nat 2) [exBackup ''2'' ''a.txt'' 30, exBackup ''4'' ''a.txt'' 20, exBackup ''1'' ''a.txt'' 10]
      = [exBackup ''2'' ''a.txt'' 30, exBackup ''4'' ''a.txt'' 20]"
    by simp
  note A = cleanupOldBackups_retention[OF wf, of 2 "''P''" "''a.txt''" 1]
  note B = cleanupOldBackups_retention[OF wf, of 2 "''P''" "''b.txt''" 0]
  have la: "length (backupsOf ''P'' ''a.txt'' (cleanupOldBackups ''P'' 2 exBackupWorld)) = 2"
    using A by (simp add: i a)
  have eb: "newestFirst (backupsOf ''P'' ''b.txt'' (cleanupOldBackups ''P'' 2 exBackupWorld))
      = [exBackup ''3'' ''b.txt'' 5]"
    using B by (simp add: i b sb)
  have "backupsOf ''P'' ''b.txt'' (cleanupOldBackups ''P'' 2 exBackupWorld) = [exBackup ''3'' ''b.txt'' 5]"
  proof -
    have "length (backupsOf ''P'' ''b.txt'' (cleanupOldBackups ''P'' 2 exBackupWorld)) = 1"
      using arg_cong[OF eb, of length] by (simp add: newestFirst_def)
    moreover have "set (backupsOf ''P'' ''b.txt'' (cleanupOldBackups ''P'' 2 exBackupWorld)) = {exBackup ''3'' ''b.txt'' 5}"
      using arg_cong[OF eb, of set] by (simp add: newestFirst_def)
    ultimately show ?thesis
      by (cases "backupsOf ''P'' ''b.txt'' (cleanupOldBackups ''P'' 2 exBackupWorld)") auto
  qed
  then show ?thesis using wf A la by (simp add: i a s ta)
qed

lemma dbListBackups_path:
  "p \<noteq> [] \<Longrightarrow> fst (dbListBackups pid (Some p) w) = newestFirst (backupsOf pid p (initialize w))"
  by (simp add: dbListBackups_def backupsOf_def Let_def)

lemma newestFirst_Nil_iff [simp]: "newestFirst bs = [] \<longleftrightarrow> bs = []"
  by (metis newestFirst_def length_sort length_0_conv)

lemma newestFirst_Nil [simp]: "newestFirst [] = []"
  by (simp add: newestFirst_def)

lemma newestFirst_hd_max:
  assumes "newestFirst bs = b # rest"
  shows "b \<in> set bs \<and> (\<forall>b' \<in> set bs. createdAt b' \<le> createdAt b)"
proof -
  have s: "set bs = set (b # rest)" using assms by (metis newestFirst_def set_sort)
  have "sorted (map (\<lambda>b. - createdAt b) (b # rest))"
    using newestFirst_sorted[of bs] assms by simp
  then have "\<forall>b' \<in> set rest. createdAt b' \<le> createdAt b" by auto
  with s show ?thesis by auto
qed

text \<open>
  Claim C10.  \<^verbatim>\<open>hasFileChangedSinceBackup(path)\<close> is true when the file cannot be read
  and when no backup of the project is recorded for the path; otherwise it is true
  exactly when the current hash differs from the \<open>fileHash\<close> of the first backup of the
  newest-first listing, which is a backup of that path with the latest creation time.
  The path the listing is asked for, \<^verbatim>\<open>path.relative(process.cwd(), filePath)\<close>, is not
  empty (it is empty only for the working directory itself, and the listing does not
  filter on an empty path).
\<close>

theorem hasFileChangedSinceBackup_latest:
  assumes "relCwd e p \<noteq> []"
  shows "(calculateFileHash e w p = None \<longrightarrow> fst (hasFileChangedSinceBackup e pid p w)) \<and>
         (backupsOf pid (relCwd e p) (initialize w) = [] \<longrightarrow>
            fst (hasFileChangedSinceBackup e pid p w)) \<and>
         (\<forall>h. calculateFileHash e w p = Some h \<longrightarrow>
              backupsOf pid (relCwd e p) (initialize w) \<noteq> [] \<longrightarrow>
              (\<exists>latest \<in> set (backupsOf pid (relCwd e p) (initialize w)).
                  latest = hd (newestFirst (backupsOf pid (relCwd e p) (initialize w))) \<and>
                  (\<forall>b \<in> set (backupsOf pid (relCwd e p) (initialize w)).
                      createdAt b \<le> createdAt latest) \<and>
                  fst (hasFileChangedSinceBackup e pid p w) = (h \<noteq> fileHash latest)))"
proof -
  let ?G = "backupsOf pid (relCwd e p) (initialize w)"
  have l: "fst (dbListBackups pid (Some (relCwd e p)) w) = newestFirst ?G"
    using assms by (rule dbListBackups_path)
  have c1: "calculateFileHash e w p = None \<longrightarrow> fst (hasFileChangedSinceBackup e pid p w)"
    by (simp add: hasFileChangedSinceBackup_def)
  have c2: "?G = [] \<longrightarrow> fst (hasFileChangedSinceBackup e pid p w)"
    using l by (auto simp: hasFileChangedSinceBackup_def split: option.splits prod.splits list.splits)
  have c3: "\<exists>latest \<in> set ?G. latest = hd (newestFirst ?G) \<and>
                  (\<forall>b \<in> set ?G. createdAt b \<le> createdAt latest) \<and>
                  fst (hasFileChangedSinceBackup e pid p w) = (h \<noteq> fileHash latest)"
    if h: "calculateFileHash e w p = Some h" and ne: "?G \<noteq> []" for h
  proof -
    from ne obtain b rest where br: "newestFirst ?G = b # rest"
      by (cases "newestFirst ?G") auto
    from newestFirst_hd_max[OF br]
    have m: "b \<in> set ?G" "\<forall>b' \<in> set ?G. createdAt b' \<le> createdAt b" by auto
    have "fst (hasFileChangedSinceBackup e pid p w) = (h \<noteq> fileHash b)"
      using h l br by (auto simp: hasFileChangedSinceBackup_def split: prod.splits)
    with m br show ?thesis by auto
  qed
  show ?thesis using c1 c2 c3 by blast
qed

theorem hasFileChangedSinceBackup_latest_witness:
  "relCwd exEnv ''a.txt'' \<noteq> [] \<and> fst (hasFileChangedSinceBackup exEnv ''P'' ''a.txt'' exFileWorld) \<and>
   hd (newestFirst (backupsOf ''P'' ''a.txt'' exFileWorld)) = exBackup ''2'' ''a.txt'' 30"
proof -
  have r: "relCwd exEnv ''a.txt'' \<noteq> []" by (simp add: exEnv_def)
  have i: "initialize exFileWorld = exFileWorld"
    by (simp add: exFileWorld_def exBackupWorld_def exWorld_def)
  have g: "backupsOf ''P'' ''a.txt'' exFileWorld =
        [exBackup ''1'' ''a.txt'' 10, exBackup ''2'' ''a.txt'' 30, exBackup ''4'' ''a.txt'' 20]"
    by (simp add: backupsOf_def exFileWorld_def exBackupWorld_def exWorld_def exBackup_def)
  have s: "newestFirst [exBackup ''1'' ''a.txt'' 10, exBackup ''2'' ''a.txt'' 30, exBackup ''4'' ''a.txt'' 20]
      = [exBackup ''2'' ''a.txt'' 30, exBackup ''4'' ''a.txt'' 20, exBackup ''1'' ''a.txt'' 10]"
    by (simp add: newestFirst_def exBackup_def)
  have h: "calculateFileHash exEnv exFileWorld ''a.txt'' = Some ''new''"
    by (simp add: calculateFileHash_def exFileWorld_def exEnv_def)
  have rc: "relCwd exEnv ''a.txt'' = ''a.txt''" by (simp add: exEnv_def)
  from hasFileChangedSinceBackup_latest[OF r, of exFileWorld "''P''"]
  have "fst (hasFileChangedSinceBackup exEnv ''P'' ''a.txt'' exFileWorld) =
          (''new'' \<noteq> fileHash (exBackup ''2'' ''a.txt'' 30))"
    unfolding rc i g s h by simp
  moreover have "hd (newestFirst (backupsOf ''P'' ''a.txt'' exFileWorld)) = exBackup ''2'' ''a.txt'' 30"
    unfolding g s by simp
  ultimately show ?thesis using r by (simp add: exBackup_def)
qed

lemma dbListBackups_all:
  "dbListBackups pid None w =
     (newestFirst (filter (\<lambda>b. backupProjectId b = pid) (map snd (backups (initialize w)))),
      initialize w)"
  by (simp add: dbListBackups_def Let_def)

lemma find_newestFirst_Some:
  assumes "find P (newestFirst bs) = Some b"
  shows "b \<in> set bs \<and> P b"
proof -
  from assms have "b \<in> set (newestFirst bs) \<and> P b"
    by (auto simp: find_Some_iff in_set_conv_nth)
  then show ?thesis by (simp add: newestFirst_def)
qed

lemma success_failed [simp]: "\<not> success (failed msg)"
  by (simp add: failed_def)

lemma success_succeeded [simp]: "success (succeeded a b)"
  by (simp add: succeeded_def)

lemma resultBackupPath_succeeded [simp]: "resultBackupPath (succeeded a b) = b"
  by (simp add: succeeded_def)

lemma resultBackupId_succeeded [simp]: "resultBackupId (succeeded a b) = a"
  by (simp add: succeeded_def)

text \<open>
  Claim C9.  \<^verbatim>\<open>restoreFromBackup(backupId, targetPath?)\<close> returns success only if a
  backup record of the project with that id exists, its backup file exists, and the file
  at the restore path afterwards holds bytes whose hash is the recorded \<open>fileHash\<close>;
  when the copy that lands at the restore path has another hash, it returns failure.
\<close>

theorem restoreFromBackup_verified:
  assumes "restoreFromBackup e pid bid target w = (r, w')"
  shows "(success r \<longrightarrow>
            (\<exists>b c c' m restorePath.
                b \<in> set (map snd (backups (initialize w))) \<and> backupProjectId b = pid \<and>
                backupId b = bid \<and> bdir (initialize w) (backupPath b) = Some c \<and>
                resultBackupPath r = Some restorePath \<and>
                map_of (tree w') restorePath = Some (File c' m) \<and>
                sha256 e c' = fileHash b)) \<and>
         (\<forall>b c c'. find (\<lambda>b. backupId b = bid) (fst (dbListBackups pid None w)) = Some b \<longrightarrow>
              bdir (initialize w) (backupPath b) = Some c \<longrightarrow> copyBytes e c = Some c' \<longrightarrow>
              sha256 e c' \<noteq> fileHash b \<longrightarrow> \<not> success r)"
proof -
  let ?bs = "newestFirst (filter (\<lambda>b. backupProjectId b = pid) (map snd (backups (initialize w))))"
  show ?thesis
  proof (cases "find (\<lambda>b. backupId b = bid) ?bs")
    case None
    then have "\<not> success r" using assms
      by (auto simp: restoreFromBackup_def dbListBackups_all)
    with None show ?thesis by (simp add: dbListBackups_all)
  next
    case (Some b)
    from find_newestFirst_Some[OF Some]
    have b: "b \<in> set (map snd (backups (initialize w)))" "backupProjectId b = pid" "backupId b = bid"
      by auto
    show ?thesis
    proof (cases "bdir (initialize w) (backupPath b)")
      case None
      then have "\<not> success r" using assms Some
        by (auto simp: restoreFromBackup_def dbListBackups_all)
      with Some None show ?thesis by (simp add: dbListBackups_all)
    next
      case c: (Some c)
      show ?thesis
      proof (cases "copyBytes e c")
        case None
        then have "\<not> success r" using assms Some c
          by (auto simp: restoreFromBackup_def dbListBackups_all)
        with Some c None show ?thesis by (simp add: dbListBackups_all)
      next
        case c': (Some c')
        let ?rp = "case target of None \<Rightarrow> originalPath b
                   | Some t \<Rightarrow> if t = [] then originalPath b else t"
        have s: "success r \<longrightarrow>
             resultBackupPath r = Some ?rp \<and>
             map_of (tree w') ?rp = Some (File c' (clock e (tick (initialize w)))) \<and>
             sha256 e c' = fileHash b"
          using assms Some c c'
          by (auto simp: restoreFromBackup_def dbListBackups_all newDate_def Let_def update_conv'
                   split: if_splits)
        have f: "sha256 e c' \<noteq> fileHash b \<longrightarrow> \<not> success r"
          using assms Some c c'
          by (auto simp: restoreFromBackup_def dbListBackups_all newDate_def Let_def
                   split: if_splits)
        show ?thesis using s f b Some c c' by (auto simp: dbListBackups_all)
      qed
    qed
  qed
qed

theorem restoreFromBackup_verified_witness:
  "success (fst (restoreFromBackup exEnv ''P'' ''2'' None exBackedUpWorld)) \<and>
   (\<exists>b c c' m restorePath.
        b \<in> set (map snd (backups (initialize exBackedUpWorld))) \<and> backupProjectId b = ''P'' \<and>
        backupId b = ''2'' \<and> bdir (initialize exBackedUpWorld) (backupPath b) = Some c \<and>
        resultBackupPath (fst (restoreFromBackup exEnv ''P'' ''2'' None exBackedUpWorld)) = Some restorePath \<and>
        map_of (tree (snd (restoreFromBackup exEnv ''P'' ''2'' None exBackedUpWorld))) restorePath = Some (File c' m) \<and>
        sha256 exEnv c' = fileHash b)"
proof -
  have s: "newestFirst [exBackup ''1'' ''a.txt'' 10, exBackup ''2'' ''a.txt'' 30,
        exBackup ''3'' ''b.txt'' 5, exBackup ''4'' ''a.txt'' 20]
      = [exBackup ''2'' ''a.txt'' 30, exBackup ''4'' ''a.txt'' 20, exBackup ''1'' ''a.txt'' 10,
         exBackup ''3'' ''b.txt'' 5]"
    by (simp add: newestFirst_def exBackup_def)
  have l: "dbListBackups ''P'' None exBackedUpWorld =
     ([exBackup ''2'' ''a.txt'' 30, exBackup ''4'' ''a.txt'' 20, exBackup ''1'' ''a.txt'' 10,
         exBackup ''3'' ''b.txt'' 5], exBackedUpWorld)"
    unfolding s[symmetric]
    by (simp add: dbListBackups_all exBackedUpWorld_def exBackupWorld_def exWorld_def exBackup_def)
  have ok: "success (fst (restoreFromBackup exEnv ''P'' ''2'' None exBackedUpWorld))"
    unfolding restoreFromBackup_def l
    by (simp add: exBackup_def isDirectory_def exBackedUpWorld_def exBackupWorld_def exWorld_def exEnv_def
          newDate_def Let_def)
  from restoreFromBackup_verified[OF surjective_pairing, of exEnv "''P''" "''2''" None exBackedUpWorld] ok
  show ?thesis by blast
qed

lemma bdir_dbDeleteBackup:
  "bdir (dbDeleteBackup bid w) p = Some c \<Longrightarrow> bdir (initialize w) p = Some c"
  by (auto simp: dbDeleteBackup_def save_def Let_def split: option.splits if_splits)

lemma bdir_fold_delete:
  "initialized w \<Longrightarrow> bdir (fold (\<lambda>b. dbDeleteBackup (backupId b)) ds w) p = Some c \<Longrightarrow>
     bdir w p = Some c"
proof (induction ds arbitrary: w)
  case Nil then show ?case by simp
next
  case (Cons d ds)
  have "bdir (dbDeleteBackup (backupId d) w) p = Some c"
    using Cons.IH[of "dbDeleteBackup (backupId d) w"] Cons.prems by simp
  then show ?case using bdir_dbDeleteBackup[of "backupId d" w p c] Cons.prems(1) by simp
qed

lemma map_of_filter_notin:
  "map_of (filter (\<lambda>kb. fst kb \<notin> S) al) k = (if k \<in> S then None else map_of al k)"
  by (induction al) auto

lemma map_of_filter_keys:
  "map_of (filter (\<lambda>kb. fst kb \<notin> S) al) k = Some v \<Longrightarrow> map_of al k = Some v"
  by (simp add: map_of_filter_notin split: if_splits)

lemma cleanup_keeps_only:
  assumes "initialized w"
  shows "(map_of (backups (cleanupOldBackups pid n w)) k = Some v \<longrightarrow> map_of (backups w) k = Some v) \<and>
         (bdir (cleanupOldBackups pid n w) p = Some c \<longrightarrow> bdir w p = Some c)"
proof -
  let ?D = "toDelete pid n (map snd (backups w))"
  have c: "cleanupOldBackups pid n w = fold (\<lambda>b. dbDeleteBackup (backupId b)) ?D w"
    using assms by (simp add: cleanupOldBackups_def)
  show ?thesis unfolding c
    using fold_delete[OF assms, of ?D] bdir_fold_delete[OF assms, of ?D p c]
    by (auto dest: map_of_filter_keys)
qed

lemma dbCreateBackup_fields:
  "initialized (dbCreateBackup b w) \<and>
   map_of (backups (dbCreateBackup b w)) (backupId b) = Some b \<and>
   bdir (dbCreateBackup b w) = bdir w"
  by (simp add: dbCreateBackup_def save_def Let_def update_conv' initialize_def
           split: option.splits prod.splits)

lemma createBackup_success:
  assumes en: "enabled opts" and cb: "createBackup e opts pid orig rsn w = (r, w')"
    and ok: "success r"
  shows "\<exists>c m. map_of (tree w) orig = Some (File c m) \<and>
           copyBytes e c \<noteq> None \<and> sha256 e (the (copyBytes e c)) = sha256 e c \<and>
           r = succeeded (Some (randomId e (tick w)))
                 (Some (backupFileName e orig (clock e (Suc (tick w))) (randomId e (tick w)))) \<and>
           w' = (let w3 = w\<lparr>bdir := (bdir w)(backupFileName e orig (clock e (Suc (tick w)))
                                        (randomId e (tick w)) \<mapsto> the (copyBytes e c)),
                             tick := Suc (Suc (Suc (tick w)))\<rparr>;
                     w5 = dbCreateBackup
                            \<lparr>backupId = randomId e (tick w), originalPath = relCwd e orig,
                             backupPath = backupFileName e orig (clock e (Suc (tick w)))
                                            (randomId e (tick w)),
                             createdAt = clock e (Suc (Suc (tick w))),
                             fileHash = sha256 e c, backupProjectId = pid,
                             backupReason = rsn\<rparr> w3
                 in if autoCleanup opts then cleanupOldBackups pid (retentionCount opts) w5 else w5)"
  using en cb ok
  by (auto simp: createBackup_def randomHex_def newDate_def Let_def
           split: option.splits node.splits if_splits)

lemma update_fresh: "k \<notin> fst ` set al \<Longrightarrow> AList.update k v al = al @ [(k, v)]"
  by (induction al) auto

lemma toDelete_subset: "set (toDelete pid n bs) \<subseteq> set bs"
proof
  fix b assume "b \<in> set (toDelete pid n bs)"
  then have "b \<in> set (sliceFrom n (newestFirst
            (filter (\<lambda>x. backupProjectId x = pid \<and> originalPath x = originalPath b) bs)))"
    by (simp add: toDelete_iff)
  then have "b \<in> set (newestFirst
            (filter (\<lambda>x. backupProjectId x = pid \<and> originalPath x = originalPath b) bs))"
    by (auto simp: sliceFrom_def dest: in_set_dropD split: if_splits)
  then show "b \<in> set bs" by (simp add: newestFirst_def)
qed

lemma bdir_fold_delete_exact:
  "initialized w \<Longrightarrow>
   bdir (fold (\<lambda>b. dbDeleteBackup (backupId b)) ds w) p =
     (if \<exists>d \<in> set ds. \<exists>b. map_of (backups w) (backupId d) = Some b \<and> backupPath b = p
      then None else bdir w p)"
proof (induction ds arbitrary: w)
  case Nil then show ?case by simp
next
  case (Cons d ds)
  let ?w1 = "dbDeleteBackup (backupId d) w"
  have i: "initialized ?w1" by simp
  note ih = Cons.IH[OF i]
  have f: "fold (\<lambda>b. dbDeleteBackup (backupId b)) (d # ds) w =
           fold (\<lambda>b. dbDeleteBackup (backupId b)) ds ?w1" by simp
  show ?case
  proof (cases "map_of (backups w) (backupId d)")
    case None
    then have w1: "?w1 = w" using Cons.prems by (simp add: dbDeleteBackup_def)
    show ?thesis unfolding f ih unfolding w1 using None by simp
  next
    case (Some b)
    have b1: "bdir ?w1 = (bdir w)(backupPath b := None)"
      and m1: "map_of (backups ?w1) k = (if k = backupId d then None else map_of (backups w) k)" for k
      using Some Cons.prems by (simp_all add: dbDeleteBackup_def save_def delete_conv')
    show ?thesis unfolding f ih using Some by (auto simp: b1 m1)
  qed
qed

lemma keyed_lookup:
  assumes "distinct (map fst al)" and "\<forall>kv \<in> set al. fst kv = f (snd kv)" and "v \<in> set (map snd al)"
  shows "map_of al (f v) = Some v"
proof -
  from assms(3) obtain k where "(k, v) \<in> set al" by auto
  moreover with assms(2) have "k = f v" by fastforce
  ultimately show ?thesis using assms(1) by (simp add: map_of_eq_Some_iff)
qed

lemma cleanup_exact:
  assumes i: "initialized w" and d: "distinct (map fst (backups w))"
    and k: "\<forall>kb \<in> set (backups w). fst kb = backupId (snd kb)"
    and m: "map_of (backups w) (backupId be) = Some be"
  shows "map_of (backups (cleanupOldBackups pid n w)) (backupId be) =
           (if be \<in> set (toDelete pid n (map snd (backups w))) then None else Some be) \<and>
         bdir (cleanupOldBackups pid n w) p =
           (if p \<in> backupPath ` set (toDelete pid n (map snd (backups w))) then None else bdir w p)"
proof -
  let ?D = "toDelete pid n (map snd (backups w))"
  have c: "cleanupOldBackups pid n w = fold (\<lambda>b. dbDeleteBackup (backupId b)) ?D w"
    using i by (simp add: cleanupOldBackups_def)
  have l: "map_of (backups w) (backupId x) = Some x" if "x \<in> set ?D" for x
    using d k by (rule keyed_lookup) (use that toDelete_subset in blast)
  have a: "backupId be \<in> backupId ` set ?D \<longleftrightarrow> be \<in> set ?D"
  proof
    assume "backupId be \<in> backupId ` set ?D"
    then obtain x where x: "x \<in> set ?D" "backupId x = backupId be" by auto
    from l[OF x(1)] x(2) m have "x = be" by simp
    with x(1) show "be \<in> set ?D" by simp
  qed simp
  have b: "(\<exists>x \<in> set ?D. \<exists>b. map_of (backups w) (backupId x) = Some b \<and> backupPath b = p) \<longleftrightarrow>
           p \<in> backupPath ` set ?D"
    using l by (auto simp: image_iff)
  have 1: "map_of (backups (cleanupOldBackups pid n w)) (backupId be) =
           (if be \<in> set ?D then None else Some be)"
    unfolding c using fold_delete[OF i, of ?D] a m by (simp add: map_of_filter_notin)
  have 2: "bdir (cleanupOldBackups pid n w) p = (if p \<in> backupPath ` set ?D then None else bdir w p)"
    unfolding c bdir_fold_delete_exact[OF i] b by (rule refl)
  show ?thesis using 1 2 by (rule conjI)
qed

lemma newest_not_pruned:
  assumes n: "1 \<le> n" and d: "distinct bs" and ne: "be \<notin> set bs"
    and p: "backupProjectId be = pid"
    and newer: "\<forall>b \<in> set bs. backupProjectId b = pid \<and> originalPath b = originalPath be \<longrightarrow>
                  createdAt b < createdAt be"
  shows "be \<notin> set (toDelete pid n (bs @ [be]))"
proof
  assume a: "be \<in> set (toDelete pid n (bs @ [be]))"
  let ?g = "\<lambda>x. backupProjectId x = pid \<and> originalPath x = originalPath be"
  let ?G = "filter ?g bs @ [be]"
  let ?S = "newestFirst ?G"
  have G: "filter ?g (bs @ [be]) = ?G" using p by simp
  from a have "be \<in> set (sliceFrom n (newestFirst (filter ?g (bs @ [be]))))"
    unfolding toDelete_iff by (rule conjunct2)
  then have s: "be \<in> set (drop (nat n) ?S)" unfolding G using n by (simp add: sliceFrom_def)
  have "?S \<noteq> []" by simp
  then obtain b0 rest where S: "?S = b0 # rest" by (cases ?S) auto
  from newestFirst_hd_max[OF S]
  have b0: "b0 \<in> set ?G" and mx: "\<forall>b' \<in> set ?G. createdAt b' \<le> createdAt b0" by simp_all
  have "b0 = be"
  proof (rule ccontr)
    assume "b0 \<noteq> be"
    with b0 have "b0 \<in> set bs" "?g b0" by auto
    with newer have "createdAt b0 < createdAt be" by blast
    moreover from mx have "createdAt be \<le> createdAt b0" by simp
    ultimately show False by simp
  qed
  have "distinct ?G" using d ne by simp
  then have "distinct ?S" by (simp add: newestFirst_def)
  with S \<open>b0 = be\<close> have nr: "be \<notin> set rest" by simp
  from n obtain k where k: "nat n = Suc k" by (cases "nat n") auto
  from s have "be \<in> set (drop k rest)" unfolding S k by simp
  then have "be \<in> set rest" by (rule in_set_dropD)
  with nr show False by simp
qed


lemma backups_initialize_frame:
  "backups (initialize (w\<lparr>bdir := b, tick := t\<rparr>)) = backups (initialize w)"
  by (simp add: initialize_def split: option.splits prod.splits)

lemma dbCreateBackup_backups:
  "backups (dbCreateBackup b w) = AList.update (backupId b) b (backups (initialize w))"
  by (simp add: dbCreateBackup_def save_def Let_def)

text \<open>
  Claim C3, as the code has it.  With backups enabled, a successful \<^verbatim>\<open>createBackup\<close>
  read a regular file, made a copy that hashes as the source does, and handed to the state
  store a record under the returned id that carries the returned backup path and that
  hash: the call ends in the store that holds this record and this copy, or in what the
  cleanup makes of it.  After the call the record and the backup file are there, the file re-hashing to
  the recorded \<open>fileHash\<close>, unless the cleanup that ends the call has pruned them: the
  record is gone exactly when the cleanup deletes it, the file exactly when the cleanup
  deletes a record with its path (in a well-formed store), and a record or file found
  after the call is never another one.  Both are there without \<open>autoCleanup\<close>, and also
  with it when the retention count is at least 1, the id and the file name are new, and
  the older backups of the path carry earlier creation times.
  Whenever the copy's hash differs from the source's, the call returns failure, the copy
  is gone, and the store (records and state file) is as before.
\<close>

theorem createBackup_integrity:
  assumes en: "enabled opts" and cb: "createBackup e opts pid orig rsn w = (r, w')"
  shows "(success r \<longrightarrow>
            (\<exists>c m c' be.
                map_of (tree w) orig = Some (File c m) \<and> copyBytes e c = Some c' \<and>
                resultBackupId r = Some (backupId be) \<and>
                resultBackupPath r = Some (backupPath be) \<and>
                fileHash be = sha256 e c \<and> sha256 e c' = fileHash be \<and>
                originalPath be = relCwd e orig \<and> backupProjectId be = pid \<and>
                (\<exists>w5. map_of (backups w5) (backupId be) = Some be \<and>
                      bdir w5 (backupPath be) = Some c' \<and>
                      w' = (if autoCleanup opts
                            then cleanupOldBackups pid (retentionCount opts) w5 else w5)) \<and>
                (\<forall>be'. map_of (backups w') (backupId be) = Some be' \<longrightarrow> be' = be) \<and>
                (\<forall>c''. bdir w' (backupPath be) = Some c'' \<longrightarrow> c'' = c') \<and>
                (\<not> autoCleanup opts \<longrightarrow>
                   map_of (backups w') (backupId be) = Some be \<and>
                   bdir w' (backupPath be) = Some c') \<and>
                (wellFormed w \<longrightarrow>
                   map_of (backups w') (backupId be) =
                     (if be \<in> set (pruned opts pid be w) then None else Some be) \<and>
                   bdir w' (backupPath be) =
                     (if backupPath be \<in> backupPath ` set (pruned opts pid be w) then None
                      else Some c') \<and>
                   (1 \<le> retentionCount opts \<and>
                    (\<forall>b \<in> set (map snd (backups (initialize w))).
                        backupId b \<noteq> backupId be \<and> backupPath b \<noteq> backupPath be \<and>
                        (backupProjectId b = pid \<and> originalPath b = originalPath be \<longrightarrow>
                           createdAt b < createdAt be)) \<longrightarrow>
                    map_of (backups w') (backupId be) = Some be \<and>
                    bdir w' (backupPath be) = Some c')))) \<and>
         (\<forall>c m c'. map_of (tree w) orig = Some (File c m) \<longrightarrow> copyBytes e c = Some c' \<longrightarrow>
              sha256 e c' \<noteq> sha256 e c \<longrightarrow>
              \<not> success r \<and>
              bdir w' (backupFileName e orig (clock e (Suc (tick w))) (randomId e (tick w))) = None \<and>
              backups w' = backups w \<and> syncStates w' = syncStates w \<and> dbFile w' = dbFile w \<and>
              initialized w' = initialized w)"
proof -
  have part1: "\<exists>c m c' be.
                map_of (tree w) orig = Some (File c m) \<and> copyBytes e c = Some c' \<and>
                resultBackupId r = Some (backupId be) \<and>
                resultBackupPath r = Some (backupPath be) \<and>
                fileHash be = sha256 e c \<and> sha256 e c' = fileHash be \<and>
                originalPath be = relCwd e orig \<and> backupProjectId be = pid \<and>
                (\<exists>w5. map_of (backups w5) (backupId be) = Some be \<and>
                      bdir w5 (backupPath be) = Some c' \<and>
                      w' = (if autoCleanup opts
                            then cleanupOldBackups pid (retentionCount opts) w5 else w5)) \<and>
                (\<forall>be'. map_of (backups w') (backupId be) = Some be' \<longrightarrow> be' = be) \<and>
                (\<forall>c''. bdir w' (backupPath be) = Some c'' \<longrightarrow> c'' = c') \<and>
                (\<not> autoCleanup opts \<longrightarrow>
                   map_of (backups w') (backupId be) = Some be \<and>
                   bdir w' (backupPath be) = Some c') \<and>
                (wellFormed w \<longrightarrow>
                   map_of (backups w') (backupId be) =
                     (if be \<in> set (pruned opts pid be w) then None else Some be) \<and>
                   bdir w' (backupPath be) =
                     (if backupPath be \<in> backupPath ` set (pruned opts pid be w) then None
                      else Some c') \<and>
                   (1 \<le> retentionCount opts \<and>
                    (\<forall>b \<in> set (map snd (backups (initialize w))).
                        backupId b \<noteq> backupId be \<and> backupPath b \<noteq> backupPath be \<and>
                        (backupProjectId b = pid \<and> originalPath b = originalPath be \<longrightarrow>
                           createdAt b < createdAt be)) \<longrightarrow>
                    map_of (backups w') (backupId be) = Some be \<and>
                    bdir w' (backupPath be) = Some c'))"
    if ok: "success r"
  proof -
    from createBackup_success[OF en cb ok] obtain c m where
      f: "map_of (tree w) orig = Some (File c m)" and
      cp: "copyBytes e c \<noteq> None" and hh: "sha256 e (the (copyBytes e c)) = sha256 e c" and
      r: "r = succeeded (Some (randomId e (tick w)))
                 (Some (backupFileName e orig (clock e (Suc (tick w))) (randomId e (tick w))))" and
      w': "w' = (let w3 = w\<lparr>bdir := (bdir w)(backupFileName e orig (clock e (Suc (tick w)))
                                        (randomId e (tick w)) \<mapsto> the (copyBytes e c)),
                             tick := Suc (Suc (Suc (tick w)))\<rparr>;
                     w5 = dbCreateBackup
                            \<lparr>backupId = randomId e (tick w), originalPath = relCwd e orig,
                             backupPath = backupFileName e orig (clock e (Suc (tick w)))
                                            (randomId e (tick w)),
                             createdAt = clock e (Suc (Suc (tick w))),
                             fileHash = sha256 e c, backupProjectId = pid,
                             backupReason = rsn\<rparr> w3
                 in if autoCleanup opts then cleanupOldBackups pid (retentionCount opts) w5 else w5)"
      by (elim exE conjE)
    let ?bid = "randomId e (tick w)"
    let ?bp = "backupFileName e orig (clock e (Suc (tick w))) ?bid"
    define c' where "c' = the (copyBytes e c)"
    define w3 where "w3 = w\<lparr>bdir := (bdir w)(?bp \<mapsto> the (copyBytes e c)),
                  tick := Suc (Suc (Suc (tick w)))\<rparr>"
    define be where "be = \<lparr>backupId = ?bid, originalPath = relCwd e orig, backupPath = ?bp,
                 createdAt = clock e (Suc (Suc (tick w))), fileHash = sha256 e c,
                 backupProjectId = pid, backupReason = rsn\<rparr>"
    define w5 where "w5 = dbCreateBackup be w3"
    define B where "B = backups (initialize w)"
    define D where "D = toDelete pid (retentionCount opts) (map snd (backups w5))"
    have bf: "backupId be = ?bid" "backupPath be = ?bp" "fileHash be = sha256 e c"
      "originalPath be = relCwd e orig" "backupProjectId be = pid"
      by (simp_all add: be_def)
    have cp': "copyBytes e c = Some c'" using cp by (auto simp: c'_def)
    have hh': "sha256 e c' = fileHash be" using hh by (simp add: c'_def bf)
    have i5: "initialized w5" and m5: "map_of (backups w5) (backupId be) = Some be"
      and d5: "bdir w5 = bdir w3"
      using dbCreateBackup_fields[of be w3] by (simp_all add: w5_def)
    have f5: "bdir w5 (backupPath be) = Some c'" by (simp add: d5 w3_def bf c'_def)
    have b5: "backups w5 = AList.update (backupId be) be B"
      unfolding w5_def dbCreateBackup_backups w3_def backups_initialize_frame B_def by (rule refl)
    have w'': "w' = (if autoCleanup opts then cleanupOldBackups pid (retentionCount opts) w5 else w5)"
      using w' by (simp add: Let_def w5_def w3_def be_def)
    have pr: "pruned opts pid be w = (if autoCleanup opts then D else [])"
      by (simp add: pruned_def D_def b5 B_def)
    have keepE: "be' = be" if "map_of (backups w') (backupId be) = Some be'" for be'
    proof (cases "autoCleanup opts")
      case True
      with w'' that
      have "map_of (backups (cleanupOldBackups pid (retentionCount opts) w5)) (backupId be) = Some be'"
        by simp
      with cleanup_keeps_only[OF i5, of pid "retentionCount opts" "backupId be" be' "backupPath be" undefined]
      have "map_of (backups w5) (backupId be) = Some be'" by blast
      then show ?thesis unfolding m5 by simp
    next
      case False
      then show ?thesis using m5 w'' that by simp
    qed
    have keepF: "c'' = c'" if "bdir w' (backupPath be) = Some c''" for c''
    proof (cases "autoCleanup opts")
      case True
      with w'' that
      have "bdir (cleanupOldBackups pid (retentionCount opts) w5) (backupPath be) = Some c''"
        by simp
      with cleanup_keeps_only[OF i5, of pid "retentionCount opts" "backupId be" be "backupPath be" c'']
      have "bdir w5 (backupPath be) = Some c''" by blast
      then show ?thesis unfolding f5 by simp
    next
      case False
      then show ?thesis using f5 w'' that by simp
    qed
    have off: "\<not> autoCleanup opts \<longrightarrow>
                   map_of (backups w') (backupId be) = Some be \<and> bdir w' (backupPath be) = Some c'"
      using m5 f5 w'' by simp
    have wfp: "map_of (backups w') (backupId be) =
                     (if be \<in> set (pruned opts pid be w) then None else Some be) \<and>
                   bdir w' (backupPath be) =
                     (if backupPath be \<in> backupPath ` set (pruned opts pid be w) then None
                      else Some c') \<and>
                   (1 \<le> retentionCount opts \<and>
                    (\<forall>b \<in> set (map snd (backups (initialize w))).
                        backupId b \<noteq> backupId be \<and> backupPath b \<noteq> backupPath be \<and>
                        (backupProjectId b = pid \<and> originalPath b = originalPath be \<longrightarrow>
                           createdAt b < createdAt be)) \<longrightarrow>
                    map_of (backups w') (backupId be) = Some be \<and>
                    bdir w' (backupPath be) = Some c')"
      if wf: "wellFormed w"
    proof -
      have ok0: "keysOk (initialize w)" using wf by (rule keysOk_initialize)
      have dB: "distinct (map fst B)" and kB: "\<forall>kb \<in> set B. fst kb = backupId (snd kb)"
        using ok0 by (simp_all add: keysOk_def B_def)
      have dk: "distinct (map fst (backups w5))" unfolding b5 using dB by (rule distinct_update)
      have kk: "\<forall>kb \<in> set (backups w5). fst kb = backupId (snd kb)"
        unfolding b5 using kB by (rule update_keyed)
      note ex = cleanup_exact[OF i5 dk kk m5, of pid "retentionCount opts" "backupPath be",
          folded D_def, unfolded f5]
      have 1: "map_of (backups w') (backupId be) =
                     (if be \<in> set (pruned opts pid be w) then None else Some be)"
        using ex m5 by (simp add: w'' pr)
      have 2: "bdir w' (backupPath be) =
                     (if backupPath be \<in> backupPath ` set (pruned opts pid be w) then None
                      else Some c')"
        using ex f5 by (simp add: w'' pr)
      have 3: "map_of (backups w') (backupId be) = Some be \<and> bdir w' (backupPath be) = Some c'"
        if n: "1 \<le> retentionCount opts"
          and old: "\<forall>b \<in> set (map snd B).
                        backupId b \<noteq> backupId be \<and> backupPath b \<noteq> backupPath be \<and>
                        (backupProjectId b = pid \<and> originalPath b = originalPath be \<longrightarrow>
                           createdAt b < createdAt be)"
      proof -
        have fresh: "backupId be \<notin> fst ` set B"
        proof
          assume "backupId be \<in> fst ` set B"
          then obtain kb where kb: "kb \<in> set B" "fst kb = backupId be" by auto
          with kB have "backupId (snd kb) = backupId be" by simp
          moreover from kb(1) have "snd kb \<in> set (map snd B)" by simp
          ultimately show False using old by blast
        qed
        have E: "map snd (backups w5) = map snd B @ [be]"
          unfolding b5 by (simp add: update_fresh[OF fresh])
        have "distinct (map backupId (map snd B))"
        proof -
          have eq: "map backupId (map snd B) = map fst B" using kB by simp
          show ?thesis unfolding eq by (rule dB)
        qed
        then have ds: "distinct (map snd B)" unfolding distinct_map by blast
        have ne: "be \<notin> set (map snd B)" using old by blast
        have nw: "\<forall>b \<in> set (map snd B). backupProjectId b = pid \<and> originalPath b = originalPath be \<longrightarrow>
                  createdAt b < createdAt be" using old by blast
        have nD: "be \<notin> set D"
          unfolding D_def E using n ds ne bf(5) nw by (rule newest_not_pruned)
        have sub: "set D \<subseteq> set (map snd B) \<union> {be}"
          using toDelete_subset[of pid "retentionCount opts" "map snd (backups w5)"]
          unfolding D_def E by auto
        have nP: "backupPath be \<notin> backupPath ` set D"
        proof
          assume "backupPath be \<in> backupPath ` set D"
          then obtain x where x: "x \<in> set D" "backupPath x = backupPath be" by auto
          with nD have "x \<noteq> be" by auto
          with x(1) sub have "x \<in> set (map snd B)" by auto
          with old x(2) show False by blast
        qed
        have "be \<notin> set (pruned opts pid be w)"
          "backupPath be \<notin> backupPath ` set (pruned opts pid be w)"
          using nD nP by (auto simp: pr)
        then show ?thesis using 1 2 by simp
      qed
      show ?thesis using 1 2 3 unfolding B_def by blast
    qed
    have r1: "resultBackupId r = Some (backupId be)"
      and r2: "resultBackupPath r = Some (backupPath be)"
      by (simp_all add: r bf)
    have hd: "\<exists>w5. map_of (backups w5) (backupId be) = Some be \<and>
                      bdir w5 (backupPath be) = Some c' \<and>
                      w' = (if autoCleanup opts
                            then cleanupOldBackups pid (retentionCount opts) w5 else w5)"
      using m5 f5 w'' by blast
    have kE: "\<forall>be'. map_of (backups w') (backupId be) = Some be' \<longrightarrow> be' = be"
      using keepE by blast
    have kF: "\<forall>c''. bdir w' (backupPath be) = Some c'' \<longrightarrow> c'' = c'"
      using keepF by blast
    have wfi: "wellFormed w \<longrightarrow>
                   map_of (backups w') (backupId be) =
                     (if be \<in> set (pruned opts pid be w) then None else Some be) \<and>
                   bdir w' (backupPath be) =
                     (if backupPath be \<in> backupPath ` set (pruned opts pid be w) then None
                      else Some c') \<and>
                   (1 \<le> retentionCount opts \<and>
                    (\<forall>b \<in> set (map snd (backups (initialize w))).
                        backupId b \<noteq> backupId be \<and> backupPath b \<noteq> backupPath be \<and>
                        (backupProjectId b = pid \<and> originalPath b = originalPath be \<longrightarrow>
                           createdAt b < createdAt be)) \<longrightarrow>
                    map_of (backups w') (backupId be) = Some be \<and>
                    bdir w' (backupPath be) = Some c')"
      using wfp by (rule impI)
    show ?thesis
      by (intro exI[of _ c] exI[of _ m] exI[of _ c'] exI[of _ be] conjI)
         (rule f, rule cp', rule r1, rule r2, rule bf(3), rule hh', rule bf(4), rule bf(5),
          rule hd, rule kE, rule kF, rule off, rule wfi)
  qed
  have part2: "\<not> success r \<and>
              bdir w' (backupFileName e orig (clock e (Suc (tick w))) (randomId e (tick w))) = None \<and>
              backups w' = backups w \<and> syncStates w' = syncStates w \<and> dbFile w' = dbFile w \<and>
              initialized w' = initialized w"
    if "map_of (tree w) orig = Some (File c m)" "copyBytes e c = Some c'"
       "sha256 e c' \<noteq> sha256 e c" for c m c'
    using that en cb
    by (auto simp: createBackup_def randomHex_def newDate_def Let_def)
  show ?thesis using part1 part2 by blast
qed


theorem createBackup_integrity_witness:
  "enabled (exOptions 5) \<and> wellFormed exTreeWorld \<and> 1 \<le> retentionCount (exOptions 5) \<and>
   autoCleanup (exOptions 5) \<and>
   success (fst (createBackup exEnv (exOptions 5) ''P'' ''a.txt'' ''sync'' exTreeWorld)) \<and>
   \<not> success (fst (createBackup exCorruptEnv (exOptions 5) ''P'' ''a.txt'' ''sync'' exTreeWorld)) \<and>
   backups (snd (createBackup exCorruptEnv (exOptions 5) ''P'' ''a.txt'' ''sync'' exTreeWorld)) = [] \<and>
   (\<exists>be c'.
       resultBackupId (fst (createBackup exEnv (exOptions 5) ''P'' ''a.txt'' ''sync'' exTreeWorld)) =
         Some (backupId be) \<and>
       resultBackupPath (fst (createBackup exEnv (exOptions 5) ''P'' ''a.txt'' ''sync'' exTreeWorld)) =
         Some (backupPath be) \<and>
       fileHash be = ''new'' \<and> sha256 exEnv c' = fileHash be \<and>
       map_of (backups (snd (createBackup exEnv (exOptions 5) ''P'' ''a.txt'' ''sync'' exTreeWorld)))
         (backupId be) = Some be \<and>
       bdir (snd (createBackup exEnv (exOptions 5) ''P'' ''a.txt'' ''sync'' exTreeWorld))
         (backupPath be) = Some c')"
proof -
  let ?r = "fst (createBackup exEnv (exOptions 5) ''P'' ''a.txt'' ''sync'' exTreeWorld)"
  let ?w' = "snd (createBackup exEnv (exOptions 5) ''P'' ''a.txt'' ''sync'' exTreeWorld)"
  have en: "enabled (exOptions 5)" and n: "1 \<le> retentionCount (exOptions 5)"
    and ac: "autoCleanup (exOptions 5)"
    by (simp_all add: exOptions_def)
  have wf: "wellFormed exTreeWorld"
    by (simp add: wellFormed_def keysOk_def exTreeWorld_def exWorld_def)
  have t: "map_of (tree exTreeWorld) ''a.txt'' = Some (File ''new'' 40)"
    by (simp add: exTreeWorld_def exWorld_def)
  have ok: "success ?r"
    using t by (simp add: createBackup_def exOptions_def exEnv_def randomHex_def newDate_def Let_def)
  have cp: "copyBytes exCorruptEnv ''new'' = Some ''new!''" "sha256 exCorruptEnv ''new!'' \<noteq> sha256 exCorruptEnv ''new''"
    by (simp_all add: exCorruptEnv_def exEnv_def)
  have e0: "backups exTreeWorld = []" by (simp add: exTreeWorld_def exWorld_def)
  have bi: "map snd (backups (initialize exTreeWorld)) = []"
    by (simp add: initialize_def exTreeWorld_def exWorld_def)
  have sh: "sha256 exEnv ''new'' = ''new''" by (simp add: exEnv_def)
  note A = createBackup_integrity[OF en surjective_pairing, of exEnv "''P''" "''a.txt''" "''sync''" exTreeWorld]
  note B = createBackup_integrity[OF en surjective_pairing, of exCorruptEnv "''P''" "''a.txt''" "''sync''" exTreeWorld]
  from B t cp e0
  have b: "\<not> success (fst (createBackup exCorruptEnv (exOptions 5) ''P'' ''a.txt'' ''sync'' exTreeWorld)) \<and>
      backups (snd (createBackup exCorruptEnv (exOptions 5) ''P'' ''a.txt'' ''sync'' exTreeWorld)) = []"
    by metis
  from A[THEN conjunct1, THEN mp, OF ok] obtain c m c' be where
    a1: "map_of (tree exTreeWorld) ''a.txt'' = Some (File c m)" and
    a2: "copyBytes exEnv c = Some c'" and
    a3: "resultBackupId ?r = Some (backupId be)" and
    a4: "resultBackupPath ?r = Some (backupPath be)" and
    a5: "fileHash be = sha256 exEnv c" and
    a6: "sha256 exEnv c' = fileHash be" and
    a7: "originalPath be = relCwd exEnv ''a.txt''" and
    a8: "backupProjectId be = ''P''" and
    a8': "\<exists>w5. map_of (backups w5) (backupId be) = Some be \<and>
                      bdir w5 (backupPath be) = Some c' \<and>
                      ?w' = (if autoCleanup (exOptions 5)
                            then cleanupOldBackups ''P'' (retentionCount (exOptions 5)) w5 else w5)" and
    a9: "\<forall>be'. map_of (backups ?w') (backupId be) = Some be' \<longrightarrow> be' = be" and
    a10: "\<forall>c''. bdir ?w' (backupPath be) = Some c'' \<longrightarrow> c'' = c'" and
    a11: "\<not> autoCleanup (exOptions 5) \<longrightarrow>
                   map_of (backups ?w') (backupId be) = Some be \<and>
                   bdir ?w' (backupPath be) = Some c'" and
    a12: "wellFormed exTreeWorld \<longrightarrow>
                   map_of (backups ?w') (backupId be) =
                     (if be \<in> set (pruned (exOptions 5) ''P'' be exTreeWorld) then None else Some be) \<and>
                   bdir ?w' (backupPath be) =
                     (if backupPath be \<in> backupPath ` set (pruned (exOptions 5) ''P'' be exTreeWorld) then None
                      else Some c') \<and>
                   (1 \<le> retentionCount (exOptions 5) \<and>
                    (\<forall>b \<in> set (map snd (backups (initialize exTreeWorld))).
                        backupId b \<noteq> backupId be \<and> backupPath b \<noteq> backupPath be \<and>
                        (backupProjectId b = ''P'' \<and> originalPath b = originalPath be \<longrightarrow>
                           createdAt b < createdAt be)) \<longrightarrow>
                    map_of (backups ?w') (backupId be) = Some be \<and>
                    bdir ?w' (backupPath be) = Some c')"
    by blast
  from a1 t have c: "c = ''new''" by simp
  have h: "fileHash be = ''new''" using a5 c sh by simp
  have pre: "\<forall>b \<in> set (map snd (backups (initialize exTreeWorld))).
                        backupId b \<noteq> backupId be \<and> backupPath b \<noteq> backupPath be \<and>
                        (backupProjectId b = ''P'' \<and> originalPath b = originalPath be \<longrightarrow>
                           createdAt b < createdAt be)"
    unfolding bi by simp
  from a12 wf n pre
  have k: "map_of (backups ?w') (backupId be) = Some be \<and> bdir ?w' (backupPath be) = Some c'"
    by blast
  have "\<exists>be c'. resultBackupId ?r = Some (backupId be) \<and> resultBackupPath ?r = Some (backupPath be) \<and>
       fileHash be = ''new'' \<and> sha256 exEnv c' = fileHash be \<and>
       map_of (backups ?w') (backupId be) = Some be \<and> bdir ?w' (backupPath be) = Some c'"
    using a3 a4 h a6 k by blast
  then show ?thesis using en wf n ac ok b by blast
qed

lemma exTreeWorld_backup:
  "createBackup exEnv (exOptions n) ''P'' ''a.txt'' ''sync'' exTreeWorld =
     (succeeded (Some ''a'') (Some ''/b/a.txt.T.a.bak''),
      cleanupOldBackups ''P'' n
        (exTreeWorld\<lparr>bdir := [''/b/a.txt.T.a.bak'' \<mapsto> ''new''],
            tick := 3,
            backups := [(''a'', \<lparr>backupId = ''a'', originalPath = ''a.txt'',
                 backupPath = ''/b/a.txt.T.a.bak'', createdAt = 1002, fileHash = ''new'',
                 backupProjectId = ''P'', backupReason = ''sync''\<rparr>)],
            dbFile := Some ([], [\<lparr>backupId = ''a'', originalPath = ''a.txt'',
                 backupPath = ''/b/a.txt.T.a.bak'', createdAt = 1002, fileHash = ''new'',
                 backupProjectId = ''P'', backupReason = ''sync''\<rparr>])\<rparr>))"
  by (simp add: createBackup_def exOptions_def exTreeWorld_def exWorld_def exEnv_def
        randomHex_def newDate_def backupFileName_def dbCreateBackup_def save_def Let_def
        fun_eq_iff numeral_3_eq_3)

text \<open>
  Claim C3 as stated fails when the cleanup at the end of the call prunes the backup it
  has just made: with \<open>retentionCount = 0\<close> the call returns success with an id and a
  path, and afterwards there is neither a record nor a backup file.
\<close>

theorem createBackup_pruned_counterexample:
  "enabled (exOptions 0) \<and>
   success (fst (createBackup exEnv (exOptions 0) ''P'' ''a.txt'' ''sync'' exTreeWorld)) \<and>
   resultBackupId (fst (createBackup exEnv (exOptions 0) ''P'' ''a.txt'' ''sync'' exTreeWorld)) = Some ''a'' \<and>
   resultBackupPath (fst (createBackup exEnv (exOptions 0) ''P'' ''a.txt'' ''sync'' exTreeWorld)) =
      Some ''/b/a.txt.T.a.bak'' \<and>
   backups (snd (createBackup exEnv (exOptions 0) ''P'' ''a.txt'' ''sync'' exTreeWorld)) = [] \<and>
   bdir (snd (createBackup exEnv (exOptions 0) ''P'' ''a.txt'' ''sync'' exTreeWorld))
      ''/b/a.txt.T.a.bak'' = None"
  unfolding exTreeWorld_backup
  by (simp add: exOptions_def cleanupOldBackups_def toDelete_def sliceFrom_def newestFirst_def
        firstOccurrences_def dbDeleteBackup_def save_def initialize_def exTreeWorld_def exWorld_def
        Let_def)


lemma tree_initialize [simp]: "tree (initialize w) = tree w"
  by (simp add: initialize_def split: option.splits prod.splits)

lemma online_initialize [simp]: "online (initialize w) = online w"
  by (simp add: initialize_def split: option.splits prod.splits)

lemma remoteFiles_initialize [simp]: "remoteFiles (initialize w) = remoteFiles w"
  by (simp add: initialize_def split: option.splits prod.splits)

lemma canRead_initialize [simp]: "canRead (initialize w) = canRead w"
  by (simp add: initialize_def split: option.splits prod.splits)

lemma initialize_twice [simp]: "initialize (initialize w) = initialize w"
  by simp

lemma validateLocalFile_round:
  "vWorld (validateLocalFile e pid p v) = initialize (vWorld v) \<and>
   vConflicts (validateLocalFile e pid p v) =
     vConflicts v @ localFileConflicts e pid (initialize (vWorld v)) p \<and>
   set (vIssues v) \<subseteq> set (vIssues (validateLocalFile e pid p v))"
  by (auto simp: validateLocalFile_def getFileState_def Let_def localFileConflicts_def
        calculateFileHash_def statMtime_def pushIssue_def pushConflict_def
        split: option.splits node.splits)

lemma validateLocalFile_fold:
  "vConflicts (fold (validateLocalFile e pid) ps v) =
     vConflicts v @ concat (map (localFileConflicts e pid (initialize (vWorld v))) ps) \<and>
   set (vIssues v) \<subseteq> set (vIssues (fold (validateLocalFile e pid) ps v)) \<and>
   vWorld (fold (validateLocalFile e pid) ps v) = (if ps = [] then vWorld v else initialize (vWorld v))"
proof (induction ps arbitrary: v)
  case Nil then show ?case by simp
next
  case (Cons p ps)
  note r = validateLocalFile_round[of e pid p v]
  note ih = Cons.IH[of "validateLocalFile e pid p v"]
  show ?case using r ih by (auto simp: )
qed

lemma localFileConflicts_path:
  "k \<in> set (localFileConflicts e pid w q) \<Longrightarrow> conflictPath k = q \<and> conflictType k = local_newer"
  by (auto simp: localFileConflicts_def split: option.splits node.splits if_splits)

lemma regularFiles_member:
  "map_of (tree w) p = Some (File c m) \<Longrightarrow> p \<in> set (regularFiles w)"
proof -
  assume "map_of (tree w) p = Some (File c m)"
  then have "(p, File c m) \<in> set (tree w)" by (rule map_of_SomeD)
  then show ?thesis by (force simp: regularFiles_def)
qed

lemma validateLocalFiles_conflicts:
  assumes "canRead (vWorld v)"
  shows "vConflicts (validateLocalFiles e pid v) =
         vConflicts v @ concat (map (localFileConflicts e pid (initialize (vWorld v)))
                                    (filter (\<lambda>p. \<not> ignored e p) (regularFiles (vWorld v))))"
  using assms validateLocalFile_fold[of e pid "filter (\<lambda>p. \<not> ignored e p) (regularFiles (vWorld v))"
      "v\<lparr>vStats := (vStats v)\<lparr>localFiles := length (filter (\<lambda>p. \<not> ignored e p) (regularFiles (vWorld v)))\<rparr>\<rparr>"]
  by (simp add: validateLocalFiles_def validatorLocalFiles_def)

text \<open>
  Claim C4, as the code has it.  In \<^verbatim>\<open>validateLocalFiles\<close>, for a scanned local file
  whose live hash differs from the stored hash, a conflict is flagged for its path exactly
  when the stored entry has a remote modification time and the file's own modification
  time is newer than the last sync time; every conflict of this pass is of type
  \<open>local_newer\<close>.  Otherwise the file produces no conflict.
\<close>

theorem validateLocalFiles_local_newer:
  assumes scan: "canRead (vWorld v)" and nc: "vConflicts v = []"
    and f: "map_of (tree (vWorld v)) p = Some (File c m)" and ni: "\<not> ignored e p"
    and st: "map_of (syncStates (initialize (vWorld v))) (getStateKey pid p) = Some st"
    and h: "sha256 e c \<noteq> localHash st"
  shows "((\<exists>k \<in> set (vConflicts (validateLocalFiles e pid v)). conflictPath k = p) \<longleftrightarrow>
            remoteMtime st \<noteq> None \<and> lastSyncTime st < m) \<and>
         (\<forall>k \<in> set (vConflicts (validateLocalFiles e pid v)). conflictType k = local_newer)"
proof -
  let ?w = "initialize (vWorld v)"
  let ?fs = "filter (\<lambda>p. \<not> ignored e p) (regularFiles (vWorld v))"
  have cs: "vConflicts (validateLocalFiles e pid v) = concat (map (localFileConflicts e pid ?w) ?fs)"
    using validateLocalFiles_conflicts[OF scan, of e pid] nc by simp
  have pin: "p \<in> set ?fs" using regularFiles_member[OF f] ni by simp
  have own: "localFileConflicts e pid ?w p \<noteq> [] \<longleftrightarrow> remoteMtime st \<noteq> None \<and> lastSyncTime st < m"
    using f st h by (simp add: localFileConflicts_def)
  have "(\<exists>k \<in> set (vConflicts (validateLocalFiles e pid v)). conflictPath k = p) \<longleftrightarrow>
        localFileConflicts e pid ?w p \<noteq> []"
  proof
    assume "\<exists>k \<in> set (vConflicts (validateLocalFiles e pid v)). conflictPath k = p"
    then obtain k q where "k \<in> set (localFileConflicts e pid ?w q)" "conflictPath k = p"
      unfolding cs by auto
    with localFileConflicts_path[of k e pid ?w q] have "k \<in> set (localFileConflicts e pid ?w p)"
      by simp
    then show "localFileConflicts e pid ?w p \<noteq> []" by auto
  next
    assume "localFileConflicts e pid ?w p \<noteq> []"
    then obtain k where k: "k \<in> set (localFileConflicts e pid ?w p)"
      by (cases "localFileConflicts e pid ?w p") auto
    with localFileConflicts_path[OF k] pin
    show "\<exists>k \<in> set (vConflicts (validateLocalFiles e pid v)). conflictPath k = p"
      unfolding cs by auto
  qed
  moreover have "\<forall>k \<in> set (vConflicts (validateLocalFiles e pid v)). conflictType k = local_newer"
    unfolding cs by (auto dest: localFileConflicts_path)
  ultimately show ?thesis using own by simp
qed

lemma exConflictWorld_conflicts:
  "vConflicts (validateLocalFiles exEnv ''P'' (exVstate exConflictWorld)) =
     [\<lparr>conflictPath = ''a.txt'', conflictType = local_newer,
       conflictLocalMtime = Some 20, conflictRemoteMtime = Some 5,
       conflictLastSyncTime = Some 10, conflictLocalHash = Some ''new'',
       conflictRemoteHash = Some ''old''\<rparr>]"
  by (simp add: validateLocalFiles_def validatorLocalFiles_def regularFiles_def exVstate_def
        exConflictWorld_def exWorld_def exEnv_def validateLocalFile_def getFileState_def
        getStateKey_def initialize_def calculateFileHash_def statMtime_def exEntry_def
        pushConflict_def Let_def)

theorem validateLocalFiles_local_newer_witness:
  "canRead (vWorld (exVstate exConflictWorld)) \<and> vConflicts (exVstate exConflictWorld) = [] \<and>
   map_of (tree (vWorld (exVstate exConflictWorld))) ''a.txt'' = Some (File ''new'' 20) \<and>
   \<not> ignored exEnv ''a.txt'' \<and>
   sha256 exEnv ''new'' \<noteq> localHash (exEntry ''a.txt'' ''old'' (Some 5) 10) \<and>
   (\<exists>k \<in> set (vConflicts (validateLocalFiles exEnv ''P'' (exVstate exConflictWorld))).
       conflictPath k = ''a.txt'') \<and>
   map conflictType (vConflicts (validateLocalFiles exEnv ''P'' (exVstate exConflictWorld))) =
     [local_newer]"
proof -
  have t: "map conflictType (vConflicts (validateLocalFiles exEnv ''P'' (exVstate exConflictWorld))) =
     [local_newer]"
    unfolding exConflictWorld_conflicts by simp
  have a: "canRead (vWorld (exVstate exConflictWorld))" "vConflicts (exVstate exConflictWorld) = []"
    "map_of (tree (vWorld (exVstate exConflictWorld))) ''a.txt'' = Some (File ''new'' 20)"
    "\<not> ignored exEnv ''a.txt''"
    by (simp_all add: exVstate_def exConflictWorld_def exWorld_def exEnv_def)
  have b: "map_of (syncStates (initialize (vWorld (exVstate exConflictWorld)))) (getStateKey ''P'' ''a.txt'')
       = Some (exEntry ''a.txt'' ''old'' (Some 5) 10)"
    by (simp add: exVstate_def exConflictWorld_def exWorld_def initialize_def getStateKey_def)
  have c: "sha256 exEnv ''new'' \<noteq> localHash (exEntry ''a.txt'' ''old'' (Some 5) 10)"
    by (simp add: exEnv_def exEntry_def)
  have d: "remoteMtime (exEntry ''a.txt'' ''old'' (Some 5) 10) \<noteq> None \<and>
           lastSyncTime (exEntry ''a.txt'' ''old'' (Some 5) 10) < 20"
    by (simp add: exEntry_def)
  from validateLocalFiles_local_newer[OF a(1) a(2) a(3) a(4) b c] d a c t
  show ?thesis by blast
qed

text \<open>
  Claim C4 as stated fails: the stored remote modification time (5) is older than the last
  sync time (10), yet the changed file is flagged as a conflict, because its own
  modification time (20) is newer than the last sync time.
\<close>

theorem validateLocalFiles_conflict_counterexample:
  "remoteMtime (exEntry ''a.txt'' ''old'' (Some 5) 10) = Some 5 \<and>
   lastSyncTime (exEntry ''a.txt'' ''old'' (Some 5) 10) = 10 \<and>
   syncStates exConflictWorld = [(''P:a.txt'', exEntry ''a.txt'' ''old'' (Some 5) 10)] \<and>
   tree exConflictWorld = [(''a.txt'', File ''new'' 20)] \<and>
   map conflictPath (vConflicts (validateLocalFiles exEnv ''P'' (exVstate exConflictWorld))) = [''a.txt''] \<and>
   map conflictPath (conflicts (fst (validate exEnv exValidatorOptions ''P'' DirUpload exConflictWorld)))
     = [''a.txt'']"
proof -
  have r: "runChecks exEnv exValidatorOptions ''P'' DirUpload exConflictWorld =
           validateLocalFiles exEnv ''P'' (exVstate exConflictWorld)"
    by (simp add: runChecks_def exValidatorOptions_def exVstate_def checkDiskSpaceIssues_def
          checkPermissionsIssues_def checkGitStatusIssues_def checkNetworkConnectivityIssues_def
          exConflictWorld_def exWorld_def Let_def)
  have v: "conflicts (fst (validate exEnv exValidatorOptions ''P'' DirUpload exConflictWorld)) =
           vConflicts (validateLocalFiles exEnv ''P'' (exVstate exConflictWorld))"
    by (simp add: validate_def r Let_def)
  show ?thesis unfolding v exConflictWorld_conflicts
    by (simp add: exEntry_def exConflictWorld_def exWorld_def)
qed

lemma validateLocalFiles_issues:
  "set (vIssues v) \<subseteq> set (vIssues (validateLocalFiles e pid v))"
proof (cases "validatorLocalFiles e (vWorld v)")
  case None
  then show ?thesis by (auto simp: validateLocalFiles_def pushIssue_def)
next
  case (Some fs)
  then show ?thesis
    using validateLocalFile_fold[of e pid fs "v\<lparr>vStats := (vStats v)\<lparr>localFiles := length fs\<rparr>\<rparr>"]
    by (simp add: validateLocalFiles_def)
qed

lemma validateRemoteFile_issues: "vIssues (validateRemoteFile pid rf v) = vIssues v"
  by (simp add: validateRemoteFile_def getFileState_def Let_def pushConflict_def
        split: option.splits)

lemma validateRemoteFile_fold_issues: "vIssues (fold (validateRemoteFile pid) rfs v) = vIssues v"
  by (induction rfs arbitrary: v) (simp_all add: validateRemoteFile_issues)

lemma validateRemoteFiles_issues:
  "set (vIssues v) \<subseteq> set (vIssues (validateRemoteFiles pid v))"
  by (auto simp: validateRemoteFiles_def pushIssue_def validateRemoteFile_fold_issues
        split: option.splits)

lemma detectConflicts_issues:
  "detectConflicts pid v = Some v' \<Longrightarrow> vIssues v' = vIssues v"
proof -
  have f: "vIssues (fold (\<lambda>st v'. if P st then v' else if Q st then pushConflict (c st) v' else v') sts v0)
           = vIssues v0" for P Q c sts and v0 :: vstate
    by (induction sts arbitrary: v0) (simp_all add: pushConflict_def)
  assume "detectConflicts pid v = Some v'"
  then show ?thesis
    by (auto simp: detectConflicts_def listFileStates_def Let_def f split: option.splits)
qed

lemma runChecks_issues:
  "set ((if checkDiskSpace opts then checkDiskSpaceIssues w else []) @
        (if checkPermissions opts then checkPermissionsIssues w else []) @
        (if checkGitStatus opts then checkGitStatusIssues w else []) @
        (if checkNetworkConnectivity opts then checkNetworkConnectivityIssues w else []))
   \<subseteq> set (vIssues (runChecks e opts pid dir w))"
proof -
  define i0 where "i0 = (if checkDiskSpace opts then checkDiskSpaceIssues w else []) @
        (if checkPermissions opts then checkPermissionsIssues w else []) @
        (if checkGitStatus opts then checkGitStatusIssues w else []) @
        (if checkNetworkConnectivity opts then checkNetworkConnectivityIssues w else [])"
  define v0 where "v0 = \<lparr>vIssues = i0,
                vStats = \<lparr>localFiles = 0, remoteFilesSeen = 0, conflictFiles = 0,
                           newLocalFiles = 0, newRemoteFiles = 0, unchangedFiles = 0\<rparr>,
                vConflicts = [], vWorld = w\<rparr>"
  define v1 where "v1 = (if dir = DirUpload \<or> dir = DirBoth then validateLocalFiles e pid v0 else v0)"
  define v2 where "v2 = (if dir = DirDownload \<or> dir = DirBoth then validateRemoteFiles pid v1 else v1)"
  have 0: "vIssues v0 = i0" by (simp add: v0_def)
  have 1: "set (vIssues v0) \<subseteq> set (vIssues v1)"
    using validateLocalFiles_issues[of v0 e pid] by (simp add: v1_def)
  have 2: "set (vIssues v1) \<subseteq> set (vIssues v2)"
    using validateRemoteFiles_issues[of v1 pid] by (simp add: v2_def)
  have r: "runChecks e opts pid dir w =
       (if dir = DirBoth
         then (case detectConflicts pid v2 of
                 Some v3 \<Rightarrow> v3
               | None \<Rightarrow>
                   pushIssue (issue IssueError ''VALIDATION_ERROR'' ''Validation failed''
                                None ''Check your configuration and try again'')
                     (v2\<lparr>vWorld := initialize (vWorld v2)\<rparr>))
         else v2)"
    unfolding runChecks_def Let_def v2_def v1_def v0_def i0_def by (rule refl)
  have 3: "set (vIssues v2) \<subseteq> set (vIssues (runChecks e opts pid dir w))"
    unfolding r
    by (auto simp: pushIssue_def dest: detectConflicts_issues split: option.splits)
  have "set i0 \<subseteq> set (vIssues (runChecks e opts pid dir w))"
    using 0 1 2 3 by simp
  then show ?thesis unfolding i0_def .
qed

text \<open>
  Claim C7.  In the result of \<^verbatim>\<open>validate\<close>, \<open>canProceed\<close> is false whenever the issues
  hold one of severity error, and whenever the number of conflicts exceeds
  \<open>maxConflictCount\<close> and the force flag is not set; it is true in every other case.  The
  error issues of the environment checks reach the result: too little disk space, a
  local root that cannot be read or written, and an unreachable remote side each make
  \<open>canProceed\<close> false when their check is switched on.
\<close>

theorem validate_canProceed:
  "((\<exists>i \<in> set (issues (fst (validate e opts pid dir w))). issueType i = IssueError) \<longrightarrow>
       \<not> canProceed (fst (validate e opts pid dir w))) \<and>
   (int (length (conflicts (fst (validate e opts pid dir w)))) > maxConflictCount opts \<and>
      \<not> allowForce opts \<longrightarrow> \<not> canProceed (fst (validate e opts pid dir w))) \<and>
   (canProceed (fst (validate e opts pid dir w)) \<longleftrightarrow>
      \<not> (\<exists>i \<in> set (issues (fst (validate e opts pid dir w))). issueType i = IssueError) \<and>
      (int (length (conflicts (fst (validate e opts pid dir w)))) \<le> maxConflictCount opts \<or>
       allowForce opts)) \<and>
   (checkDiskSpace opts \<and> (\<exists>a. diskAvailable w = Some a \<and> a < 100 * 1024 * 1024) \<longrightarrow>
       \<not> canProceed (fst (validate e opts pid dir w))) \<and>
   (checkPermissions opts \<and> \<not> (canRead w \<and> canWrite w) \<longrightarrow>
       \<not> canProceed (fst (validate e opts pid dir w))) \<and>
   (checkNetworkConnectivity opts \<and> \<not> online w \<longrightarrow>
       \<not> canProceed (fst (validate e opts pid dir w)))"
proof -
  let ?r = "fst (validate e opts pid dir w)"
  have i: "issues ?r = vIssues (runChecks e opts pid dir w)"
    and c: "conflicts ?r = vConflicts (runChecks e opts pid dir w)"
    and p: "canProceed ?r \<longleftrightarrow>
      \<not> (\<exists>i \<in> set (issues ?r). issueType i = IssueError) \<and>
      (int (length (conflicts ?r)) \<le> maxConflictCount opts \<or> allowForce opts)"
    by (auto simp: validate_def Let_def)
  note sub = runChecks_issues[of opts w e pid dir]
  have d: "\<exists>i \<in> set (issues ?r). issueType i = IssueError"
    if "checkDiskSpace opts" "diskAvailable w = Some a" "a < 100 * 1024 * 1024" for a
  proof -
    have "issue IssueError ''LOW_DISK_SPACE'' ''Insufficient disk space.'' None
                      ''Free up disk space before syncing'' \<in> set (issues ?r)"
      using sub that unfolding i by (auto simp: checkDiskSpaceIssues_def Let_def)
    then show ?thesis by (auto simp: issue_def intro!: bexI)
  qed
  have pe: "\<exists>i \<in> set (issues ?r). issueType i = IssueError"
    if "checkPermissions opts" "\<not> (canRead w \<and> canWrite w)"
  proof -
    have "issue IssueError ''PERMISSION_ERROR'' ''Insufficient permissions for the local path''
              None ''Check file permissions and ensure you have read/write access'' \<in> set (issues ?r)"
      using sub that unfolding i by (auto simp: checkPermissionsIssues_def)
    then show ?thesis by (auto simp: issue_def intro!: bexI)
  qed
  have n: "\<exists>i \<in> set (issues ?r). issueType i = IssueError"
    if "checkNetworkConnectivity opts" "\<not> online w"
  proof -
    have "issue IssueError ''NETWORK_ERROR'' ''Cannot connect to Claude API'' None
              ''Check your internet connection and API credentials'' \<in> set (issues ?r)"
      using sub that unfolding i by (auto simp: checkNetworkConnectivityIssues_def)
    then show ?thesis by (auto simp: issue_def intro!: bexI)
  qed
  show ?thesis using p d pe n by (intro conjI impI; (elim conjE exE)?; simp; blast?)
qed

theorem validate_canProceed_witness:
  "\<not> canProceed (fst (validate exEnv (exLimit 10 False) ''P'' DirUpload (exWorld\<lparr>online := False\<rparr>))) \<and>
   canProceed (fst (validate exEnv (exLimit 10 False) ''P'' DirUpload exConflictWorld)) \<and>
   \<not> canProceed (fst (validate exEnv (exLimit 0 False) ''P'' DirUpload exConflictWorld)) \<and>
   canProceed (fst (validate exEnv (exLimit 0 True) ''P'' DirUpload exConflictWorld))"
proof -
  have r: "runChecks exEnv (exLimit n f) ''P'' DirUpload exConflictWorld =
           validateLocalFiles exEnv ''P'' (exVstate exConflictWorld)" for n f
    by (simp add: runChecks_def exLimit_def exValidatorOptions_def exVstate_def checkDiskSpaceIssues_def
          checkPermissionsIssues_def checkGitStatusIssues_def checkNetworkConnectivityIssues_def
          exConflictWorld_def exWorld_def Let_def)
  have noIssues: "vIssues (validateLocalFiles exEnv ''P'' (exVstate exConflictWorld)) = []"
    by (simp add: validateLocalFiles_def validatorLocalFiles_def regularFiles_def exVstate_def
        exConflictWorld_def exWorld_def exEnv_def validateLocalFile_def getFileState_def
        getStateKey_def initialize_def calculateFileHash_def statMtime_def exEntry_def
        pushConflict_def Let_def)
  have vi: "issues (fst (validate exEnv (exLimit n f) ''P'' DirUpload exConflictWorld)) = []"
    and vc: "length (conflicts (fst (validate exEnv (exLimit n f) ''P'' DirUpload exConflictWorld))) = 1"
    for n f
    by (simp_all add: validate_def r Let_def noIssues exConflictWorld_conflicts)
  have o: "checkNetworkConnectivity (exLimit 10 False) \<and> \<not> online (exWorld\<lparr>online := False\<rparr>)"
    by (simp add: exLimit_def exValidatorOptions_def)
  have m: "maxConflictCount (exLimit n f) = n" "allowForce (exLimit n f) = f" for n f
    by (simp_all add: exLimit_def)
  have 1: "\<not> canProceed (fst (validate exEnv (exLimit 10 False) ''P'' DirUpload (exWorld\<lparr>online := False\<rparr>)))"
    using validate_canProceed[of exEnv "exLimit 10 False" "''P''" DirUpload "exWorld\<lparr>online := False\<rparr>"] o
    by blast
  have iff: "canProceed (fst (validate exEnv (exLimit n f) ''P'' DirUpload exConflictWorld)) \<longleftrightarrow>
      (1 \<le> n \<or> f)" for n f
  proof -
    from validate_canProceed[of exEnv "exLimit n f" "''P''" DirUpload exConflictWorld]
    have "canProceed (fst (validate exEnv (exLimit n f) ''P'' DirUpload exConflictWorld)) \<longleftrightarrow>
      \<not> (\<exists>i \<in> set (issues (fst (validate exEnv (exLimit n f) ''P'' DirUpload exConflictWorld))). issueType i = IssueError) \<and>
      (int (length (conflicts (fst (validate exEnv (exLimit n f) ''P'' DirUpload exConflictWorld)))) \<le> maxConflictCount (exLimit n f) \<or>
       allowForce (exLimit n f))"
      by blast
    then show ?thesis unfolding vi vc m by simp
  qed
  show ?thesis using 1 iff[of 10 False] iff[of 0 False] iff[of 0 True] by simp
qed


lemma planUploadFile_round:
  "planUploadFile e pid p ow = (fst ow @ uploadOpsFor e pid (initialize (snd ow)) p, initialize (snd ow))"
  by (auto simp: planUploadFile_def getFileState_def Let_def uploadOpsFor_def calculateFileHash_def
        split: option.splits node.splits)

lemma planUploadFile_fold:
  "fold (planUploadFile e pid) ps ow =
     (fst ow @ concat (map (uploadOpsFor e pid (initialize (snd ow))) ps),
      if ps = [] then snd ow else initialize (snd ow))"
proof (induction ps arbitrary: ow)
  case Nil then show ?case by simp
next
  case (Cons p ps)
  have "fold (planUploadFile e pid) (p # ps) ow =
        fold (planUploadFile e pid) ps (planUploadFile e pid p ow)" by simp
  also have "\<dots> = (fst (planUploadFile e pid p ow) @
        concat (map (uploadOpsFor e pid (initialize (snd (planUploadFile e pid p ow)))) ps),
      if ps = [] then snd (planUploadFile e pid p ow)
      else initialize (snd (planUploadFile e pid p ow)))" by (rule Cons.IH)
  also have "\<dots> = (fst ow @ concat (map (uploadOpsFor e pid (initialize (snd ow))) (p # ps)),
      if p # ps = [] then snd ow else initialize (snd ow))"
    unfolding planUploadFile_round by simp
  finally show ?case .
qed

lemma planUploadOperations_eq:
  "planUploadOperations e pid w =
     (if canRead w
      then (Some (concat (map (uploadOpsFor e pid (initialize w))
                           (filter (\<lambda>p. \<not> excluded e p) (regularFiles w)))),
            if filter (\<lambda>p. \<not> excluded e p) (regularFiles w) = [] then w else initialize w)
      else (None, w))"
  by (simp add: planUploadOperations_def getLocalFiles_def planUploadFile_fold)

lemma planDownloadFile_round:
  "planDownloadFile pid rf ow = (fst ow @ downloadOpsFor pid (initialize (snd ow)) rf, initialize (snd ow))"
  by (auto simp: planDownloadFile_def getFileState_def Let_def downloadOpsFor_def
        split: option.splits)

lemma planDownloadFile_fold:
  "fold (planDownloadFile pid) rfs ow =
     (fst ow @ concat (map (downloadOpsFor pid (initialize (snd ow))) rfs),
      if rfs = [] then snd ow else initialize (snd ow))"
proof (induction rfs arbitrary: ow)
  case Nil then show ?case by simp
next
  case (Cons rf rfs)
  have "fold (planDownloadFile pid) (rf # rfs) ow =
        fold (planDownloadFile pid) rfs (planDownloadFile pid rf ow)" by simp
  also have "\<dots> = (fst (planDownloadFile pid rf ow) @
        concat (map (downloadOpsFor pid (initialize (snd (planDownloadFile pid rf ow)))) rfs),
      if rfs = [] then snd (planDownloadFile pid rf ow)
      else initialize (snd (planDownloadFile pid rf ow)))" by (rule Cons.IH)
  also have "\<dots> = (fst ow @ concat (map (downloadOpsFor pid (initialize (snd ow))) (rf # rfs)),
      if rf # rfs = [] then snd ow else initialize (snd ow))"
    unfolding planDownloadFile_round by simp
  finally show ?case .
qed

lemma planDownloadOperations_eq:
  "planDownloadOperations pid w =
     (if online w
      then (Some (concat (map (downloadOpsFor pid (initialize w)) (map snd (remoteFiles w)))),
            if remoteFiles w = [] then w else initialize w)
      else (None, w))"
  by (simp add: planDownloadOperations_def listKnowledgeFiles_def planDownloadFile_fold)

lemma uploadOpsFor_props:
  "op \<in> set (uploadOpsFor e pid w p) \<Longrightarrow>
     opType op = upload \<and> filePath op = p \<and>
     (\<exists>c m. map_of (tree w) p = Some (File c m) \<and>
        (case map_of (syncStates w) (getStateKey pid p) of
           None \<Rightarrow> reason op = ''New local file''
         | Some st \<Rightarrow> reason op = ''Local file modified'' \<and> sha256 e c \<noteq> localHash st))"
proof (cases "map_of (tree w) p")
  case None
  assume "op \<in> set (uploadOpsFor e pid w p)"
  with None show ?thesis by (simp add: uploadOpsFor_def)
next
  case (Some n)
  assume a: "op \<in> set (uploadOpsFor e pid w p)"
  show ?thesis
  proof (cases n)
    case (Dir t)
    with Some a show ?thesis by (simp add: uploadOpsFor_def)
  next
    case (File c m)
    with Some a show ?thesis
      by (cases "map_of (syncStates w) (getStateKey pid p)")
         (auto simp: uploadOpsFor_def split: if_splits)
  qed
qed

lemma downloadOpsFor_props:
  "op \<in> set (downloadOpsFor pid w rf) \<Longrightarrow> opType op = download \<and> filePath op = remotePath rf"
  by (auto simp: downloadOpsFor_def split: option.splits if_splits)

lemma initialize_retime: "initialize (retime f w) = retime f (initialize w)"
  by (simp add: initialize_def retime_def split: option.splits prod.splits)

lemma map_of_retime:
  "map_of (tree (retime f w)) p =
     map_option (\<lambda>n. case n of File c m \<Rightarrow> File c (f p m) | Dir t \<Rightarrow> Dir (f p t)) (map_of (tree w) p)"
proof -
  have "map_of (map (\<lambda>pn. (fst pn, case snd pn of File c m \<Rightarrow> File c (f (fst pn) m)
                                       | Dir t \<Rightarrow> Dir (f (fst pn) t))) al) p =
     map_option (\<lambda>n. case n of File c m \<Rightarrow> File c (f p m) | Dir t \<Rightarrow> Dir (f p t)) (map_of al p)"
    for al :: "(path \<times> node) list"
    by (induction al) auto
  then show ?thesis by (simp add: retime_def)
qed

lemma regularFiles_retime: "regularFiles (retime f w) = regularFiles w"
proof -
  have "map fst (filter (\<lambda>pn. case snd pn of File c m \<Rightarrow> True | Dir t \<Rightarrow> False)
          (map (\<lambda>pn. (fst pn, case snd pn of File c m \<Rightarrow> File c (f (fst pn) m)
                                       | Dir t \<Rightarrow> Dir (f (fst pn) t))) al)) =
        map fst (filter (\<lambda>pn. case snd pn of File c m \<Rightarrow> True | Dir t \<Rightarrow> False) al)"
    for al :: "(path \<times> node) list"
    by (induction al) (auto split: node.splits)
  then show ?thesis by (simp add: regularFiles_def retime_def)
qed

lemma retime_fields [simp]:
  "syncStates (retime f w) = syncStates w" "canRead (retime f w) = canRead w"
  by (simp_all add: retime_def)

lemma uploadOpsFor_retime: "uploadOpsFor e pid (retime f w) = uploadOpsFor e pid w"
proof
  fix p show "uploadOpsFor e pid (retime f w) p = uploadOpsFor e pid w p"
    by (cases "map_of (tree w) p")
       (auto simp: uploadOpsFor_def map_of_retime split: node.splits option.splits)
qed

lemma planUploadOperations_retime:
  "fst (planUploadOperations e pid (retime f w)) = fst (planUploadOperations e pid w)"
  by (simp add: planUploadOperations_eq initialize_retime uploadOpsFor_retime regularFiles_retime)

lemma regularFiles_initialize [simp]: "regularFiles (initialize w) = regularFiles w"
  by (simp add: regularFiles_def)

lemma planOperations_fst:
  "fst (planOperations e opts pid w) =
     (if planThrows opts w then None
      else Some (plannedUploads e opts pid (initialize w) @ plannedDownloads opts pid (initialize w)))"
  by (cases "direction opts")
     (auto simp: planOperations_def planUploadOperations_eq planDownloadOperations_eq Let_def
        plannedUploads_def plannedDownloads_def planThrows_def split: prod.splits)

lemma planOperations_snd:
  "initialized w \<Longrightarrow> snd (planOperations e opts pid w) = w"
  by (cases "direction opts")
     (auto simp: planOperations_def planUploadOperations_eq planDownloadOperations_eq Let_def
        split: prod.splits option.splits)

lemma plannedUploads_props:
  "op \<in> set (plannedUploads e opts pid w) \<Longrightarrow>
     opType op = upload \<and>
     (\<exists>c m. map_of (tree w) (filePath op) = Some (File c m) \<and>
        (case map_of (syncStates w) (getStateKey pid (filePath op)) of
           None \<Rightarrow> reason op = ''New local file''
         | Some st \<Rightarrow> reason op = ''Local file modified'' \<and> sha256 e c \<noteq> localHash st))"
  by (auto simp: plannedUploads_def dest!: uploadOpsFor_props split: if_splits)

lemma plannedDownloads_props:
  "op \<in> set (plannedDownloads opts pid w) \<Longrightarrow> opType op = download"
  by (auto simp: plannedDownloads_def dest!: downloadOpsFor_props split: if_splits)

text \<open>
  Claim C8 (hash authority).  For a local file that is tracked and whose live hash equals
  the stored \<open>localHash\<close>, neither \<^verbatim>\<open>planUploadOperations\<close> nor \<^verbatim>\<open>planOperations\<close>
  plans an upload; an upload with the reason \<open>Local file modified\<close> is planned only for a
  tracked file whose live hash differs from the stored one; and setting the modification
  times of the local files to anything else leaves the planned uploads as they are.
\<close>

theorem planUploadOperations_hash_authority:
  assumes "fst (planUploadOperations e pid w) = Some ops"
  shows "(\<forall>p st c m. map_of (syncStates (initialize w)) (getStateKey pid p) = Some st \<longrightarrow>
             map_of (tree w) p = Some (File c m) \<longrightarrow> sha256 e c = localHash st \<longrightarrow>
             (\<forall>op \<in> set ops. filePath op \<noteq> p) \<and>
             (\<forall>all. fst (planOperations e opts pid w) = Some all \<longrightarrow>
                 (\<forall>op \<in> set all. opType op = upload \<longrightarrow> filePath op \<noteq> p))) \<and>
         (\<forall>op \<in> set ops. reason op = ''Local file modified'' \<longrightarrow>
             (\<exists>st c m. map_of (syncStates (initialize w)) (getStateKey pid (filePath op)) = Some st \<and>
                 map_of (tree w) (filePath op) = Some (File c m) \<and> sha256 e c \<noteq> localHash st)) \<and>
         fst (planUploadOperations e pid (retime f w)) = Some ops"
proof -
  let ?w = "initialize w"
  have ops: "ops = concat (map (uploadOpsFor e pid ?w) (filter (\<lambda>p. \<not> excluded e p) (regularFiles w)))"
    using assms by (simp add: planUploadOperations_eq split: if_splits)
  have mem: "opType op = upload \<and>
     (\<exists>c m. map_of (tree w) (filePath op) = Some (File c m) \<and>
        (case map_of (syncStates ?w) (getStateKey pid (filePath op)) of
           None \<Rightarrow> reason op = ''New local file''
         | Some st \<Rightarrow> reason op = ''Local file modified'' \<and> sha256 e c \<noteq> localHash st))"
    if "op \<in> set ops" for op
  proof -
    from that obtain p where "op \<in> set (uploadOpsFor e pid ?w p)" unfolding ops by auto
    from uploadOpsFor_props[OF this] show ?thesis by auto
  qed
  have no: "\<forall>op \<in> set ops. filePath op \<noteq> p"
    if "map_of (syncStates ?w) (getStateKey pid p) = Some st" "map_of (tree w) p = Some (File c m)"
       "sha256 e c = localHash st" for p st c m
  proof
    fix op assume "op \<in> set ops"
    from mem[OF this] that show "filePath op \<noteq> p" by auto
  qed
  have no2: "\<forall>op \<in> set all. opType op = upload \<longrightarrow> filePath op \<noteq> p"
    if "map_of (syncStates ?w) (getStateKey pid p) = Some st" "map_of (tree w) p = Some (File c m)"
       "sha256 e c = localHash st" "fst (planOperations e opts pid w) = Some all" for p st c m all
  proof (intro ballI impI)
    fix op assume o: "op \<in> set all" "opType op = upload"
    from that(4) have "all = plannedUploads e opts pid ?w @ plannedDownloads opts pid ?w"
      by (simp add: planOperations_fst split: if_splits)
    with o have "op \<in> set (plannedUploads e opts pid ?w)"
      by (auto dest: plannedDownloads_props)
    from plannedUploads_props[OF this] that(1,2,3) show "filePath op \<noteq> p" by auto
  qed
  have md: "\<exists>st c m. map_of (syncStates ?w) (getStateKey pid (filePath op)) = Some st \<and>
                 map_of (tree w) (filePath op) = Some (File c m) \<and> sha256 e c \<noteq> localHash st"
    if "op \<in> set ops" "reason op = ''Local file modified''" for op
    using mem[OF that(1)] that(2) by (auto split: option.splits)
  have rt: "fst (planUploadOperations e pid (retime f w)) = Some ops"
    using assms by (simp add: planUploadOperations_retime)
  show ?thesis using no no2 md rt by blast
qed

theorem planUploadOperations_hash_authority_witness:
  "fst (planUploadOperations exEnv ''P'' exSyncedWorld) =
     Some [\<lparr>opType = upload, filePath = ''b.txt'', reason = ''Local file modified'',
            opConflictType = None, backupRequired = True\<rparr>] \<and>
   map_of (syncStates (initialize exSyncedWorld)) (getStateKey ''P'' ''a.txt'') =
     Some (exEntry ''a.txt'' ''same'' (Some 5) 10) \<and>
   map_of (tree exSyncedWorld) ''a.txt'' = Some (File ''same'' 99) \<and>
   sha256 exEnv ''same'' = localHash (exEntry ''a.txt'' ''same'' (Some 5) 10) \<and>
   fst (planUploadOperations exEnv ''P'' (retime (\<lambda>p t. t + 1000) exSyncedWorld)) =
     Some [\<lparr>opType = upload, filePath = ''b.txt'', reason = ''Local file modified'',
            opConflictType = None, backupRequired = True\<rparr>]"
proof -
  have p: "fst (planUploadOperations exEnv ''P'' exSyncedWorld) =
     Some [\<lparr>opType = upload, filePath = ''b.txt'', reason = ''Local file modified'',
            opConflictType = None, backupRequired = True\<rparr>]"
    by (simp add: planUploadOperations_eq uploadOpsFor_def regularFiles_def exSyncedWorld_def
          exWorld_def exEnv_def exEntry_def getStateKey_def initialize_def)
  have a: "map_of (syncStates (initialize exSyncedWorld)) (getStateKey ''P'' ''a.txt'') =
     Some (exEntry ''a.txt'' ''same'' (Some 5) 10)"
    "map_of (tree exSyncedWorld) ''a.txt'' = Some (File ''same'' 99)"
    "sha256 exEnv ''same'' = localHash (exEntry ''a.txt'' ''same'' (Some 5) 10)"
    by (simp_all add: exSyncedWorld_def exWorld_def exEnv_def exEntry_def getStateKey_def initialize_def)
  from planUploadOperations_hash_authority[OF p, of exSyncOptions "\<lambda>p t. t + 1000"]
  have "fst (planUploadOperations exEnv ''P'' (retime (\<lambda>p t. t + 1000) exSyncedWorld)) =
     Some [\<lparr>opType = upload, filePath = ''b.txt'', reason = ''Local file modified'',
            opConflictType = None, backupRequired = True\<rparr>]"
    by blast
  with p a show ?thesis by simp
qed

lemma executeOperation_result:
  assumes "executeOperation e opts pid op (r, w) = (t, r2, w2)"
  shows "\<exists>s. r2 = r\<lparr>syncStats := s\<rparr> \<and> backupsCreated s = backupsCreated (syncStats r)"
proof (cases "opType op")
  case upload
  with assms show ?thesis
    by (auto simp: executeOperation_def executeUpload_def Let_def
          split: option.splits node.splits prod.splits
          intro: exI[of _ "syncStats r"])
next
  case download
  with assms show ?thesis
    by (auto simp: executeOperation_def executeDownload_def Let_def
          split: option.splits node.splits prod.splits if_splits
          intro: exI[of _ "syncStats r"])
next
  case delete_local
  with assms show ?thesis
    by (auto simp: executeOperation_def executeLocalDelete_def Let_def
          split: option.splits node.splits prod.splits if_splits
          intro: exI[of _ "syncStats r"])
next
  case delete_remote
  with assms show ?thesis
    by (auto simp: executeOperation_def executeRemoteDelete_def Let_def
          split: option.splits node.splits prod.splits if_splits
          intro: exI[of _ "syncStats r"])
qed

lemma backupIfRequired_lists:
  "executedOperations (fst (backupIfRequired e opts pid op rw)) = executedOperations (fst rw) \<and>
   skippedOperations (fst (backupIfRequired e opts pid op rw)) = skippedOperations (fst rw) \<and>
   errors (fst (backupIfRequired e opts pid op rw)) = errors (fst rw) \<and>
   operations (fst (backupIfRequired e opts pid op rw)) = operations (fst rw)"
  by (simp add: backupIfRequired_def Let_def split: prod.splits)

lemma executeOne_lists:
  assumes "executeOne e opts pid op rw = (r', w')"
  shows "(executedOperations r' = executedOperations (fst rw) @ [op] \<and>
          skippedOperations r' = skippedOperations (fst rw) \<and> errors r' = errors (fst rw)) \<or>
         (executedOperations r' = executedOperations (fst rw) \<and>
          skippedOperations r' = skippedOperations (fst rw) @ [op] \<and>
          (\<exists>m. errors r' = errors (fst rw) @ [m]))"
proof -
  obtain r1 w1 where p: "backupIfRequired e opts pid op rw = (r1, w1)"
    by (cases "backupIfRequired e opts pid op rw")
  have r1: "executedOperations r1 = executedOperations (fst rw)"
     "skippedOperations r1 = skippedOperations (fst rw)" "errors r1 = errors (fst rw)"
    using backupIfRequired_lists[of e opts pid op rw] by (simp_all add: p)
  obtain t r2 w2 where x: "executeOperation e opts pid op (r1, w1) = (t, r2, w2)"
    by (cases "executeOperation e opts pid op (r1, w1)") auto
  from executeOperation_result[OF x] obtain s where r2: "r2 = r1\<lparr>syncStats := s\<rparr>" by blast
  show ?thesis
  proof (cases t)
    case None
    with assms have "r' = r2\<lparr>executedOperations := executedOperations r2 @ [op]\<rparr>"
      by (simp add: executeOne_def p x)
    then show ?thesis using r1 r2 by simp
  next
    case (Some m)
    with assms have "r' = r2\<lparr>errors := errors r2 @
                 [''Failed to execute '' @ opTypeName (opType op) @ '' for '' @ filePath op @
                  '': '' @ m],
              skippedOperations := skippedOperations r2 @ [op]\<rparr>"
      by (simp add: executeOne_def p x)
    then show ?thesis using r1 r2 by simp
  qed
qed

lemma executeOne_fold_lists:
  "length (executedOperations (fst (fold (executeOne e opts pid) ops rw))) +
   length (skippedOperations (fst (fold (executeOne e opts pid) ops rw))) =
     length (executedOperations (fst rw)) + length (skippedOperations (fst rw)) + length ops \<and>
   set (executedOperations (fst (fold (executeOne e opts pid) ops rw))) \<union>
   set (skippedOperations (fst (fold (executeOne e opts pid) ops rw))) =
     set (executedOperations (fst rw)) \<union> set (skippedOperations (fst rw)) \<union> set ops"
proof (induction ops arbitrary: rw)
  case Nil then show ?case by simp
next
  case (Cons op ops)
  obtain r' w' where s: "executeOne e opts pid op rw = (r', w')"
    by (cases "executeOne e opts pid op rw")
  have f: "fold (executeOne e opts pid) (op # ops) rw = fold (executeOne e opts pid) ops (r', w')"
    by (simp add: s)
  note ih = Cons.IH[of "(r', w')", unfolded fst_conv]
  from executeOne_lists[OF s]
  have l: "length (executedOperations r') + length (skippedOperations r') =
           length (executedOperations (fst rw)) + length (skippedOperations (fst rw)) + 1"
    and m: "set (executedOperations r') \<union> set (skippedOperations r') =
           set (executedOperations (fst rw)) \<union> set (skippedOperations (fst rw)) \<union> {op}"
    by auto
  show ?case unfolding f using ih l m by auto
qed

lemma ex_plan:
  "planOperations exCorruptEnv exUploadOptions ''P'' (exModifiedWorld\<lparr>tick := Suc 0\<rparr>) =
     (Some [exUploadOp], exModifiedWorld\<lparr>tick := Suc 0\<rparr>)"
proof -
  have i: "initialized (exModifiedWorld\<lparr>tick := Suc 0\<rparr>)" by (simp add: exModifiedWorld_def exWorld_def)
  have "fst (planOperations exCorruptEnv exUploadOptions ''P'' (exModifiedWorld\<lparr>tick := Suc 0\<rparr>)) = Some [exUploadOp]"
    by (simp add: planOperations_fst planThrows_def plannedUploads_def plannedDownloads_def
          exUploadOptions_def exSyncOptions_def exModifiedWorld_def exWorld_def regularFiles_def
          exCorruptEnv_def exEnv_def uploadOpsFor_def getStateKey_def exEntry_def exUploadOp_def initialize_def)
  with planOperations_snd[OF i, of exCorruptEnv exUploadOptions "''P''"] show ?thesis
    by (metis prod.collapse)
qed

lemma ex_backup:
  "createBackup exCorruptEnv (exOptions 5) ''P'' ''b.txt'' ''sync'' (exModifiedWorld\<lparr>tick := Suc 0\<rparr>) =
     (failed ''Backup integrity verification failed'', exModifiedWorld\<lparr>tick := Suc (Suc (Suc 0))\<rparr>)"
  by (simp add: createBackup_def exOptions_def exModifiedWorld_def exWorld_def exCorruptEnv_def
        exEnv_def randomHex_def newDate_def Let_def fun_eq_iff)

lemma ex_upload:
  "executeUpload exCorruptEnv ''P'' exUploadOp (r, exModifiedWorld\<lparr>tick := Suc (Suc (Suc 0))\<rparr>) =
     (None, r\<lparr>syncStats := (syncStats r)\<lparr>filesUploaded := Suc (filesUploaded (syncStats r))\<rparr>\<rparr>,
      saveFileState
        \<lparr>fileId = ''P:b.txt'', projectId = ''P'', localPath = ''b.txt'',
         remoteId = Some ''file_aaaaa'', localHash = ''new'', remoteHash = Some ''new'',
         localMtime = 20, remoteMtime = Some 1003, lastSyncTime = 1005,
         syncDirection = DirUpload, conflictState = StateNone, stateBackupPath = None,
         sizeBytes = length ''new'', isDeleted = False\<rparr>
        (exModifiedWorld\<lparr>tick := Suc (Suc (Suc (Suc (Suc (Suc 0))))),
           remoteFiles := [(''file_aaaaa'', \<lparr>remoteFileId = ''file_aaaaa'', remotePath = ''b.txt'',
                remoteContent = Some ''new'', updatedAt = 1003\<rparr>)]\<rparr>))"
  by (simp add: executeUpload_def exUploadOp_def exModifiedWorld_def exWorld_def exCorruptEnv_def
        exEnv_def uploadKnowledgeFile_def randomHex_def newDate_def Let_def generateFileId_def)

lemma ex_sync:
  "sync exCorruptEnv exUploadOptions ''P'' exModifiedWorld =
     finish exCorruptEnv 1000
       ((initialResult exUploadOptions)
          \<lparr>operations := [exUploadOp],
           syncStats := (syncStats (initialResult exUploadOptions))\<lparr>totalOperations := 1, filesUploaded := 1\<rparr>,
           warnings := [''Failed to create backup for b.txt: Backup integrity verification failed''],
           executedOperations := [exUploadOp],
           syncSuccess := True\<rparr>,
        saveFileState
        \<lparr>fileId = ''P:b.txt'', projectId = ''P'', localPath = ''b.txt'',
         remoteId = Some ''file_aaaaa'', localHash = ''new'', remoteHash = Some ''new'',
         localMtime = 20, remoteMtime = Some 1003, lastSyncTime = 1005,
         syncDirection = DirUpload, conflictState = StateNone, stateBackupPath = None,
         sizeBytes = length ''new'', isDeleted = False\<rparr>
        (exModifiedWorld\<lparr>tick := Suc (Suc (Suc (Suc (Suc (Suc 0))))),
           remoteFiles := [(''file_aaaaa'', \<lparr>remoteFileId = ''file_aaaaa'', remotePath = ''b.txt'',
                remoteContent = Some ''new'', updatedAt = 1003\<rparr>)]\<rparr>))"
proof -
  have t0: "newDate exCorruptEnv exModifiedWorld = (1000, exModifiedWorld\<lparr>tick := Suc 0\<rparr>)"
    by (simp add: newDate_def exCorruptEnv_def exEnv_def exModifiedWorld_def exWorld_def)
  have i: "initialize (exModifiedWorld\<lparr>tick := Suc 0\<rparr>) = exModifiedWorld\<lparr>tick := Suc 0\<rparr>"
    by (simp add: exModifiedWorld_def exWorld_def)
  have o: "validationEnabled exUploadOptions = False" "dryRun exUploadOptions = False"
    "backup exUploadOptions = exOptions 5"
    by (simp_all add: exUploadOptions_def exSyncOptions_def)
  have b: "backupRequired exUploadOp" "filePath exUploadOp = ''b.txt''" "opType exUploadOp = upload"
    by (simp_all add: exUploadOp_def)
  show ?thesis
    unfolding sync_def t0 Let_def prod.case i
    by (simp add: o planAndExecute_def ex_plan initialResult_def executeOperations_def
          executeOne_def backupIfRequired_def b ex_backup failed_def executeOperation_def ex_upload)
qed

text \<open>
  Claim C1 as stated fails: when \<^verbatim>\<open>createBackup\<close> reports failure (here the copy does not
  verify), \<^verbatim>\<open>executeOperations\<close> records a warning and executes the operation all the
  same.  The upload of the modified file \<open>b.txt\<close> requires a backup, no backup is made,
  and the operation is executed: the file is on the remote side and the operation is in
  \<open>executedOperations\<close>.
\<close>

theorem sync_backup_failure_counterexample:
  "dryRun exUploadOptions = False \<and> backupRequired exUploadOp \<and>
   operations (fst (sync exCorruptEnv exUploadOptions ''P'' exModifiedWorld)) = [exUploadOp] \<and>
   warnings (fst (sync exCorruptEnv exUploadOptions ''P'' exModifiedWorld)) =
     [''Failed to create backup for b.txt: Backup integrity verification failed''] \<and>
   backupsCreated (syncStats (fst (sync exCorruptEnv exUploadOptions ''P'' exModifiedWorld))) = 0 \<and>
   backups (snd (sync exCorruptEnv exUploadOptions ''P'' exModifiedWorld)) = [] \<and>
   executedOperations (fst (sync exCorruptEnv exUploadOptions ''P'' exModifiedWorld)) = [exUploadOp] \<and>
   skippedOperations (fst (sync exCorruptEnv exUploadOptions ''P'' exModifiedWorld)) = [] \<and>
   syncSuccess (fst (sync exCorruptEnv exUploadOptions ''P'' exModifiedWorld)) \<and>
   map (remotePath \<circ> snd) (remoteFiles (snd (sync exCorruptEnv exUploadOptions ''P'' exModifiedWorld))) =
     [''b.txt'']"
  unfolding ex_sync
  by (simp add: finish_def newDate_def Let_def initialResult_def close_def save_def
        saveFileState_def initialize_def exModifiedWorld_def exWorld_def exUploadOptions_def
        exSyncOptions_def exUploadOp_def)

text \<open>
  Claim C1, as the code has it.  In \<^verbatim>\<open>executeOperations\<close>, for an operation with
  \<open>backupRequired\<close>, \<^verbatim>\<open>createBackup\<close> runs on the local file first and the operation
  then runs in the world the backup attempt left.  A backup that reports success counts in
  \<open>backupsCreated\<close>; one that reports failure adds a warning and nothing else: the
  operation is executed all the same, and it goes to \<open>executedOperations\<close> exactly when it
  does not throw (else to \<open>skippedOperations\<close>).  The run goes on in every case: after the
  loop every planned operation is in one of the two lists.
\<close>

theorem executeOperations_backup_then_execute:
  assumes req: "backupRequired op"
  shows "(\<exists>br w1 thrown r2.
            createBackup e (backup opts) pid (filePath op) ''sync'' w = (br, w1) \<and>
            executeOperation e opts pid op (fst (backupIfRequired e opts pid op (r, w)), w1) =
              (thrown, r2, snd (executeOne e opts pid op (r, w))) \<and>
            backupsCreated (syncStats (fst (executeOne e opts pid op (r, w)))) =
              backupsCreated (syncStats r) + (if success br then 1 else 0) \<and>
            (success br \<longrightarrow> warnings (fst (executeOne e opts pid op (r, w))) = warnings r) \<and>
            (\<not> success br \<longrightarrow>
               (\<exists>msg. warnings (fst (executeOne e opts pid op (r, w))) = warnings r @ [msg])) \<and>
            (thrown = None \<longrightarrow>
               executedOperations (fst (executeOne e opts pid op (r, w))) = executedOperations r @ [op] \<and>
               skippedOperations (fst (executeOne e opts pid op (r, w))) = skippedOperations r) \<and>
            (thrown \<noteq> None \<longrightarrow>
               executedOperations (fst (executeOne e opts pid op (r, w))) = executedOperations r \<and>
               skippedOperations (fst (executeOne e opts pid op (r, w))) = skippedOperations r @ [op])) \<and>
         length (executedOperations (fst (executeOperations e opts pid rw))) +
         length (skippedOperations (fst (executeOperations e opts pid rw))) =
           length (executedOperations (fst rw)) + length (skippedOperations (fst rw)) +
           length (operations (fst rw)) \<and>
         set (operations (fst rw)) \<subseteq>
           set (executedOperations (fst (executeOperations e opts pid rw))) \<union>
           set (skippedOperations (fst (executeOperations e opts pid rw)))"
proof -
  obtain br w1 where bk: "createBackup e (backup opts) pid (filePath op) ''sync'' w = (br, w1)"
    by (cases "createBackup e (backup opts) pid (filePath op) ''sync'' w")
  define r1 where "r1 = fst (backupIfRequired e opts pid op (r, w))"
  have b: "backupIfRequired e opts pid op (r, w) = (r1, w1)"
    and r1: "r1 = (if success br
               then r\<lparr>syncStats := (syncStats r)\<lparr>backupsCreated := Suc (backupsCreated (syncStats r))\<rparr>\<rparr>
               else r\<lparr>warnings := warnings r @
                            [''Failed to create backup for '' @ filePath op @ '': '' @
                             (case error br of None \<Rightarrow> ''undefined'' | Some m \<Rightarrow> m)]\<rparr>)"
    unfolding r1_def using req bk by (simp_all add: backupIfRequired_def Let_def)
  obtain thrown r2 w2 where x: "executeOperation e opts pid op (r1, w1) = (thrown, r2, w2)"
    by (cases "executeOperation e opts pid op (r1, w1)") auto
  from executeOperation_result[OF x] obtain s where
    r2: "r2 = r1\<lparr>syncStats := s\<rparr>" and s: "backupsCreated s = backupsCreated (syncStats r1)" by blast
  have one: "executeOne e opts pid op (r, w) =
      (case thrown of
         None \<Rightarrow> (r2\<lparr>executedOperations := executedOperations r2 @ [op]\<rparr>, w2)
       | Some msg \<Rightarrow>
          (r2\<lparr>errors := errors r2 @
                 [''Failed to execute '' @ opTypeName (opType op) @ '' for '' @ filePath op @
                  '': '' @ msg],
              skippedOperations := skippedOperations r2 @ [op]\<rparr>, w2))"
    by (simp add: executeOne_def b x split: option.splits)
  have p1: "executeOperation e opts pid op (fst (backupIfRequired e opts pid op (r, w)), w1) =
              (thrown, r2, snd (executeOne e opts pid op (r, w)))"
    unfolding one using x b by (simp split: option.splits)
  have p2: "backupsCreated (syncStats (fst (executeOne e opts pid op (r, w)))) =
              backupsCreated (syncStats r) + (if success br then 1 else 0)"
    unfolding one using r1 r2 s by (simp split: option.splits)
  have p3: "success br \<longrightarrow> warnings (fst (executeOne e opts pid op (r, w))) = warnings r"
    unfolding one using r1 r2 by (simp split: option.splits)
  have p4: "\<not> success br \<longrightarrow>
               (\<exists>msg. warnings (fst (executeOne e opts pid op (r, w))) = warnings r @ [msg])"
    unfolding one using r1 r2 by (simp split: option.splits)
  have p5: "thrown = None \<longrightarrow>
               executedOperations (fst (executeOne e opts pid op (r, w))) = executedOperations r @ [op] \<and>
               skippedOperations (fst (executeOne e opts pid op (r, w))) = skippedOperations r"
    unfolding one using r1 r2 by simp
  have p6: "thrown \<noteq> None \<longrightarrow>
               executedOperations (fst (executeOne e opts pid op (r, w))) = executedOperations r \<and>
               skippedOperations (fst (executeOne e opts pid op (r, w))) = skippedOperations r @ [op]"
    unfolding one using r1 r2 by auto
  note loop = executeOne_fold_lists[of e opts pid "operations (fst rw)" rw]
  have l1: "length (executedOperations (fst (executeOperations e opts pid rw))) +
         length (skippedOperations (fst (executeOperations e opts pid rw))) =
           length (executedOperations (fst rw)) + length (skippedOperations (fst rw)) +
           length (operations (fst rw))"
    using loop by (simp add: executeOperations_def)
  have l2: "set (operations (fst rw)) \<subseteq>
           set (executedOperations (fst (executeOperations e opts pid rw))) \<union>
           set (skippedOperations (fst (executeOperations e opts pid rw)))"
    using loop by (auto simp: executeOperations_def)
  have ex: "\<exists>br w1 thrown r2.
            createBackup e (backup opts) pid (filePath op) ''sync'' w = (br, w1) \<and>
            executeOperation e opts pid op (fst (backupIfRequired e opts pid op (r, w)), w1) =
              (thrown, r2, snd (executeOne e opts pid op (r, w))) \<and>
            backupsCreated (syncStats (fst (executeOne e opts pid op (r, w)))) =
              backupsCreated (syncStats r) + (if success br then 1 else 0) \<and>
            (success br \<longrightarrow> warnings (fst (executeOne e opts pid op (r, w))) = warnings r) \<and>
            (\<not> success br \<longrightarrow>
               (\<exists>msg. warnings (fst (executeOne e opts pid op (r, w))) = warnings r @ [msg])) \<and>
            (thrown = None \<longrightarrow>
               executedOperations (fst (executeOne e opts pid op (r, w))) = executedOperations r @ [op] \<and>
               skippedOperations (fst (executeOne e opts pid op (r, w))) = skippedOperations r) \<and>
            (thrown \<noteq> None \<longrightarrow>
               executedOperations (fst (executeOne e opts pid op (r, w))) = executedOperations r \<and>
               skippedOperations (fst (executeOne e opts pid op (r, w))) = skippedOperations r @ [op])"
    by (intro exI[of _ br] exI[of _ w1] exI[of _ thrown] exI[of _ r2] conjI)
       (rule bk, rule p1, rule p2, rule p3, rule p4, rule p5, rule p6)
  show ?thesis by (intro conjI) (rule ex, rule l1, rule l2)
qed

theorem executeOperations_backup_then_execute_witness:
  "backupRequired exUploadOp \<and>
   (\<exists>br w1 thrown r2.
       createBackup exCorruptEnv (backup exUploadOptions) ''P'' (filePath exUploadOp) ''sync''
         (exModifiedWorld\<lparr>tick := Suc 0\<rparr>) = (br, w1) \<and> \<not> success br \<and>
       executeOperation exCorruptEnv exUploadOptions ''P'' exUploadOp
         (fst (backupIfRequired exCorruptEnv exUploadOptions ''P'' exUploadOp
                (initialResult exUploadOptions, exModifiedWorld\<lparr>tick := Suc 0\<rparr>)), w1) =
         (thrown, r2, snd (executeOne exCorruptEnv exUploadOptions ''P'' exUploadOp
                (initialResult exUploadOptions, exModifiedWorld\<lparr>tick := Suc 0\<rparr>))) \<and>
       thrown = None \<and>
       executedOperations (fst (executeOne exCorruptEnv exUploadOptions ''P'' exUploadOp
                (initialResult exUploadOptions, exModifiedWorld\<lparr>tick := Suc 0\<rparr>))) =
         executedOperations (initialResult exUploadOptions) @ [exUploadOp])"
proof -
  have req: "backupRequired exUploadOp" by (simp add: exUploadOp_def)
  have o: "backup exUploadOptions = exOptions 5" "filePath exUploadOp = ''b.txt''"
     "opType exUploadOp = upload"
    by (simp_all add: exUploadOptions_def exSyncOptions_def exUploadOp_def)
  from executeOperations_backup_then_execute[OF req, of exCorruptEnv exUploadOptions "''P''"
      "exModifiedWorld\<lparr>tick := Suc 0\<rparr>" "initialResult exUploadOptions"]
  obtain br w1 thrown r2 where
    1: "createBackup exCorruptEnv (backup exUploadOptions) ''P'' (filePath exUploadOp) ''sync''
         (exModifiedWorld\<lparr>tick := Suc 0\<rparr>) = (br, w1)" and
    2: "executeOperation exCorruptEnv exUploadOptions ''P'' exUploadOp
         (fst (backupIfRequired exCorruptEnv exUploadOptions ''P'' exUploadOp
                (initialResult exUploadOptions, exModifiedWorld\<lparr>tick := Suc 0\<rparr>)), w1) =
         (thrown, r2, snd (executeOne exCorruptEnv exUploadOptions ''P'' exUploadOp
                (initialResult exUploadOptions, exModifiedWorld\<lparr>tick := Suc 0\<rparr>)))" and
    3: "thrown = None \<longrightarrow>
          executedOperations (fst (executeOne exCorruptEnv exUploadOptions ''P'' exUploadOp
                (initialResult exUploadOptions, exModifiedWorld\<lparr>tick := Suc 0\<rparr>))) =
          executedOperations (initialResult exUploadOptions) @ [exUploadOp]"
    by blast
  from 1 have br: "br = failed ''Backup integrity verification failed''"
    and w1: "w1 = exModifiedWorld\<lparr>tick := Suc (Suc (Suc 0))\<rparr>"
    unfolding o ex_backup by simp_all
  have nb: "\<not> success br" unfolding br by simp
  from 2 have "thrown = None"
    unfolding w1 by (simp add: executeOperation_def o ex_upload)
  with 1 2 3 nb req show ?thesis by blast
qed

lemma validateRemoteFile_world:
  "vWorld (validateRemoteFile pid rf v) = initialize (vWorld v)"
  by (simp add: validateRemoteFile_def getFileState_def Let_def pushConflict_def
        split: option.splits)

lemma validateRemoteFile_fold_world:
  "vWorld (fold (validateRemoteFile pid) rfs v) = (if rfs = [] then vWorld v else initialize (vWorld v))"
proof (induction rfs arbitrary: v)
  case Nil then show ?case by simp
next
  case (Cons rf rfs)
  have "vWorld (fold (validateRemoteFile pid) (rf # rfs) v) =
        vWorld (fold (validateRemoteFile pid) rfs (validateRemoteFile pid rf v))" by simp
  also have "\<dots> = (if rfs = [] then vWorld (validateRemoteFile pid rf v)
                    else initialize (vWorld (validateRemoteFile pid rf v)))" by (rule Cons.IH)
  also have "\<dots> = initialize (vWorld v)" by (simp add: validateRemoteFile_world)
  finally show ?case by simp
qed

lemma validateLocalFiles_world:
  "initialized (vWorld v) \<Longrightarrow> vWorld (validateLocalFiles e pid v) = vWorld v"
  using validateLocalFile_fold[of e pid _ "v\<lparr>vStats := (vStats v)\<lparr>localFiles := n\<rparr>\<rparr>" for n]
  by (auto simp: validateLocalFiles_def pushIssue_def split: option.splits)

lemma validateRemoteFiles_world:
  "initialized (vWorld v) \<Longrightarrow> vWorld (validateRemoteFiles pid v) = vWorld v"
  by (auto simp: validateRemoteFiles_def pushIssue_def validateRemoteFile_fold_world
        split: option.splits)

lemma detectConflicts_world:
  "detectConflicts pid v = Some v' \<Longrightarrow> vWorld v' = initialize (vWorld v)"
proof -
  have f: "vWorld (fold (\<lambda>st v'. if P st then v' else if Q st then pushConflict (c st) v' else v') sts v0)
           = vWorld v0" for P Q c sts and v0 :: vstate
    by (induction sts arbitrary: v0) (simp_all add: pushConflict_def)
  assume "detectConflicts pid v = Some v'"
  then show ?thesis
    by (auto simp: detectConflicts_def listFileStates_def Let_def f split: option.splits)
qed

lemma runChecks_world:
  assumes "initialized w"
  shows "vWorld (runChecks e opts pid dir w) = w"
proof -
  define v0 where "v0 = \<lparr>vIssues =
                   (if checkDiskSpace opts then checkDiskSpaceIssues w else []) @
                   (if checkPermissions opts then checkPermissionsIssues w else []) @
                   (if checkGitStatus opts then checkGitStatusIssues w else []) @
                   (if checkNetworkConnectivity opts then checkNetworkConnectivityIssues w else []),
                vStats = \<lparr>localFiles = 0, remoteFilesSeen = 0, conflictFiles = 0,
                           newLocalFiles = 0, newRemoteFiles = 0, unchangedFiles = 0\<rparr>,
                vConflicts = [], vWorld = w\<rparr>"
  define v1 where "v1 = (if dir = DirUpload \<or> dir = DirBoth then validateLocalFiles e pid v0 else v0)"
  define v2 where "v2 = (if dir = DirDownload \<or> dir = DirBoth then validateRemoteFiles pid v1 else v1)"
  have 0: "vWorld v0 = w" by (simp add: v0_def)
  have 1: "vWorld v1 = w" using validateLocalFiles_world[of v0 e pid] assms 0 by (simp add: v1_def)
  have 2: "vWorld v2 = w" using validateRemoteFiles_world[of v1 pid] assms 1 by (simp add: v2_def)
  have r: "runChecks e opts pid dir w =
       (if dir = DirBoth
         then (case detectConflicts pid v2 of
                 Some v3 \<Rightarrow> v3
               | None \<Rightarrow>
                   pushIssue (issue IssueError ''VALIDATION_ERROR'' ''Validation failed''
                                None ''Check your configuration and try again'')
                     (v2\<lparr>vWorld := initialize (vWorld v2)\<rparr>))
         else v2)"
    unfolding runChecks_def Let_def v2_def v1_def v0_def by (rule refl)
  show ?thesis unfolding r using 2 assms
    by (auto simp: pushIssue_def dest: detectConflicts_world split: option.splits)
qed

lemma validate_world: "initialized w \<Longrightarrow> snd (validate e opts pid dir w) = w"
  by (simp add: validate_def Let_def runChecks_world)

lemma initialize_frame [simp]:
  "bdir (initialize w) = bdir w" "tick (initialize w) = tick w"
  "diskAvailable (initialize w) = diskAvailable w" "canWrite (initialize w) = canWrite w"
  "git (initialize w) = git w"
  by (simp_all add: initialize_def split: option.splits prod.splits)

lemma initialize_tick: "initialize (w\<lparr>tick := t\<rparr>) = (initialize w)\<lparr>tick := t\<rparr>"
  by (simp add: initialize_def split: option.splits prod.splits)

lemma executeOne_operations:
  "operations (fst (executeOne e opts pid op rw)) = operations (fst rw)"
proof -
  obtain r1 w1 where p: "backupIfRequired e opts pid op rw = (r1, w1)"
    by (cases "backupIfRequired e opts pid op rw")
  have r1: "operations r1 = operations (fst rw)"
    using backupIfRequired_lists[of e opts pid op rw] by (simp add: p)
  obtain t r2 w2 where x: "executeOperation e opts pid op (r1, w1) = (t, r2, w2)"
    by (cases "executeOperation e opts pid op (r1, w1)") auto
  from executeOperation_result[OF x] obtain s where r2: "r2 = r1\<lparr>syncStats := s\<rparr>" by blast
  show ?thesis using r1 r2 by (cases t) (simp_all add: executeOne_def p x)
qed

lemma executeOperations_operations:
  "operations (fst (executeOperations e opts pid rw)) = operations (fst rw)"
proof -
  have "operations (fst (fold (executeOne e opts pid) ops rw)) = operations (fst rw)" for ops
  proof (induction ops arbitrary: rw)
    case Nil then show ?case by simp
  next
    case (Cons op ops)
    show ?case using Cons.IH[of "executeOne e opts pid op rw"] executeOne_operations[of e opts pid op rw]
      by simp
  qed
  then show ?thesis by (simp add: executeOperations_def)
qed

lemma planAndExecute_eq:
  assumes "initialized w"
  shows "planAndExecute e opts pid (r, w) =
     (if planThrows opts w then (r\<lparr>errors := errors r @ [''Sync failed'']\<rparr>, w)
      else (let r2 = resolved opts (plannedUploads e opts pid w @ plannedDownloads opts pid w) r;
                (r3, w3) = (if \<not> dryRun opts then executeOperations e opts pid (r2, w) else (r2, w))
            in (r3\<lparr>syncSuccess := (errors r3 = [])\<rparr>, w3)))"
proof -
  have p: "planOperations e opts pid w =
      (if planThrows opts w then None
       else Some (plannedUploads e opts pid w @ plannedDownloads opts pid w), w)"
    using planOperations_fst[of e opts pid w] planOperations_snd[OF assms, of e opts pid] assms
    by (metis initialize_idem prod.collapse)
  show ?thesis
    by (simp add: planAndExecute_def p resolved_def Let_def)
qed

lemma sync_eq:
  "sync e opts pid w =
     finish e (clock e (tick w))
       (if blocked e opts pid ((initialize w)\<lparr>tick := Suc (tick w)\<rparr>)
        then ((initialResult opts)
                \<lparr>validationResult :=
                   Some (fst (validate e (validatorOptions opts) pid (direction opts)
                                ((initialize w)\<lparr>tick := Suc (tick w)\<rparr>))),
                 errors := [''Validation failed. Use --force to override.'']\<rparr>,
              (initialize w)\<lparr>tick := Suc (tick w)\<rparr>)
        else planAndExecute e opts pid
               (validated e opts pid ((initialize w)\<lparr>tick := Suc (tick w)\<rparr>),
                (initialize w)\<lparr>tick := Suc (tick w)\<rparr>))"
proof -
  let ?w1 = "(initialize w)\<lparr>tick := Suc (tick w)\<rparr>"
  have i: "initialized ?w1" by simp
  obtain vr where v: "validate e (validatorOptions opts) pid (direction opts) ?w1 = (vr, ?w1)"
    using validate_world[OF i, of e "validatorOptions opts" pid "direction opts"]
    by (metis prod.collapse)
  have e0: "errors (initialResult opts) = []" "warnings (initialResult opts) = []"
    by (simp_all add: initialResult_def)
  show ?thesis
    by (simp add: sync_def newDate_def Let_def initialize_tick blocked_def validated_def e0 v)
qed

lemma handleConflict_fields:
  "operations (handleConflict res c r) = resolveOps res c (operations r) \<and>
   executedOperations (handleConflict res c r) = executedOperations r \<and>
   skippedOperations (handleConflict res c r) = skippedOperations r \<and>
   errors (handleConflict res c r) = errors r"
  by (cases res) (simp_all add: handleConflict_def resolveOps_def Let_def)

lemma handleConflicts_fields:
  "operations (handleConflicts res cs r) = fold (resolveOps res) cs (operations r) \<and>
   executedOperations (handleConflicts res cs r) = executedOperations r \<and>
   skippedOperations (handleConflicts res cs r) = skippedOperations r \<and>
   errors (handleConflicts res cs r) = errors r"
  unfolding handleConflicts_def
proof (induction cs arbitrary: r)
  case Nil then show ?case by simp
next
  case (Cons c cs)
  show ?case using Cons.IH[of "handleConflict res c r"] handleConflict_fields[of res c r] by simp
qed

lemma resolved_fields:
  "operations (resolved opts ops r) =
     fold (resolveOps (conflictResolution opts))
       (case validationResult r of None \<Rightarrow> [] | Some vr \<Rightarrow> conflicts vr) ops \<and>
   executedOperations (resolved opts ops r) = executedOperations r \<and>
   skippedOperations (resolved opts ops r) = skippedOperations r \<and>
   errors (resolved opts ops r) = errors r"
  by (auto simp: resolved_def Let_def handleConflicts_fields split: option.splits)

lemma validated_fields:
  "executedOperations (validated e opts pid w) = [] \<and> skippedOperations (validated e opts pid w) = [] \<and>
   operations (validated e opts pid w) = [] \<and>
   (case validationResult (validated e opts pid w) of None \<Rightarrow> [] | Some vr \<Rightarrow> conflicts vr) =
     conflictsFound e opts pid w"
  by (simp add: validated_def initialResult_def conflictsFound_def Let_def)

lemma finish_fields:
  "operations (fst (finish e t rw)) = operations (fst rw) \<and>
   executedOperations (fst (finish e t rw)) = executedOperations (fst rw) \<and>
   skippedOperations (fst (finish e t rw)) = skippedOperations (fst rw) \<and>
   errors (fst (finish e t rw)) = errors (fst rw) \<and>
   syncSuccess (fst (finish e t rw)) = syncSuccess (fst rw) \<and>
   snd (finish e t rw) = close ((snd rw)\<lparr>tick := Suc (tick (snd rw))\<rparr>)"
  by (simp add: finish_def newDate_def Let_def)

lemma sync_started:
  "sync e opts pid w =
     finish e (clock e (tick w))
       (if blocked e opts pid (started w)
        then ((initialResult opts)
                \<lparr>validationResult :=
                   Some (fst (validate e (validatorOptions opts) pid (direction opts) (started w))),
                 errors := [''Validation failed. Use --force to override.'']\<rparr>,
              started w)
        else planAndExecute e opts pid (validated e opts pid (started w), started w))"
  unfolding started_def by (rule sync_eq)

lemma started_frame [simp]:
  "initialized (started w)" "tree (started w) = tree w" "bdir (started w) = bdir w"
  "remoteFiles (started w) = remoteFiles w" "syncStates (started w) = syncStates (initialize w)"
  "backups (started w) = backups (initialize w)" "tick (started w) = Suc (tick w)"
  "canRead (started w) = canRead w" "online (started w) = online w"
  by (simp_all add: started_def)

lemma dryRun_pair:
  assumes "dryRun opts"
  shows "snd (sync e opts pid w) = save ((started w)\<lparr>tick := Suc (Suc (tick w))\<rparr>) \<and>
         executedOperations (fst (sync e opts pid w)) = [] \<and>
         skippedOperations (fst (sync e opts pid w)) = [] \<and>
         operations (fst (sync e opts pid w)) =
           (if blocked e opts pid (started w) \<or> planThrows opts (started w) then []
            else fold (resolveOps (conflictResolution opts)) (conflictsFound e opts pid (started w))
                   (plannedUploads e opts pid (started w) @ plannedDownloads opts pid (started w)))"
proof -
  have pe: "planAndExecute e opts pid (validated e opts pid (started w), started w) =
     (if planThrows opts (started w)
      then ((validated e opts pid (started w))\<lparr>errors := errors (validated e opts pid (started w)) @ [''Sync failed'']\<rparr>,
            started w)
      else ((resolved opts (plannedUploads e opts pid (started w) @ plannedDownloads opts pid (started w))
               (validated e opts pid (started w)))
              \<lparr>syncSuccess := (errors (resolved opts (plannedUploads e opts pid (started w) @
                   plannedDownloads opts pid (started w)) (validated e opts pid (started w))) = [])\<rparr>,
            started w))"
    using assms by (simp add: planAndExecute_eq Let_def)
  show ?thesis
    unfolding sync_started
    by (simp add: finish_fields pe resolved_fields validated_fields close_def initialResult_def)
qed

lemma sync_operations:
  "operations (fst (sync e opts pid w)) =
     (if blocked e opts pid (started w) \<or> planThrows opts (started w) then []
      else fold (resolveOps (conflictResolution opts)) (conflictsFound e opts pid (started w))
             (plannedUploads e opts pid (started w) @ plannedDownloads opts pid (started w)))"
proof (cases "dryRun opts")
  case True
  then show ?thesis using dryRun_pair[of opts e pid w] by simp
next
  case False
  let ?r2 = "resolved opts (plannedUploads e opts pid (started w) @ plannedDownloads opts pid (started w))
               (validated e opts pid (started w))"
  have pe: "\<not> planThrows opts (started w) \<Longrightarrow>
     operations (fst (planAndExecute e opts pid (validated e opts pid (started w), started w))) =
       operations ?r2"
    using False executeOperations_operations[of e opts pid "(?r2, started w)"]
    by (simp add: planAndExecute_eq Let_def case_prod_unfold)
  have pt: "planThrows opts (started w) \<Longrightarrow>
     operations (fst (planAndExecute e opts pid (validated e opts pid (started w), started w))) = []"
    by (simp add: planAndExecute_eq validated_fields)
  show ?thesis
    unfolding sync_started using pe pt
    by (simp add: finish_fields resolved_fields validated_fields initialResult_def)
qed

lemma dryRun_irrelevant:
  "blocked e (opts\<lparr>dryRun := b\<rparr>) pid w = blocked e opts pid w"
  "planThrows (opts\<lparr>dryRun := b\<rparr>) w = planThrows opts w"
  "conflictsFound e (opts\<lparr>dryRun := b\<rparr>) pid w = conflictsFound e opts pid w"
  "plannedUploads e (opts\<lparr>dryRun := b\<rparr>) pid w = plannedUploads e opts pid w"
  "plannedDownloads (opts\<lparr>dryRun := b\<rparr>) pid w = plannedDownloads opts pid w"
  by (simp_all add: blocked_def planThrows_def conflictsFound_def plannedUploads_def
        plannedDownloads_def validatorOptions_def)

text \<open>
  Claim C2, as the code has it.  With \<open>dryRun\<close> set, \<^verbatim>\<open>sync\<close> executes nothing: the
  local tree, the backup directory, the remote store and the records that the state store
  holds (those it loaded) are unchanged, no operation is executed or skipped, and the
  result lists the operations exactly as a run without \<open>dryRun\<close> lists them: none when
  validation stops the run or planning throws, else the planned uploads and downloads
  after conflict resolution.  The state file is not left alone: the \<^verbatim>\<open>finally\<close> block
  closes the store, which writes the loaded records to the file.
\<close>

theorem sync_dryRun_frame:
  assumes "dryRun opts"
  shows "tree (snd (sync e opts pid w)) = tree w \<and>
         bdir (snd (sync e opts pid w)) = bdir w \<and>
         remoteFiles (snd (sync e opts pid w)) = remoteFiles w \<and>
         syncStates (snd (sync e opts pid w)) = syncStates (initialize w) \<and>
         backups (snd (sync e opts pid w)) = backups (initialize w) \<and>
         dbFile (snd (sync e opts pid w)) =
           Some (map snd (syncStates (initialize w)), map snd (backups (initialize w))) \<and>
         executedOperations (fst (sync e opts pid w)) = [] \<and>
         skippedOperations (fst (sync e opts pid w)) = [] \<and>
         operations (fst (sync e opts pid w)) =
           operations (fst (sync e (opts\<lparr>dryRun := False\<rparr>) pid w)) \<and>
         operations (fst (sync e opts pid w)) =
           (if blocked e opts pid (started w) \<or> planThrows opts (started w) then []
            else fold (resolveOps (conflictResolution opts)) (conflictsFound e opts pid (started w))
                   (plannedUploads e opts pid (started w) @ plannedDownloads opts pid (started w)))"
proof -
  note d = dryRun_pair[OF assms, of e pid w]
  have w: "snd (sync e opts pid w) = save ((started w)\<lparr>tick := Suc (Suc (tick w))\<rparr>)"
    using d by blast
  have o: "operations (fst (sync e opts pid w)) =
           operations (fst (sync e (opts\<lparr>dryRun := False\<rparr>) pid w))"
    unfolding sync_operations by (simp add: dryRun_irrelevant)
  show ?thesis
    using d o unfolding w by (simp add: save_def)
qed

lemma exFresh_sync:
  "snd (sync exEnv exDryOptions ''P'' exFreshWorld) =
     save ((started exFreshWorld)\<lparr>tick := Suc (Suc (tick exFreshWorld))\<rparr>)"
  using dryRun_pair[of exDryOptions exEnv "''P''" exFreshWorld]
  by (simp add: exDryOptions_def)

theorem sync_dryRun_frame_witness:
  "dryRun exDryOptions \<and>
   tree (snd (sync exEnv exDryOptions ''P'' exFreshWorld)) = [(''b.txt'', File ''new'' 20)] \<and>
   remoteFiles (snd (sync exEnv exDryOptions ''P'' exFreshWorld)) = [] \<and>
   syncStates (snd (sync exEnv exDryOptions ''P'' exFreshWorld)) = [] \<and>
   executedOperations (fst (sync exEnv exDryOptions ''P'' exFreshWorld)) = [] \<and>
   operations (fst (sync exEnv exDryOptions ''P'' exFreshWorld)) =
     [\<lparr>opType = upload, filePath = ''b.txt'', reason = ''New local file'',
       opConflictType = None, backupRequired = False\<rparr>]"
proof -
  have d: "dryRun exDryOptions" by (simp add: exDryOptions_def)
  have i: "initialize exFreshWorld = exFreshWorld\<lparr>initialized := True\<rparr>"
    by (simp add: initialize_def exFreshWorld_def exWorld_def)
  have f: "tree exFreshWorld = [(''b.txt'', File ''new'' 20)]" "canRead exFreshWorld"
    "online exFreshWorld" "remoteFiles exFreshWorld = []"
    "syncStates (initialize exFreshWorld) = []"
    by (simp_all add: i) (simp_all add: exFreshWorld_def exWorld_def)
  have o: "validationEnabled exDryOptions = False" "direction exDryOptions = DirBoth"
    by (simp_all add: exDryOptions_def exSyncOptions_def)
  have b: "\<not> blocked exEnv exDryOptions ''P'' (started exFreshWorld)"
    "\<not> planThrows exDryOptions (started exFreshWorld)"
    "conflictsFound exEnv exDryOptions ''P'' (started exFreshWorld) = []"
    by (simp_all add: blocked_def planThrows_def conflictsFound_def o f)
  have p: "plannedUploads exEnv exDryOptions ''P'' (started exFreshWorld) =
       [\<lparr>opType = upload, filePath = ''b.txt'', reason = ''New local file'',
         opConflictType = None, backupRequired = False\<rparr>]"
     "plannedDownloads exDryOptions ''P'' (started exFreshWorld) = []"
    by (simp_all add: plannedUploads_def plannedDownloads_def o f regularFiles_def uploadOpsFor_def
          exEnv_def)
  note T = sync_dryRun_frame[OF d, of exEnv "''P''" exFreshWorld]
  have 1: "tree (snd (sync exEnv exDryOptions ''P'' exFreshWorld)) = tree exFreshWorld"
    using T by blast
  have 2: "remoteFiles (snd (sync exEnv exDryOptions ''P'' exFreshWorld)) = remoteFiles exFreshWorld"
    using T by blast
  have 3: "syncStates (snd (sync exEnv exDryOptions ''P'' exFreshWorld)) =
           syncStates (initialize exFreshWorld)"
    using T by blast
  have 4: "executedOperations (fst (sync exEnv exDryOptions ''P'' exFreshWorld)) = []"
    using T by blast
  have 5: "operations (fst (sync exEnv exDryOptions ''P'' exFreshWorld)) =
           (if blocked exEnv exDryOptions ''P'' (started exFreshWorld) \<or>
               planThrows exDryOptions (started exFreshWorld) then []
            else fold (resolveOps (conflictResolution exDryOptions))
                   (conflictsFound exEnv exDryOptions ''P'' (started exFreshWorld))
                   (plannedUploads exEnv exDryOptions ''P'' (started exFreshWorld) @
                    plannedDownloads exDryOptions ''P'' (started exFreshWorld)))"
    using T by blast
  show ?thesis unfolding 1 2 3 4 5 using d b p f by simp
qed

text \<open>
  Claim C2 as stated fails for the state file: a dry run on a project that has no state
  file yet creates one.
\<close>

theorem sync_dryRun_counterexample:
  "dryRun exDryOptions \<and> dbFile exFreshWorld = None \<and>
   dbFile (snd (sync exEnv exDryOptions ''P'' exFreshWorld)) = Some ([], [])"
  unfolding exFresh_sync
  by (simp add: exDryOptions_def save_def started_def initialize_def exFreshWorld_def exWorld_def)


lemma exRemote_started:
  "started (exRemoteWorld t) = (exRemoteWorld t)\<lparr>tick := Suc 0\<rparr>"
  by (simp add: started_def exRemoteWorld_def exWorld_def)

lemma exRemote_download:
  "executeDownload exEnv ''P'' exDownloadOp (r, (exRemoteWorld t)\<lparr>tick := Suc 0\<rparr>) =
     (None, r\<lparr>syncStats := (syncStats r)\<lparr>filesDownloaded := Suc (filesDownloaded (syncStats r))\<rparr>\<rparr>,
      (exRemoteWorld t)\<lparr>tree := [(''r.txt'', File ''data'' 1001)],
         syncStates := [(''P:r.txt'', (exDownloadedEntry t))],
         dbFile := Some ([(exDownloadedEntry t)], []),
         tick := Suc (Suc (Suc 0))\<rparr>)"
  by (simp add: executeDownload_def exDownloadOp_def exRemoteWorld_def exWorld_def exEnv_def
        listKnowledgeFiles_def getKnowledgeFile_def exRemoteFile_def isDirectory_def newDate_def
        Let_def generateFileId_def saveFileState_def save_def initialize_def getStateKey_def
        exDownloadedEntry_def)

lemma exRemote_options:
  "validationEnabled exDownloadOptions = False" "dryRun exDownloadOptions = False"
  "direction exDownloadOptions = DirDownload" "conflictResolution exDownloadOptions = ask"
  by (simp_all add: exDownloadOptions_def exSyncOptions_def)

lemma exRemote_plan1:
  "\<not> planThrows exDownloadOptions ((exRemoteWorld t)\<lparr>tick := Suc 0\<rparr>)"
  "plannedUploads exEnv exDownloadOptions ''P'' ((exRemoteWorld t)\<lparr>tick := Suc 0\<rparr>) = []"
  "plannedDownloads exDownloadOptions ''P'' ((exRemoteWorld t)\<lparr>tick := Suc 0\<rparr>) = [exDownloadOp]"
  by (simp_all add: planThrows_def plannedUploads_def plannedDownloads_def exRemote_options
        exRemoteWorld_def exWorld_def downloadOpsFor_def exRemoteFile_def exDownloadOp_def)

lemma exRemote_run1:
  "sync exEnv exDownloadOptions ''P'' (exRemoteWorld t) =
     ((initialResult exDownloadOptions)
        \<lparr>syncSuccess := True, operations := [exDownloadOp], executedOperations := [exDownloadOp],
         syncStats := (syncStats (initialResult exDownloadOptions))
            \<lparr>filesDownloaded := 1, totalOperations := 1, duration := 3\<rparr>\<rparr>,
      (exDownloadedWorld t))"
proof -
  have i: "initialized ((exRemoteWorld t)\<lparr>tick := Suc 0\<rparr>)" by (simp add: exRemoteWorld_def exWorld_def)
  have b: "\<not> blocked exEnv exDownloadOptions ''P'' ((exRemoteWorld t)\<lparr>tick := Suc 0\<rparr>)"
    by (simp add: blocked_def exRemote_options)
  have v: "validated exEnv exDownloadOptions ''P'' ((exRemoteWorld t)\<lparr>tick := Suc 0\<rparr>) =
           initialResult exDownloadOptions"
    by (simp add: validated_def exRemote_options)
  have o: "backupRequired exDownloadOp = False" "opType exDownloadOp = download"
    by (simp_all add: exDownloadOp_def)
  have pe: "planAndExecute exEnv exDownloadOptions ''P''
              (initialResult exDownloadOptions, (exRemoteWorld t)\<lparr>tick := Suc 0\<rparr>) =
            ((initialResult exDownloadOptions)
               \<lparr>syncSuccess := True, operations := [exDownloadOp],
                executedOperations := [exDownloadOp],
                syncStats := (syncStats (initialResult exDownloadOptions))
                   \<lparr>filesDownloaded := 1, totalOperations := 1\<rparr>\<rparr>,
             (exRemoteWorld t)\<lparr>tree := [(''r.txt'', File ''data'' 1001)],
               syncStates := [(''P:r.txt'', (exDownloadedEntry t))],
               dbFile := Some ([(exDownloadedEntry t)], []),
               tick := Suc (Suc (Suc 0))\<rparr>)"
    by (simp add: planAndExecute_eq[OF i] exRemote_plan1 exRemote_options resolved_def
          executeOperations_def executeOne_def backupIfRequired_def o
          executeOperation_def exRemote_download initialResult_def)
  have "sync exEnv exDownloadOptions ''P'' (exRemoteWorld t) =
        finish exEnv (clock exEnv (tick (exRemoteWorld t)))
          (planAndExecute exEnv exDownloadOptions ''P''
              (initialResult exDownloadOptions, (exRemoteWorld t)\<lparr>tick := Suc 0\<rparr>))"
    unfolding sync_started exRemote_started using b v by simp
  also have "\<dots> = ((initialResult exDownloadOptions)
        \<lparr>syncSuccess := True, operations := [exDownloadOp], executedOperations := [exDownloadOp],
         syncStats := (syncStats (initialResult exDownloadOptions))
            \<lparr>filesDownloaded := 1, totalOperations := 1, duration := 3\<rparr>\<rparr>,
      (exDownloadedWorld t))"
    unfolding pe
    by (simp add: finish_def newDate_def close_def save_def initialResult_def
          exDownloadedWorld_def exRemoteWorld_def exWorld_def exEnv_def)
  finally show ?thesis .
qed

lemma exFresh_twice:
  "syncSuccess (fst (sync exEnv exDryOptions ''P'' exFreshWorld)) \<and>
   operations (fst (sync exEnv exDryOptions ''P'' (snd (sync exEnv exDryOptions ''P'' exFreshWorld)))) =
     [\<lparr>opType = upload, filePath = ''b.txt'', reason = ''New local file'',
       opConflictType = None, backupRequired = False\<rparr>]"
proof -
  have o: "validationEnabled exDryOptions = False" "direction exDryOptions = DirBoth"
    "dryRun exDryOptions"
    by (simp_all add: exDryOptions_def exSyncOptions_def)
  have b: "\<not> blocked exEnv exDryOptions ''P'' w" "conflictsFound exEnv exDryOptions ''P'' w = []"
    "validated exEnv exDryOptions ''P'' w = initialResult exDryOptions" for w
    by (simp_all add: blocked_def conflictsFound_def validated_def o)
  have f: "canRead exFreshWorld" "online exFreshWorld"
    by (simp_all add: exFreshWorld_def exWorld_def)
  have t: "\<not> planThrows exDryOptions (started exFreshWorld)"
    by (simp add: planThrows_def f)
  have i: "initialized (started exFreshWorld)" by simp
  have 1: "syncSuccess (fst (sync exEnv exDryOptions ''P'' exFreshWorld))"
    unfolding sync_started
    by (simp add: b t o finish_fields planAndExecute_eq[OF i] Let_def resolved_fields
          initialResult_def)
  let ?w = "save ((started exFreshWorld)\<lparr>tick := Suc (Suc (tick exFreshWorld))\<rparr>)"
  have s: "tree ?w = [(''b.txt'', File ''new'' 20)]" "syncStates (initialize ?w) = []"
    "remoteFiles ?w = []" "canRead ?w" "online ?w"
    by (simp_all add: started_def save_def initialize_def exFreshWorld_def exWorld_def)
  have p: "\<not> planThrows exDryOptions (started ?w)"
    "plannedUploads exEnv exDryOptions ''P'' (started ?w) =
       [\<lparr>opType = upload, filePath = ''b.txt'', reason = ''New local file'',
         opConflictType = None, backupRequired = False\<rparr>]"
    "plannedDownloads exDryOptions ''P'' (started ?w) = []"
    by (simp_all add: planThrows_def plannedUploads_def plannedDownloads_def o s regularFiles_def
          uploadOpsFor_def exEnv_def)
  have 2: "operations (fst (sync exEnv exDryOptions ''P'' ?w)) =
     [\<lparr>opType = upload, filePath = ''b.txt'', reason = ''New local file'',
       opConflictType = None, backupRequired = False\<rparr>]"
    unfolding sync_operations by (simp add: b p)
  show ?thesis using 1 2 unfolding exFresh_sync by simp
qed



lemma samePath_refl [simp]: "samePath pid q w w"
  by (simp add: samePath_def)

lemma samePath_trans: "samePath pid q w w' \<Longrightarrow> samePath pid q w' w'' \<Longrightarrow> samePath pid q w w''"
  by (simp add: samePath_def)

lemma inSync_samePath: "samePath pid p w w' \<Longrightarrow> inSync e pid w p \<Longrightarrow> inSync e pid w' p"
proof -
  assume s: "samePath pid p w w'" and i: "inSync e pid w p"
  have m: "rf \<in> set (map snd (remoteFiles w'))  \<Longrightarrow> remotePath rf = p \<Longrightarrow>
           rf \<in> set (map snd (remoteFiles w))" for rf
  proof -
    assume "rf \<in> set (map snd (remoteFiles w'))" "remotePath rf = p"
    then have "rf \<in> set (filter (\<lambda>rf. remotePath rf = p) (map snd (remoteFiles w')))" by simp
    with s have "rf \<in> set (filter (\<lambda>rf. remotePath rf = p) (map snd (remoteFiles w)))"
      by (simp add: samePath_def)
    then show ?thesis by simp
  qed
  show ?thesis
    unfolding inSync_def
  proof (intro conjI allI impI ballI)
    fix c m assume "map_of (tree w') p = Some (File c m)"
    with s have t: "map_of (tree w) p = Some (File c m)" by (simp add: samePath_def)
    from i t have "\<exists>st. map_of (syncStates w) (getStateKey pid p) = Some st \<and> localHash st = sha256 e c"
      unfolding inSync_def by blast
    with s show "\<exists>st. map_of (syncStates w') (getStateKey pid p) = Some st \<and> localHash st = sha256 e c"
      by (simp add: samePath_def)
  next
    fix rf assume "rf \<in> set (map snd (remoteFiles w'))" "remotePath rf = p"
    from m[OF this] have r: "rf \<in> set (map snd (remoteFiles w))" .
    from i r \<open>remotePath rf = p\<close>
    have "\<exists>st. map_of (syncStates w) (getStateKey pid p) = Some st \<and> updatedAt rf \<le> lastSyncTime st"
      unfolding inSync_def by blast
    with s show "\<exists>st. map_of (syncStates w') (getStateKey pid p) = Some st \<and> updatedAt rf \<le> lastSyncTime st"
      by (simp add: samePath_def)
  qed
qed

lemma getStateKey_inj [simp]: "getStateKey pid p = getStateKey pid q \<longleftrightarrow> p = q"
  by (simp add: getStateKey_def)

lemma frame_refl [simp]: "frame w w"
  by (simp add: frame_def)

lemma frame_trans: "frame w w' \<Longrightarrow> frame w' w'' \<Longrightarrow> frame w w''"
  by (simp add: frame_def)

lemma dbDeleteBackup_frame: "initialized w \<Longrightarrow> frame w (dbDeleteBackup bid w)"
  by (simp add: dbDeleteBackup_def frame_def initialize_def save_def Let_def split: option.splits)

lemma fold_dbDeleteBackup_frame:
  "initialized w \<Longrightarrow> frame w (fold (\<lambda>b. dbDeleteBackup (backupId b)) bs w)"
proof (induction bs arbitrary: w)
  case Nil then show ?case by simp
next
  case (Cons b bs)
  have f: "frame w (dbDeleteBackup (backupId b) w)" using Cons.prems by (rule dbDeleteBackup_frame)
  then have i: "initialized (dbDeleteBackup (backupId b) w)" using Cons.prems by (simp add: frame_def)
  from frame_trans[OF f Cons.IH[OF i]] show ?case by simp
qed

lemma cleanupOldBackups_frame: "initialized w \<Longrightarrow> frame w (cleanupOldBackups pid n w)"
  using fold_dbDeleteBackup_frame[of w] by (simp add: cleanupOldBackups_def Let_def initialize_def)

lemma createBackup_frame:
  assumes "initialized w"
  shows "frame w (snd (createBackup e bo pid p rsn w))"
proof -
  have c: "frame w w5 \<Longrightarrow> frame w (if autoCleanup bo then cleanupOldBackups pid n w5 else w5)" for w5 n
  proof -
    assume f: "frame w w5"
    then have "initialized w5" using assms by (simp add: frame_def)
    from frame_trans[OF f cleanupOldBackups_frame[OF this]] f show ?thesis by simp
  qed
  have d: "frame w (dbCreateBackup b (w\<lparr>bdir := bd, tick := Suc (Suc (Suc (tick w)))\<rparr>))" for b bd
    using assms by (simp add: dbCreateBackup_def frame_def initialize_def save_def Let_def)
  show ?thesis
    using assms c[OF d]
    by (auto simp: createBackup_def randomHex_def newDate_def Let_def succeeded_def failed_def
        frame_def split: option.splits node.splits)
qed

lemma backupIfRequired_frame:
  "initialized w \<Longrightarrow> frame w (snd (backupIfRequired e opts pid op (r, w)))"
  using createBackup_frame[of w e "backup opts" pid "filePath op" "''sync''"]
  by (simp add: backupIfRequired_def Let_def case_prod_unfold)

lemma regularFiles_update:
  "q \<noteq> p \<Longrightarrow>
   q \<in> set (regularFiles (w\<lparr>tree := AList.update p v (tree w)\<rparr>)) \<longleftrightarrow> q \<in> set (regularFiles w)"
proof -
  assume n: "q \<noteq> p"
  have "q \<in> fst ` set (filter P (AList.update p v t)) \<longleftrightarrow> q \<in> fst ` set (filter P t)" for P t
    using n by (induction t) (auto simp: image_iff)
  then show ?thesis by (simp add: regularFiles_def)
qed

lemma executeUpload_fields:
  assumes "initialized w" and "executeUpload e pid op (r, w) = (None, r', w')"
  shows "\<exists>c m. map_of (tree w) (filePath op) = Some (File c m) \<and>
           (\<exists>st. syncStates w' = AList.update (getStateKey pid (filePath op)) st (syncStates w) \<and>
              (localHash st = sha256 e c \<and> lastSyncTime st = clock e (Suc (Suc (tick w))))) \<and>
           (\<exists>f. remoteFiles w' = AList.update (''file_'' @ randomId e (Suc (tick w))) f (remoteFiles w) \<and>
              (remotePath f = filePath op \<and> updatedAt f = serverClock e (tick w))) \<and>
           online w \<and> tree w' = tree w \<and>
           tick w' = Suc (Suc (Suc (tick w))) \<and> online w' = online w \<and> canRead w' = canRead w \<and>
           initialized w'"
  using assms
  apply (clarsimp simp: executeUpload_def uploadKnowledgeFile_def randomHex_def newDate_def
      saveFileState_def save_def initialize_def Let_def split: option.splits node.splits if_splits)
  apply (rule conjI, rule exI, rule conjI, rule refl, simp, rule exI, rule conjI, rule refl, simp)
  done

lemma executeDownload_fields:
  assumes "initialized w" and "executeDownload e pid op (r, w) = (None, r', w')"
  shows "\<exists>c mt. tree w' = AList.update (filePath op) (File c mt) (tree w) \<and>
           (\<exists>st. syncStates w' = AList.update (getStateKey pid (filePath op)) st (syncStates w) \<and>
              (localHash st = sha256 e c \<and> lastSyncTime st = clock e (Suc (tick w)) \<and>
               remoteFiles w' = remoteFiles w \<and> online w \<and>
               tick w' = Suc (Suc (tick w)) \<and> online w' = online w \<and> canRead w' = canRead w \<and>
               initialized w'))"
  using assms
  apply (clarsimp simp: executeDownload_def listKnowledgeFiles_def getKnowledgeFile_def newDate_def
      saveFileState_def save_def initialize_def Let_def
      split: option.splits node.splits if_splits)
   apply (rule exI, rule conjI, rule exI, rule refl, rule exI, rule conjI, rule refl, simp)
  apply (rule exI, rule conjI, rule exI, rule refl, rule exI, rule conjI, rule refl, simp)
  done

lemma frame_samePath: "frame w w' \<Longrightarrow> samePath pid q w w'"
  by (simp add: frame_def samePath_def regularFiles_def)

lemma frame_clocksAgree:
  assumes "frame w w'" and "clocksAgree e w"
  shows "clocksAgree e w'"
proof -
  from assms(1) have r: "remoteFiles w' = remoteFiles w" and t: "tick w \<le> tick w'"
    by (simp_all add: frame_def)
  have le: "tick w' \<le> n \<Longrightarrow> tick w \<le> n" for n using t by simp
  show ?thesis using assms(2) unfolding clocksAgree_def r by (blast intro: le)
qed

lemma frame_freshIds:
  assumes "frame w w'" and "freshIds e w"
  shows "freshIds e w'"
proof -
  from assms(1) have r: "remoteFiles w' = remoteFiles w" and t: "tick w \<le> tick w'"
    by (simp_all add: frame_def)
  have le: "tick w' \<le> n \<Longrightarrow> tick w \<le> n" for n using t by simp
  show ?thesis using assms(2) unfolding freshIds_def r by (blast intro: le)
qed

lemma executeUpload_step:
  assumes i: "initialized w" and ca: "clocksAgree e w" and fr: "freshIds e w"
    and x: "executeUpload e pid op (r, w) = (None, r', w')"
  shows "initialized w' \<and> clocksAgree e w' \<and> freshIds e w' \<and> online w' = online w \<and>
         canRead w' = canRead w \<and> inSync e pid w' (filePath op) \<and>
         (\<forall>q. q \<noteq> filePath op \<longrightarrow> samePath pid q w w')"
proof -
  let ?p = "filePath op"
  let ?fid = "''file_'' @ randomId e (Suc (tick w))"
  from executeUpload_fields[OF i x] obtain c m st f where
    t: "map_of (tree w) ?p = Some (File c m)" and
    ss: "syncStates w' = AList.update (getStateKey pid ?p) st (syncStates w)" and
    st: "localHash st = sha256 e c" "lastSyncTime st = clock e (Suc (Suc (tick w)))" and
    rf0: "remoteFiles w' = AList.update ?fid f (remoteFiles w)" and
    f: "remotePath f = ?p" "updatedAt f = serverClock e (tick w)" and
    tr: "tree w' = tree w" and tk: "tick w' = Suc (Suc (Suc (tick w)))" and
    o: "online w' = online w" "canRead w' = canRead w" "initialized w'"
    by blast
  have new: "?fid \<notin> fst ` set (remoteFiles w)"
    using fr unfolding freshIds_def by simp
  have rf: "remoteFiles w' = remoteFiles w @ [(?fid, f)]"
    unfolding rf0 using new by (rule update_fresh)
  have old: "g \<in> set (map snd (remoteFiles w)) \<Longrightarrow> tick w \<le> n \<Longrightarrow> updatedAt g \<le> clock e n" for g n
    using ca unfolding clocksAgree_def by blast
  have srv: "tick w \<le> n \<Longrightarrow> n \<le> k \<Longrightarrow> serverClock e n \<le> clock e k" for n k
    using ca unfolding clocksAgree_def by blast
  have ca': "clocksAgree e w'"
    unfolding clocksAgree_def
  proof (intro conjI ballI allI impI)
    fix g n assume g: "g \<in> set (map snd (remoteFiles w'))" and n: "tick w' \<le> n"
    from n tk have n': "tick w \<le> n" by simp
    from g rf have "g \<in> set (map snd (remoteFiles w)) \<or> g = f" by auto
    then show "updatedAt g \<le> clock e n"
    proof
      assume "g \<in> set (map snd (remoteFiles w))" then show ?thesis using n' by (rule old)
    next
      assume "g = f" then show ?thesis using srv[of "tick w" n] n' f by simp
    qed
  next
    fix n k assume "tick w' \<le> n" "n \<le> k"
    then show "serverClock e n \<le> clock e k" using srv[of n k] tk by simp
  qed
  have inj: "tick w \<le> n \<Longrightarrow> n < k \<Longrightarrow> randomId e n \<noteq> randomId e k" for n k
    using fr unfolding freshIds_def by blast
  have fr': "freshIds e w'"
    unfolding freshIds_def
  proof (intro conjI allI impI)
    fix n assume n: "tick w' \<le> n"
    have a: "''file_'' @ randomId e n \<notin> fst ` set (remoteFiles w)"
      using fr n tk unfolding freshIds_def by simp
    have b: "randomId e (Suc (tick w)) \<noteq> randomId e n"
      using inj[of "Suc (tick w)" n] n tk by simp
    show "''file_'' @ randomId e n \<notin> fst ` set (remoteFiles w')"
      using a b by (auto simp: rf)
  next
    fix n k assume "tick w' \<le> n" "n < k"
    then show "randomId e n \<noteq> randomId e k" using inj[of n k] tk by simp
  qed
  have k: "map_of (syncStates w') (getStateKey pid ?p) = Some st"
    by (simp add: ss update_conv')
  have ins: "inSync e pid w' ?p"
    unfolding inSync_def
  proof (intro conjI allI impI ballI)
    fix c' m' assume "map_of (tree w') ?p = Some (File c' m')"
    with t tr have "c' = c" by simp
    with k st show "\<exists>st. map_of (syncStates w') (getStateKey pid ?p) = Some st \<and> localHash st = sha256 e c'"
      by simp
  next
    fix g assume g: "g \<in> set (map snd (remoteFiles w'))" and "remotePath g = ?p"
    from g rf have "g \<in> set (map snd (remoteFiles w)) \<or> g = f" by auto
    then have "updatedAt g \<le> clock e (Suc (Suc (tick w)))"
    proof
      assume "g \<in> set (map snd (remoteFiles w))" then show ?thesis by (rule old) simp
    next
      assume "g = f" then show ?thesis using srv[of "tick w" "Suc (Suc (tick w))"] f by simp
    qed
    with k st show "\<exists>st. map_of (syncStates w') (getStateKey pid ?p) = Some st \<and>
        updatedAt g \<le> lastSyncTime st" by simp
  qed
  have sp: "q \<noteq> ?p \<Longrightarrow> samePath pid q w w'" for q
    using f by (simp add: samePath_def tr ss rf update_conv' regularFiles_def)
  show ?thesis using o ca' fr' ins sp by blast
qed

lemma executeDownload_step:
  assumes i: "initialized w" and ca: "clocksAgree e w" and fr: "freshIds e w"
    and x: "executeDownload e pid op (r, w) = (None, r', w')"
  shows "initialized w' \<and> clocksAgree e w' \<and> freshIds e w' \<and> online w' = online w \<and>
         canRead w' = canRead w \<and> inSync e pid w' (filePath op) \<and>
         (\<forall>q. q \<noteq> filePath op \<longrightarrow> samePath pid q w w')"
proof -
  let ?p = "filePath op"
  from executeDownload_fields[OF i x] obtain c mt st where
    tr: "tree w' = AList.update ?p (File c mt) (tree w)" and
    ss: "syncStates w' = AList.update (getStateKey pid ?p) st (syncStates w)" and
    st: "localHash st = sha256 e c" "lastSyncTime st = clock e (Suc (tick w))" and
    rf: "remoteFiles w' = remoteFiles w" and
    tk: "tick w' = Suc (Suc (tick w))" and
    o: "online w' = online w" "canRead w' = canRead w" "initialized w'"
    by blast
  have le: "tick w' \<le> n \<Longrightarrow> tick w \<le> n" for n using tk by simp
  have ca': "clocksAgree e w'"
    using ca unfolding clocksAgree_def rf by (blast intro: le)
  have fr': "freshIds e w'"
    using fr unfolding freshIds_def rf by (blast intro: le)
  have old: "g \<in> set (map snd (remoteFiles w)) \<Longrightarrow> tick w \<le> n \<Longrightarrow> updatedAt g \<le> clock e n" for g n
    using ca unfolding clocksAgree_def by blast
  have k: "map_of (syncStates w') (getStateKey pid ?p) = Some st"
    by (simp add: ss update_conv')
  have ins: "inSync e pid w' ?p"
    unfolding inSync_def
  proof (intro conjI allI impI ballI)
    fix c' m' assume "map_of (tree w') ?p = Some (File c' m')"
    then have "c' = c" by (simp add: tr update_conv')
    with k st show "\<exists>st. map_of (syncStates w') (getStateKey pid ?p) = Some st \<and> localHash st = sha256 e c'"
      by simp
  next
    fix g assume g: "g \<in> set (map snd (remoteFiles w'))" and "remotePath g = ?p"
    from g have "updatedAt g \<le> clock e (Suc (tick w))" unfolding rf by (rule old) simp
    with k st show "\<exists>st. map_of (syncStates w') (getStateKey pid ?p) = Some st \<and>
        updatedAt g \<le> lastSyncTime st" by simp
  qed
  have rg: "regularFiles w' = regularFiles (w\<lparr>tree := AList.update ?p (File c mt) (tree w)\<rparr>)"
    by (simp add: regularFiles_def tr)
  have sp: "q \<noteq> ?p \<Longrightarrow> samePath pid q w w'" for q
    unfolding samePath_def rg by (simp add: regularFiles_update tr ss rf update_conv')
  show ?thesis using o ca' fr' ins sp by blast
qed

lemma executeOne_step:
  assumes i: "initialized w" and ca: "clocksAgree e w" and fr: "freshIds e w"
    and t: "opType op = upload \<or> opType op = download"
    and x: "executeOne e opts pid op (r, w) = (r', w')" and ne: "errors r' = errors r"
  shows "initialized w' \<and> clocksAgree e w' \<and> freshIds e w' \<and> online w' = online w \<and>
         canRead w' = canRead w \<and> inSync e pid w' (filePath op) \<and>
         (\<forall>q. q \<noteq> filePath op \<longrightarrow> samePath pid q w w')"
proof -
  obtain r1 w1 where b: "backupIfRequired e opts pid op (r, w) = (r1, w1)"
    by (cases "backupIfRequired e opts pid op (r, w)")
  have f: "frame w w1" using backupIfRequired_frame[OF i, of e opts pid op r] by (simp add: b)
  have e1: "errors r1 = errors r" using backupIfRequired_lists[of e opts pid op "(r, w)"] by (simp add: b)
  obtain th r2 w2 where xo: "executeOperation e opts pid op (r1, w1) = (th, r2, w2)"
    by (cases "executeOperation e opts pid op (r1, w1)") auto
  from executeOperation_result[OF xo] obtain s where r2: "r2 = r1\<lparr>syncStats := s\<rparr>" by blast
  have th: "th = None"
  proof (cases th)
    case None then show ?thesis .
  next
    case (Some msg)
    with x ne e1 r2 show ?thesis by (auto simp: executeOne_def b xo)
  qed
  have w': "w' = w2" using x by (simp add: executeOne_def b xo th)
  have i1: "initialized w1" using f i by (simp add: frame_def)
  have ca1: "clocksAgree e w1" using f ca by (rule frame_clocksAgree)
  have fr1: "freshIds e w1" using f fr by (rule frame_freshIds)
  have o1: "online w1 = online w" "canRead w1 = canRead w" using f by (simp_all add: frame_def)
  have st: "initialized w2 \<and> clocksAgree e w2 \<and> freshIds e w2 \<and> online w2 = online w1 \<and>
         canRead w2 = canRead w1 \<and> inSync e pid w2 (filePath op) \<and>
         (\<forall>q. q \<noteq> filePath op \<longrightarrow> samePath pid q w1 w2)"
    using t
  proof
    assume u: "opType op = upload"
    with xo th have "executeUpload e pid op (r1, w1) = (None, r2, w2)"
      by (simp add: executeOperation_def)
    from executeUpload_step[OF i1 ca1 fr1 this] show ?thesis .
  next
    assume d: "opType op = download"
    with xo th have "executeDownload e pid op (r1, w1) = (None, r2, w2)"
      by (simp add: executeOperation_def)
    from executeDownload_step[OF i1 ca1 fr1 this] show ?thesis .
  qed
  have sp: "q \<noteq> filePath op \<Longrightarrow> samePath pid q w w'" for q
  proof -
    assume "q \<noteq> filePath op"
    with st have "samePath pid q w1 w2" by blast
    with frame_samePath[OF f, of pid q] show ?thesis unfolding w' by (rule samePath_trans)
  qed
  show ?thesis using st sp o1 unfolding w' by simp
qed

lemma executeOne_fold_errors:
  "length (errors (fst rw)) \<le> length (errors (fst (fold (executeOne e opts pid) ops rw)))"
proof (induction ops arbitrary: rw)
  case Nil then show ?case by simp
next
  case (Cons op ops)
  obtain r1 w1 where s: "executeOne e opts pid op rw = (r1, w1)"
    by (cases "executeOne e opts pid op rw")
  from executeOne_lists[OF s] have "length (errors (fst rw)) \<le> length (errors r1)" by auto
  with Cons.IH[of "(r1, w1)"] show ?case by (simp add: s)
qed

lemma executeOne_fold_step:
  assumes "initialized w" and "clocksAgree e w" and "freshIds e w"
    and "\<forall>op \<in> set ops. opType op = upload \<or> opType op = download"
    and "fold (executeOne e opts pid) ops (r, w) = (r', w')" and "errors r' = errors r"
  shows "initialized w' \<and> online w' = online w \<and> canRead w' = canRead w \<and>
         (\<forall>p \<in> filePath ` set ops. inSync e pid w' p) \<and>
         (\<forall>q. q \<notin> filePath ` set ops \<longrightarrow> samePath pid q w w')"
  using assms
proof (induction ops arbitrary: r w)
  case Nil then show ?case by simp
next
  case (Cons op ops)
  obtain r1 w1 where s: "executeOne e opts pid op (r, w) = (r1, w1)"
    by (cases "executeOne e opts pid op (r, w)")
  have f: "fold (executeOne e opts pid) ops (r1, w1) = (r', w')"
    using Cons.prems(5) by (simp add: s)
  have l: "length (errors r1) \<le> length (errors r')"
    using executeOne_fold_errors[of "(r1, w1)" e opts pid ops] by (simp add: f)
  have e1: "errors r1 = errors r"
    using executeOne_lists[OF s] l Cons.prems(6) by auto
  have t: "opType op = upload \<or> opType op = download" using Cons.prems(4) by simp
  note st = executeOne_step[OF Cons.prems(1) Cons.prems(2) Cons.prems(3) t s e1]
  have ts: "\<forall>op \<in> set ops. opType op = upload \<or> opType op = download" using Cons.prems(4) by simp
  have e2: "errors r' = errors r1" using e1 Cons.prems(6) by simp
  from st have i1: "initialized w1" and c1: "clocksAgree e w1" and f1: "freshIds e w1" by simp_all
  note ih = Cons.IH[OF i1 c1 f1 ts f e2]
  have a: "inSync e pid w' p" if "p \<in> filePath ` set (op # ops)" for p
  proof (cases "p \<in> filePath ` set ops")
    case True then show ?thesis using ih by blast
  next
    case False
    with that have p: "p = filePath op" by auto
    from False ih have "samePath pid p w1 w'" by blast
    moreover from st p have "inSync e pid w1 p" by simp
    ultimately show ?thesis by (rule inSync_samePath)
  qed
  have b: "samePath pid q w w'" if "q \<notin> filePath ` set (op # ops)" for q
  proof -
    from that have "q \<noteq> filePath op" "q \<notin> filePath ` set ops" by auto
    with st ih have "samePath pid q w w1" "samePath pid q w1 w'" by blast+
    then show ?thesis by (rule samePath_trans)
  qed
  show ?case using st ih a b by simp
qed

lemma resolveOps_filter:
  "res \<noteq> backup_and_merge \<Longrightarrow>
   fold (resolveOps res) cs ops = filter (\<lambda>op. \<not> dropped res cs op) ops"
proof (induction cs arbitrary: ops)
  case Nil then show ?case by (cases res) (simp_all add: dropped_def)
next
  case (Cons c cs)
  have "fold (resolveOps res) (c # cs) ops = fold (resolveOps res) cs (resolveOps res c ops)" by simp
  also have "\<dots> = filter (\<lambda>op. \<not> dropped res cs op) (resolveOps res c ops)"
    using Cons.prems by (rule Cons.IH)
  also have "\<dots> = filter (\<lambda>op. \<not> dropped res (c # cs) op) ops"
    using Cons.prems by (cases res) (auto simp: resolveOps_def dropped_def intro: filter_cong)
  finally show ?case .
qed

lemma markUpload_map:
  "map filePath (markUpload p ops) = map filePath ops \<and> map opType (markUpload p ops) = map opType ops"
  by (induction ops) simp_all

lemma resolveOps_merge:
  "map filePath (fold (resolveOps backup_and_merge) cs ops) = map filePath ops \<and>
   map opType (fold (resolveOps backup_and_merge) cs ops) = map opType ops"
proof (induction cs arbitrary: ops)
  case Nil then show ?case by simp
next
  case (Cons c cs)
  show ?case using Cons.IH[of "markUpload (conflictPath c) ops"] markUpload_map[of "conflictPath c" ops]
    by (simp add: resolveOps_def)
qed

lemma resolveOps_types:
  assumes "\<forall>op \<in> set ops. opType op = upload \<or> opType op = download"
  shows "\<forall>op \<in> set (fold (resolveOps res) cs ops). opType op = upload \<or> opType op = download"
proof (cases "res = backup_and_merge")
  case False
  then show ?thesis using assms by (simp add: resolveOps_filter)
next
  case True
  have "set (map opType (fold (resolveOps res) cs ops)) = set (map opType ops)"
    using resolveOps_merge[of cs ops] True by simp
  then have "opType ` set (fold (resolveOps res) cs ops) = opType ` set ops" by simp
  then show ?thesis using assms by (metis (no_types, lifting) imageE imageI)
qed

lemma resolveOps_kept:
  assumes "op \<in> set ops" and "\<not> dropped res cs op"
  shows "filePath op \<in> filePath ` set (fold (resolveOps res) cs ops)"
proof (cases "res = backup_and_merge")
  case False
  then show ?thesis using assms by (simp add: resolveOps_filter)
next
  case True
  have "set (map filePath (fold (resolveOps res) cs ops)) = set (map filePath ops)"
    using resolveOps_merge[of cs ops] True by simp
  then have "filePath ` set (fold (resolveOps res) cs ops) = filePath ` set ops" by simp
  then show ?thesis using assms by simp
qed

lemma resolveOps_all_dropped:
  assumes "\<forall>op \<in> set ops. dropped res cs op"
  shows "fold (resolveOps res) cs ops = []"
proof (cases "res = backup_and_merge")
  case False
  then show ?thesis using assms by (simp add: resolveOps_filter)
next
  case True
  with assms have "ops = []" by (cases ops) (auto simp: dropped_def)
  moreover have "map filePath (fold (resolveOps res) cs ops) = map filePath ops"
    using resolveOps_merge[of cs ops] True by simp
  ultimately show ?thesis by simp
qed

lemma validateRemoteFile_round:
  "vConflicts (validateRemoteFile pid rf v) =
     vConflicts v @ remoteFileConflicts pid (initialize (vWorld v)) rf"
  by (auto simp: validateRemoteFile_def getFileState_def Let_def remoteFileConflicts_def
        pushConflict_def split: option.splits)

lemma validateRemoteFile_fold:
  "vConflicts (fold (validateRemoteFile pid) rfs v) =
     vConflicts v @ concat (map (remoteFileConflicts pid (initialize (vWorld v))) rfs)"
proof (induction rfs arbitrary: v)
  case Nil then show ?case by simp
next
  case (Cons rf rfs)
  have "vConflicts (fold (validateRemoteFile pid) (rf # rfs) v) =
        vConflicts (fold (validateRemoteFile pid) rfs (validateRemoteFile pid rf v))" by simp
  also have "\<dots> = vConflicts (validateRemoteFile pid rf v) @
      concat (map (remoteFileConflicts pid (initialize (vWorld (validateRemoteFile pid rf v)))) rfs)"
    by (rule Cons.IH)
  also have "\<dots> = vConflicts v @ concat (map (remoteFileConflicts pid (initialize (vWorld v))) (rf # rfs))"
    by (simp add: validateRemoteFile_round validateRemoteFile_world)
  finally show ?case .
qed

lemma validateLocalFiles_offline:
  "\<not> canRead (vWorld v) \<Longrightarrow> vConflicts (validateLocalFiles e pid v) = vConflicts v"
  by (simp add: validateLocalFiles_def validatorLocalFiles_def pushIssue_def)

lemma validateRemoteFiles_conflicts:
  "vConflicts (validateRemoteFiles pid v) =
     vConflicts v @ (if online (vWorld v)
                     then concat (map (remoteFileConflicts pid (initialize (vWorld v)))
                                      (map snd (remoteFiles (vWorld v))))
                     else [])"
  by (simp add: validateRemoteFiles_def listKnowledgeFiles_def pushIssue_def validateRemoteFile_fold)

lemma detectConflicts_fold:
  "vConflicts (fold (\<lambda>st v'. if fileExists w (localPath st) then v'
                      else if localPath st \<in> set (map remotePath rfs)
                      then pushConflict
                             \<lparr>conflictPath = localPath st, conflictType = local_deleted,
                              conflictLocalMtime = None, conflictRemoteMtime = None,
                              conflictLastSyncTime = Some (lastSyncTime st),
                              conflictLocalHash = None, conflictRemoteHash = None\<rparr> v'
                      else v') sts v) =
   vConflicts v @ concat (map (\<lambda>st. if fileExists w (localPath st) then []
      else if localPath st \<in> set (map remotePath rfs)
      then [\<lparr>conflictPath = localPath st, conflictType = local_deleted,
             conflictLocalMtime = None, conflictRemoteMtime = None,
             conflictLastSyncTime = Some (lastSyncTime st),
             conflictLocalHash = None, conflictRemoteHash = None\<rparr>]
      else []) sts)"
  by (induction sts arbitrary: v) (simp_all add: pushConflict_def)

lemma detectConflicts_conflicts:
  assumes "initialized (vWorld v)"
  shows "detectConflicts pid v =
     (if online (vWorld v) then detectConflicts pid v else None) \<and>
     (online (vWorld v) \<longrightarrow>
        (\<exists>v3. detectConflicts pid v = Some v3 \<and>
           vConflicts v3 = vConflicts v @
             concat (map (deletedConflict (vWorld v))
                      (filter (\<lambda>en. projectId en = pid) (map snd (syncStates (vWorld v)))))))"
proof -
  have d: "deletedConflict (vWorld v) = (\<lambda>st. if fileExists (vWorld v) (localPath st) then []
      else if localPath st \<in> set (map remotePath (map snd (remoteFiles (vWorld v))))
      then [\<lparr>conflictPath = localPath st, conflictType = local_deleted,
             conflictLocalMtime = None, conflictRemoteMtime = None,
             conflictLastSyncTime = Some (lastSyncTime st),
             conflictLocalHash = None, conflictRemoteHash = None\<rparr>]
      else [])"
    by (rule ext) (simp add: deletedConflict_def)
  show ?thesis
    unfolding d using assms
    by (simp add: detectConflicts_def listFileStates_def listKnowledgeFiles_def Let_def
        detectConflicts_fold initialize_def)
qed

lemma runChecks_conflicts:
  assumes "initialized w"
  shows "vConflicts (runChecks e opts pid dir w) = conflictsOf e pid dir w"
proof -
  define v0 where "v0 = \<lparr>vIssues =
                   (if checkDiskSpace opts then checkDiskSpaceIssues w else []) @
                   (if checkPermissions opts then checkPermissionsIssues w else []) @
                   (if checkGitStatus opts then checkGitStatusIssues w else []) @
                   (if checkNetworkConnectivity opts then checkNetworkConnectivityIssues w else []),
                vStats = \<lparr>localFiles = 0, remoteFilesSeen = 0, conflictFiles = 0,
                           newLocalFiles = 0, newRemoteFiles = 0, unchangedFiles = 0\<rparr>,
                vConflicts = [], vWorld = w\<rparr>"
  define v1 where "v1 = (if dir = DirUpload \<or> dir = DirBoth then validateLocalFiles e pid v0 else v0)"
  define v2 where "v2 = (if dir = DirDownload \<or> dir = DirBoth then validateRemoteFiles pid v1 else v1)"
  define L where "L = (if (dir = DirUpload \<or> dir = DirBoth) \<and> canRead w
      then concat (map (localFileConflicts e pid w) (filter (\<lambda>p. \<not> ignored e p) (regularFiles w)))
      else [])"
  define R where "R = (if (dir = DirDownload \<or> dir = DirBoth) \<and> online w
      then concat (map (remoteFileConflicts pid w) (map snd (remoteFiles w)))
      else [])"
  define D where "D = (if dir = DirBoth \<and> online w
      then concat (map (deletedConflict w) (filter (\<lambda>en. projectId en = pid) (map snd (syncStates w))))
      else [])"
  have iw: "initialize w = w" using assms by (simp add: initialize_def)
  have w0: "vWorld v0 = w" and c0: "vConflicts v0 = []" by (simp_all add: v0_def)
  have w1: "vWorld v1 = w" using validateLocalFiles_world[of v0 e pid] assms w0 by (simp add: v1_def)
  have c1: "vConflicts v1 = L"
  proof (cases "canRead w")
    case True
    then show ?thesis
      using validateLocalFiles_conflicts[of v0 e pid] w0 c0 by (simp add: v1_def L_def iw)
  next
    case False
    then show ?thesis
      using validateLocalFiles_offline[of v0 e pid] w0 c0 by (simp add: v1_def L_def)
  qed
  have w2: "vWorld v2 = w" using validateRemoteFiles_world[of v1 pid] assms w1 by (simp add: v2_def)
  have c2: "vConflicts v2 = L @ R"
    using validateRemoteFiles_conflicts[of pid v1] by (simp add: v2_def R_def w1 c1 iw)
  have r: "runChecks e opts pid dir w =
       (if dir = DirBoth
         then (case detectConflicts pid v2 of
                 Some v3 \<Rightarrow> v3
               | None \<Rightarrow>
                   pushIssue (issue IssueError ''VALIDATION_ERROR'' ''Validation failed''
                                None ''Check your configuration and try again'')
                     (v2\<lparr>vWorld := initialize (vWorld v2)\<rparr>))
         else v2)"
    unfolding runChecks_def Let_def v2_def v1_def v0_def by (rule refl)
  have i2: "initialized (vWorld v2)" using assms w2 by simp
  have c3: "vConflicts (runChecks e opts pid dir w) = (L @ R) @ D"
  proof (cases "dir = DirBoth")
    case False
    then show ?thesis unfolding r by (simp add: c2 D_def)
  next
    case True
    show ?thesis
    proof (cases "online w")
      case on: True
      from detectConflicts_conflicts[OF i2, of pid] on w2 obtain v3 where
        "detectConflicts pid v2 = Some v3" and
        "vConflicts v3 = vConflicts v2 @ concat (map (deletedConflict w)
                      (filter (\<lambda>en. projectId en = pid) (map snd (syncStates w))))"
        by auto
      then show ?thesis unfolding r using True on by (simp add: c2 D_def)
    next
      case off: False
      from detectConflicts_conflicts[OF i2, of pid] off w2
      have "detectConflicts pid v2 = None" by simp
      then show ?thesis unfolding r using True off by (simp add: c2 D_def pushIssue_def)
    qed
  qed
  show ?thesis unfolding c3 conflictsOf_def L_def R_def D_def by simp
qed

lemma conflictsFound_eq:
  "initialized w \<Longrightarrow>
   conflictsFound e opts pid w =
     (if validationEnabled opts then conflictsOf e pid (direction opts) w else [])"
  by (simp add: conflictsFound_def validate_def Let_def runChecks_conflicts)

lemma samePath_remote:
  assumes "samePath pid q w w'" and "rf \<in> set (map snd (remoteFiles w))" and "remotePath rf = q"
  shows "rf \<in> set (map snd (remoteFiles w'))"
proof -
  from assms(2,3) have "rf \<in> set (filter (\<lambda>rf. remotePath rf = q) (map snd (remoteFiles w)))" by simp
  with assms(1) have "rf \<in> set (filter (\<lambda>rf. remotePath rf = q) (map snd (remoteFiles w')))"
    by (simp add: samePath_def)
  then show ?thesis by simp
qed

lemma samePath_sym: "samePath pid q w w' \<Longrightarrow> samePath pid q w' w"
  by (simp add: samePath_def)

lemma samePath_fields:
  assumes "samePath pid q w w'"
  shows "map_of (tree w') q = map_of (tree w) q"
    and "map_of (syncStates w') (getStateKey pid q) = map_of (syncStates w) (getStateKey pid q)"
  using assms by (simp_all add: samePath_def)

lemma samePath_localFileConflicts:
  "samePath pid q w w' \<Longrightarrow> localFileConflicts e pid w' q = localFileConflicts e pid w q"
  unfolding localFileConflicts_def by (simp only: samePath_fields)

lemma samePath_remoteFileConflicts:
  "samePath pid (remotePath rf) w w' \<Longrightarrow> remoteFileConflicts pid w' rf = remoteFileConflicts pid w rf"
  unfolding remoteFileConflicts_def statMtime_def by (simp only: samePath_fields)

lemma samePath_uploadOpsFor:
  "samePath pid q w w' \<Longrightarrow> uploadOpsFor e pid w' q = uploadOpsFor e pid w q"
  unfolding uploadOpsFor_def by (simp only: samePath_fields)

lemma samePath_downloadOpsFor:
  "samePath pid (remotePath rf) w w' \<Longrightarrow> downloadOpsFor pid w' rf = downloadOpsFor pid w rf"
  unfolding downloadOpsFor_def fileExists_def by (simp only: samePath_fields)

lemma remoteFileConflicts_path:
  "k \<in> set (remoteFileConflicts pid w rf) \<Longrightarrow> conflictPath k = remotePath rf"
  by (auto simp: remoteFileConflicts_def split: option.splits if_splits)

lemma deletedConflict_path:
  "k \<in> set (deletedConflict w st) \<Longrightarrow>
   conflictPath k = localPath st \<and> \<not> fileExists w (localPath st) \<and>
   localPath st \<in> remotePath ` set (map snd (remoteFiles w))"
  by (auto simp: deletedConflict_def split: if_splits)

lemma conflictsOf_persist:
  assumes d: "distinct (map fst (syncStates w))"
    and ks: "\<forall>ks \<in> set (syncStates w). fst ks = getStateKey (projectId (snd ks)) (localPath (snd ks))"
    and sp: "samePath pid q w w'" and on: "online w' = online w" and cr: "canRead w' = canRead w"
    and c: "q \<in> conflictPath ` set (conflictsOf e pid dir w)"
  shows "q \<in> conflictPath ` set (conflictsOf e pid dir w')"
proof -
  from c obtain k where k: "k \<in> set (conflictsOf e pid dir w)" and kq: "conflictPath k = q" by auto
  let ?L = "\<lambda>w. if (dir = DirUpload \<or> dir = DirBoth) \<and> canRead w
      then concat (map (localFileConflicts e pid w) (filter (\<lambda>p. \<not> ignored e p) (regularFiles w)))
      else []"
  let ?R = "\<lambda>w. if (dir = DirDownload \<or> dir = DirBoth) \<and> online w
      then concat (map (remoteFileConflicts pid w) (map snd (remoteFiles w)))
      else []"
  let ?D = "\<lambda>w. if dir = DirBoth \<and> online w
      then concat (map (deletedConflict w) (filter (\<lambda>en. projectId en = pid) (map snd (syncStates w))))
      else []"
  have split: "set (conflictsOf e pid dir v) = set (?L v) \<union> set (?R v) \<union> set (?D v)" for v
    unfolding conflictsOf_def by (simp only: set_append Un_assoc)
  from k have "k \<in> set (?L w) \<or> k \<in> set (?R w) \<or> k \<in> set (?D w)" unfolding split by blast
  then have "\<exists>k'. conflictPath k' = q \<and> (k' \<in> set (?L w') \<or> k' \<in> set (?R w') \<or> k' \<in> set (?D w'))"
  proof (elim disjE)
    assume a: "k \<in> set (?L w)"
    then have g: "(dir = DirUpload \<or> dir = DirBoth) \<and> canRead w" by (auto split: if_splits)
    with a obtain p where p: "p \<in> set (regularFiles w)" "\<not> ignored e p"
        "k \<in> set (localFileConflicts e pid w p)" by auto
    from localFileConflicts_path[OF p(3)] kq have pq: "p = q" by simp
    from p(1) sp pq have "q \<in> set (regularFiles w')" by (simp add: samePath_def)
    moreover from p(3) pq have "k \<in> set (localFileConflicts e pid w' q)"
      by (simp add: samePath_localFileConflicts[OF sp])
    ultimately have "k \<in> set (?L w')" using g p(2) pq cr by auto
    with kq show ?thesis by blast
  next
    assume a: "k \<in> set (?R w)"
    then have g: "(dir = DirDownload \<or> dir = DirBoth) \<and> online w" by (auto split: if_splits)
    with a obtain rf where rf: "rf \<in> set (map snd (remoteFiles w))"
        "k \<in> set (remoteFileConflicts pid w rf)" by auto
    from remoteFileConflicts_path[OF rf(2)] kq have pq: "remotePath rf = q" by simp
    from samePath_remote[OF sp rf(1) pq] have r': "rf \<in> set (map snd (remoteFiles w'))" .
    from sp pq have "samePath pid (remotePath rf) w w'" by simp
    from samePath_remoteFileConflicts[OF this] rf(2)
    have "k \<in> set (remoteFileConflicts pid w' rf)" by simp
    with r' have "k \<in> set (?R w')" using g on by auto
    with kq show ?thesis by blast
  next
    assume a: "k \<in> set (?D w)"
    then have g: "dir = DirBoth \<and> online w" by (auto split: if_splits)
    with a obtain st where st: "st \<in> set (map snd (syncStates w))" "projectId st = pid"
        "k \<in> set (deletedConflict w st)" by auto
    from deletedConflict_path[OF st(3)] kq
    have pq: "localPath st = q" and ne: "\<not> fileExists w q"
      and rq: "q \<in> remotePath ` set (map snd (remoteFiles w))" by auto
    from st(1) obtain key where m: "(key, st) \<in> set (syncStates w)" by auto
    with ks st(2) pq have key: "key = getStateKey pid q" by fastforce
    from m d have "map_of (syncStates w) key = Some st" by (simp add: map_of_eq_Some_iff)
    with sp key have "map_of (syncStates w') (getStateKey pid q) = Some st" by (simp add: samePath_def)
    then have "(getStateKey pid q, st) \<in> set (syncStates w')" by (rule map_of_SomeD)
    then have s': "st \<in> set (map snd (syncStates w'))" by force
    from ne sp have ne': "\<not> fileExists w' q" by (simp add: samePath_def fileExists_def)
    from rq obtain rf where "rf \<in> set (map snd (remoteFiles w))" "remotePath rf = q" by auto
    from samePath_remote[OF sp this] \<open>remotePath rf = q\<close>
    have rq': "q \<in> set (map remotePath (map snd (remoteFiles w')))" by force
    let ?k = "\<lparr>conflictPath = q, conflictType = local_deleted,
             conflictLocalMtime = None, conflictRemoteMtime = None,
             conflictLastSyncTime = Some (lastSyncTime st),
             conflictLocalHash = None, conflictRemoteHash = None\<rparr>"
    have "?k \<in> set (deletedConflict w' st)" using ne' rq' pq by (simp add: deletedConflict_def)
    with s' st(2) g on have "?k \<in> set (?D w')" by auto
    moreover have "conflictPath ?k = q" by simp
    ultimately show ?thesis by blast
  qed
  then show ?thesis unfolding split by blast
qed

lemma planned_cases:
  "op \<in> set (plannedUploads e opts pid w @ plannedDownloads opts pid w) \<longleftrightarrow>
     ((direction opts = DirUpload \<or> direction opts = DirBoth) \<and>
      (\<exists>p \<in> set (regularFiles w). \<not> excluded e p \<and> op \<in> set (uploadOpsFor e pid w p))) \<or>
     ((direction opts = DirDownload \<or> direction opts = DirBoth) \<and>
      (\<exists>rf \<in> set (map snd (remoteFiles w)). op \<in> set (downloadOpsFor pid w rf)))"
  by (auto simp: plannedUploads_def plannedDownloads_def)

lemma planned_types:
  "\<forall>op \<in> set (plannedUploads e opts pid w @ plannedDownloads opts pid w).
     opType op = upload \<or> opType op = download"
  using plannedUploads_props[of _ e opts pid w] plannedDownloads_props[of _ opts pid w] by auto

lemma planned_elim:
  assumes "op \<in> set (plannedUploads e opts pid w @ plannedDownloads opts pid w)"
  obtains (up) p where "direction opts = DirUpload \<or> direction opts = DirBoth"
      "p \<in> set (regularFiles w)" "\<not> excluded e p" "op \<in> set (uploadOpsFor e pid w p)"
    | (down) rf where "direction opts = DirDownload \<or> direction opts = DirBoth"
      "rf \<in> set (map snd (remoteFiles w))" "op \<in> set (downloadOpsFor pid w rf)"
  using assms unfolding planned_cases by blast

lemma planned_samePath:
  assumes p: "op \<in> set (plannedUploads e opts pid w' @ plannedDownloads opts pid w')"
    and sp: "samePath pid (filePath op) w w'"
  shows "op \<in> set (plannedUploads e opts pid w @ plannedDownloads opts pid w)"
  using p
proof (cases rule: planned_elim)
  case (up p)
  from uploadOpsFor_props[OF up(4)] have fp: "filePath op = p" by simp
  from sp fp have s: "samePath pid p w w'" by simp
  from up(2) s have "p \<in> set (regularFiles w)" by (simp add: samePath_def)
  moreover from up(4) have "op \<in> set (uploadOpsFor e pid w p)"
    by (simp add: samePath_uploadOpsFor[OF s])
  ultimately show ?thesis unfolding planned_cases using up(1,3) by blast
next
  case (down rf)
  from downloadOpsFor_props[OF down(3)] have fp: "filePath op = remotePath rf" by simp
  from sp fp have s: "samePath pid (remotePath rf) w w'" by simp
  from samePath_remote[OF samePath_sym[OF s] down(2) refl]
  have "rf \<in> set (map snd (remoteFiles w))" .
  moreover from down(3) have "op \<in> set (downloadOpsFor pid w rf)"
    by (simp add: samePath_downloadOpsFor[OF s])
  ultimately show ?thesis unfolding planned_cases using down(1) by blast
qed

lemma planned_inSync:
  assumes p: "op \<in> set (plannedUploads e opts pid w @ plannedDownloads opts pid w)"
  shows "\<not> inSync e pid w (filePath op)"
proof
  assume i: "inSync e pid w (filePath op)"
  from p show False
  proof (cases rule: planned_elim)
    case (up p)
    from uploadOpsFor_props[OF up(4)] obtain c m where fp: "filePath op = p"
      and t: "map_of (tree w) p = Some (File c m)"
      and k: "case map_of (syncStates w) (getStateKey pid p) of
           None \<Rightarrow> reason op = ''New local file''
         | Some st \<Rightarrow> reason op = ''Local file modified'' \<and> sha256 e c \<noteq> localHash st"
      by blast
    from i fp t obtain st where "map_of (syncStates w) (getStateKey pid p) = Some st"
      "localHash st = sha256 e c" unfolding inSync_def by blast
    with k show False by simp
  next
    case (down rf)
    from downloadOpsFor_props[OF down(3)] have fp: "filePath op = remotePath rf" by simp
    from i fp down(2) obtain st where "map_of (syncStates w) (getStateKey pid (remotePath rf)) = Some st"
      "updatedAt rf \<le> lastSyncTime st" unfolding inSync_def by metis
    with down(3) show False by (simp add: downloadOpsFor_def)
  qed
qed

lemma dropped_path: "dropped res cs op \<Longrightarrow> filePath op \<in> conflictPath ` set cs"
  by (cases res) (simp_all add: dropped_def)

lemma dropped_transfer:
  "dropped res cs op \<Longrightarrow> filePath op \<in> conflictPath ` set cs' \<Longrightarrow> dropped res cs' op"
  by (cases res) (simp_all add: dropped_def)

lemma started_clocksAgree: "clocksAgree e w \<Longrightarrow> clocksAgree e (started w)"
proof -
  have le: "Suc (tick w) \<le> n \<Longrightarrow> tick w \<le> n" for n by simp
  assume "clocksAgree e w"
  then show ?thesis unfolding clocksAgree_def started_frame by (blast intro: le)
qed

lemma started_freshIds: "freshIds e w \<Longrightarrow> freshIds e (started w)"
proof -
  have le: "Suc (tick w) \<le> n \<Longrightarrow> tick w \<le> n" for n by simp
  assume "freshIds e w"
  then show ?thesis unfolding freshIds_def started_frame by (blast intro: le)
qed

lemma started_closed_frame:
  "initialized w \<Longrightarrow> frame w (started (close (w\<lparr>tick := Suc (tick w)\<rparr>)))"
  by (simp add: frame_def started_def close_def save_def initialize_def)

lemma sync_success_run:
  assumes nd: "\<not> dryRun opts" and ok: "syncSuccess (fst (sync e opts pid w))"
  shows "\<exists>r2 r3 w3.
           operations r2 =
             fold (resolveOps (conflictResolution opts)) (conflictsFound e opts pid (started w))
               (plannedUploads e opts pid (started w) @ plannedDownloads opts pid (started w)) \<and>
           fold (executeOne e opts pid) (operations r2) (r2, started w) = (r3, w3) \<and>
           errors r3 = [] \<and>
           snd (sync e opts pid w) = close (w3\<lparr>tick := Suc (tick w3)\<rparr>)"
proof -
  let ?s = "started w"
  define r0 where "r0 = validated e opts pid ?s"
  define P where "P = plannedUploads e opts pid ?s @ plannedDownloads opts pid ?s"
  define r2 where "r2 = resolved opts P r0"
  have i: "initialized ?s" by simp
  have nb: "\<not> blocked e opts pid ?s"
  proof
    assume "blocked e opts pid ?s"
    then have "syncSuccess (fst (sync e opts pid w)) = False"
      unfolding sync_started by (simp add: finish_fields initialResult_def)
    with ok show False by simp
  qed
  have s: "sync e opts pid w = finish e (clock e (tick w)) (planAndExecute e opts pid (r0, ?s))"
    unfolding sync_started r0_def using nb by simp
  have s0: "syncSuccess r0 = False" by (simp add: r0_def validated_def initialResult_def Let_def)
  have nt: "\<not> planThrows opts ?s"
  proof
    assume "planThrows opts ?s"
    then have "syncSuccess (fst (sync e opts pid w)) = False"
      unfolding s by (simp add: finish_fields planAndExecute_eq[OF i] s0)
    with ok show False by simp
  qed
  obtain r3 w3 where x: "executeOperations e opts pid (r2, ?s) = (r3, w3)"
    by (cases "executeOperations e opts pid (r2, ?s)")
  have pe: "planAndExecute e opts pid (r0, ?s) = (r3\<lparr>syncSuccess := (errors r3 = [])\<rparr>, w3)"
    using nt nd x by (simp add: planAndExecute_eq[OF i] Let_def r2_def P_def)
  have e3: "errors r3 = []" using ok unfolding s pe by (simp add: finish_fields)
  have w: "snd (sync e opts pid w) = close (w3\<lparr>tick := Suc (tick w3)\<rparr>)"
    unfolding s pe by (simp add: finish_fields)
  have o2: "operations r2 =
             fold (resolveOps (conflictResolution opts)) (conflictsFound e opts pid ?s) P"
    unfolding r2_def r0_def by (simp add: resolved_fields validated_fields)
  have f: "fold (executeOne e opts pid) (operations r2) (r2, ?s) = (r3, w3)"
    using x by (simp add: executeOperations_def)
  show ?thesis using o2 f e3 w unfolding P_def by blast
qed



end
